theory Spec2Isabelle
  imports Main "HOL-Library.Word"
begin

unbundle bit_operations_syntax

section \<open>Rollup compression of the enclave (package components)\<close>

text \<open>
  A shallow embedding of \<^verbatim>\<open>RollupCompression\<close>: the builder \<^verbatim>\<open>createRollupHeader\<close>,
  the reconstruction \<^verbatim>\<open>createIncompleteBatches\<close> with its helpers, and
  \<^verbatim>\<open>executeAndSaveIncompleteBatches\<close>. Go's \<^verbatim>\<open>uint64\<close> and \<^verbatim>\<open>int64\<close> are 64-bit words
  (an \<^verbatim>\<open>int64\<close> is read with \<open>sint\<close>), \<^verbatim>\<open>*big.Int\<close> is \<open>int\<close>. Errors, panics and the
  process exit of \<^verbatim>\<open>logger.Crit\<close> are values of the type \<open>error\<close>.
\<close>

subsection \<open>Basic types\<close>

type_synonym u64 = "64 word"
type_synonym i64 = "64 word"
type_synonym byte = "8 word"
type_synonym bytes = "byte list"
type_synonym hash = nat
type_synonym address = nat
type_synonym L2Tx = nat
type_synonym receipts = "nat list"

datatype error =
    ErrNotFound
  | ErrOther nat
  | ErrGobVersion
  | ErrL1BlockNotRetrieved
  | ErrCause nat error
  | Panic
  | Crit

text \<open>
  \<open>ErrNotFound\<close> is \<^verbatim>\<open>errutil.ErrNotFound\<close>; \<open>ErrOther\<close> any other error of a collaborator;
  \<open>ErrGobVersion\<close> the error of \<^verbatim>\<open>big.Int.GobDecode\<close>; \<open>ErrL1BlockNotRetrieved\<close> the
  "programming error. L1 block not retrieved"; \<open>ErrCause\<close> an error wrapped by
  \<^verbatim>\<open>fmt.Errorf\<close> with \<^verbatim>\<open>%w\<close>; \<open>Panic\<close> a run-time panic (index out of range, nil
  dereference); \<open>Crit\<close> the exit of the process by \<^verbatim>\<open>logger.Crit\<close>.
\<close>

fun errorsIs :: "error \<Rightarrow> error \<Rightarrow> bool" where
  "errorsIs (ErrCause m e) t = (ErrCause m e = t \<or> errorsIs e t)"
| "errorsIs e t = (e = t)"

definition index :: "'a list \<Rightarrow> nat \<Rightarrow> error + 'a" where
  "index xs i = (if i < length xs then Inr (xs ! i) else Inl Panic)"

subsection \<open>Conversions of \<^verbatim>\<open>math/big\<close>\<close>

definition Int64 :: "int \<Rightarrow> i64" where
  "Int64 x = word_of_int x"

definition Uint64 :: "int \<Rightarrow> u64" where
  "Uint64 x = word_of_int \<bar>x\<bar>"

definition NewInt :: "i64 \<Rightarrow> int" where
  "NewInt v = sint v"

fun setBytes :: "bytes \<Rightarrow> nat \<Rightarrow> nat" where
  "setBytes [] acc = acc"
| "setBytes (b # bs) acc = setBytes bs (acc * 256 + unat b)"

function natBytes :: "nat \<Rightarrow> bytes" where
  "natBytes n = (if n = 0 then [] else natBytes (n div 256) @ [of_nat (n mod 256)])"
  by pat_completeness auto
termination
  by (relation "measure id") auto

declare natBytes.simps [simp del]

definition GobEncode :: "int \<Rightarrow> error + bytes" where
  "GobEncode x = Inr ((if x < 0 then 3 else 2) # natBytes (nat \<bar>x\<bar>))"

definition GobDecode :: "bytes \<Rightarrow> error + int" where
  "GobDecode buf =
     (case buf of
        [] \<Rightarrow> Inr 0
      | b # rest \<Rightarrow>
          if drop_bit 1 b \<noteq> 1 then Inl ErrGobVersion
          else if b AND 1 \<noteq> 0 then Inr (- int (setBytes rest 0))
          else Inr (int (setBytes rest 0)))"

subsection \<open>Data of the rollup\<close>

text \<open>
  Modelled from the spec: the declarations of \<^verbatim>\<open>common.BatchHeader\<close>, \<^verbatim>\<open>core.Batch\<close>,
  \<^verbatim>\<open>types.Block\<close>, \<^verbatim>\<open>core.Rollup\<close>, \<^verbatim>\<open>common.ExtRollup\<close> and
  \<^verbatim>\<open>common.CalldataRollupHeader\<close> are not part of the sources at hand. The records carry
  the fields the compression code reads; \<open>Other\<close> stands for the remaining fields of a
  batch header (state root, receipt hash, signature, ...), which the code never inspects.
\<close>

record BatchHeader =
  ParentHash :: hash
  Number :: int
  SequencerOrderNo :: int
  Time :: u64
  L1Proof :: hash
  Coinbase :: address
  BaseFee :: int
  GasLimit :: u64
  Other :: nat

record Batch =
  Header :: BatchHeader
  Transactions :: "L2Tx list"

definition SeqNo :: "Batch \<Rightarrow> int" where
  "SeqNo b = SequencerOrderNo (Header b)"

record Block =
  BlockHash :: hash
  BlockParentHash :: hash
  BlockNumber :: int

definition NumberU64 :: "Block \<Rightarrow> u64" where
  "NumberU64 b = Uint64 (BlockNumber b)"

record RollupHeader =
  CompressionL1Head :: hash
  OtherRollupFields :: nat

record Rollup =
  Header :: RollupHeader
  Batches :: "Batch list"
  Blocks :: "hash \<rightharpoonup> Block"

record ExtRollup =
  Header :: RollupHeader
  BatchPayloads :: bytes
  CalldataRollupHeader :: bytes

record CalldataRollupHeader =
  FirstBatchSequence :: int
  FirstCanonBatchHeight :: int
  FirstCanonParentHash :: hash
  StartTime :: u64
  BatchTimeDeltas :: "bytes list"
  ReOrgs :: "bytes list option"
  L1HeightDeltas :: "bytes list"
  Coinbase :: address
  BaseFee :: int
  GasLimit :: u64

text \<open>\<open>ReOrgs = None\<close> is the nil slice.\<close>

record batchFromRollup =
  transactions :: "L2Tx list"
  seqNo :: int
  height :: int
  txHash :: hash
  time :: u64
  l1Proof :: hash
  coinbase :: address
  baseFee :: int
  gasLimit :: u64
  header :: "BatchHeader option"

record BatchExecutionContext =
  BlockPtr :: hash
  ParentPtr :: hash
  Transactions :: "L2Tx list"
  AtTime :: u64
  Creator :: address
  ChainConfig :: nat
  SequencerNo :: int
  BaseFee :: int

record ComputedBatch =
  Batch :: Batch
  Receipts :: receipts

subsection \<open>The collaborators of \<^verbatim>\<open>RollupCompression\<close>\<close>

text \<open>
  The struct \<^verbatim>\<open>RollupCompression\<close> holds its collaborators as interfaces; their
  implementations are parameters here. \<open>'s\<close> is the state behind them (the database of the
  storage, the state database of the executor, the batch registry). Reads are functions of
  the state, writes return the new state or an error. The functions of go-ethereum that
  the code calls (\<^verbatim>\<open>rlp\<close>, \<^verbatim>\<open>types.DeriveSha\<close>, \<^verbatim>\<open>types.EmptyRootHash\<close>), the hash of a
  batch header and the constant \<^verbatim>\<open>common.L2GenesisSeqNo\<close> are parameters as well.
\<close>

record 's RollupCompression =
  Encrypt :: "bytes \<Rightarrow> error + bytes"
  Decrypt :: "bytes \<Rightarrow> error + bytes"
  CompressRollup :: "bytes \<Rightarrow> error + bytes"
  Decompress :: "bytes \<Rightarrow> error + bytes"
  OnBatchExecuted :: "'s \<Rightarrow> Batch \<Rightarrow> 's"
  CreateGenesisState :: "'s \<Rightarrow> hash \<Rightarrow> u64 \<Rightarrow> address \<Rightarrow> int \<Rightarrow> error + Batch \<times> 's"
  ComputeBatch :: "'s \<Rightarrow> BatchExecutionContext \<Rightarrow> bool \<Rightarrow> error + ComputedBatch"
  Commit :: "'s \<Rightarrow> ComputedBatch \<Rightarrow> bool \<Rightarrow> error + 's"
  FetchBlock :: "'s \<Rightarrow> hash \<Rightarrow> error + Block"
  FetchBatch :: "'s \<Rightarrow> hash \<Rightarrow> error + Batch"
  FetchBatchBySeqNo :: "'s \<Rightarrow> u64 \<Rightarrow> error + Batch"
  FetchNonCanonicalBatchesBetween :: "'s \<Rightarrow> u64 \<Rightarrow> u64 \<Rightarrow> error + Batch list"
  StoreBatch :: "'s \<Rightarrow> Batch \<Rightarrow> error + 's"
  StoreExecutedBatch :: "'s \<Rightarrow> Batch \<Rightarrow> receipts \<Rightarrow> error + 's"
  chainConfig :: nat
  EncodeBatchHeader :: "BatchHeader \<Rightarrow> error + bytes"
  DecodeBatchHeader :: "bytes \<Rightarrow> error + BatchHeader"
  EncodeCalldataHeader :: "CalldataRollupHeader \<Rightarrow> error + bytes"
  DecodeCalldataHeader :: "bytes \<Rightarrow> error + CalldataRollupHeader"
  EncodeTransactions :: "L2Tx list list \<Rightarrow> error + bytes"
  DecodeTransactions :: "bytes \<Rightarrow> error + L2Tx list list"
  HeaderHash :: "BatchHeader \<Rightarrow> hash"
  DeriveSha :: "L2Tx list \<Rightarrow> hash"
  EmptyRootHash :: hash
  L2GenesisSeqNo :: u64

definition Hash :: "'s RollupCompression \<Rightarrow> Batch \<Rightarrow> hash" where
  "Hash rc b = HeaderHash rc (Batch.Header b)"

subsection \<open>\<^verbatim>\<open>executeAndSaveIncompleteBatches\<close>\<close>

definition computeBatch ::
  "'s RollupCompression \<Rightarrow> 's \<Rightarrow> hash \<Rightarrow> hash \<Rightarrow> L2Tx list \<Rightarrow> u64 \<Rightarrow> int \<Rightarrow> address \<Rightarrow> int
     \<Rightarrow> error + ComputedBatch" where
  "computeBatch rc s blockPtr parentPtr txs atTime sequencerNo cb bf =
     ComputeBatch rc s
       \<lparr>BlockPtr = blockPtr, ParentPtr = parentPtr,
        BatchExecutionContext.Transactions = txs, AtTime = atTime, Creator = cb,
        ChainConfig = chainConfig rc, SequencerNo = sequencerNo,
        BatchExecutionContext.BaseFee = bf\<rparr> False"

text \<open>
  One iteration of the loop over \<^verbatim>\<open>incompleteBatches\<close>: the new state, and either the
  error the function returns with or the \<^verbatim>\<open>parentHash\<close> of the next iteration.
\<close>

definition saveIncompleteBatch ::
  "'s RollupCompression \<Rightarrow> CalldataRollupHeader \<Rightarrow> batchFromRollup \<Rightarrow> hash \<Rightarrow> 's
     \<Rightarrow> 's \<times> (error + hash)" where
  "saveIncompleteBatch rc hdr ib parentHash s =
     (case FetchBatchBySeqNo rc s (Uint64 (seqNo ib)) of
        Inr b \<Rightarrow> (s, Inr (if header ib = None then Hash rc b else parentHash))
      | Inl err \<Rightarrow>
          if \<not> errorsIs err ErrNotFound then (s, Inl err)
          else
            (case header ib of
               Some h \<Rightarrow>
                 (case StoreBatch rc s \<lparr>Batch.Header = h, Transactions = transactions ib\<rparr> of
                    Inl e \<Rightarrow> (s, Inl e)
                  | Inr s1 \<Rightarrow> (s1, Inr parentHash))
             | None \<Rightarrow>
                 if Uint64 (seqNo ib) = L2GenesisSeqNo rc then
                   (case CreateGenesisState rc s (l1Proof ib) (time ib)
                           (CalldataRollupHeader.Coinbase hdr) (CalldataRollupHeader.BaseFee hdr) of
                      Inl e \<Rightarrow> (s, Inl e)
                    | Inr (genBatch, s1) \<Rightarrow>
                        (case StoreBatch rc s1 genBatch of
                           Inl e \<Rightarrow> (s1, Inl e)
                         | Inr s2 \<Rightarrow>
                             (case StoreExecutedBatch rc s2 genBatch [] of
                                Inl e \<Rightarrow> (s2, Inl e)
                              | Inr s3 \<Rightarrow> (OnBatchExecuted rc s3 genBatch, Inr (Hash rc genBatch)))))
                 else
                   (case computeBatch rc s (l1Proof ib) parentHash (transactions ib) (time ib)
                           (seqNo ib) (coinbase ib) (baseFee ib) of
                      Inl e \<Rightarrow> (s, Inl e)
                    | Inr computedBatch \<Rightarrow>
                        (case Commit rc s computedBatch True of
                           Inl e \<Rightarrow> (s, Inl (ErrCause 0 e))
                         | Inr s1 \<Rightarrow>
                             (case StoreBatch rc s1 (Batch computedBatch) of
                                Inl e \<Rightarrow> (s1, Inl e)
                              | Inr s2 \<Rightarrow>
                                  (case StoreExecutedBatch rc s2 (Batch computedBatch)
                                          (Receipts computedBatch) of
                                     Inl e \<Rightarrow> (s2, Inl e)
                                   | Inr s3 \<Rightarrow>
                                       (OnBatchExecuted rc s3 (Batch computedBatch),
                                        Inr (Hash rc (Batch computedBatch)))))))))"

text \<open>
  The loop over \<^verbatim>\<open>incompleteBatches\<close>, in the order of the slice; its state is the state
  of the collaborators and the variable \<^verbatim>\<open>parentHash\<close>, which it returns at the end.
\<close>

fun saveLoop ::
  "'s RollupCompression \<Rightarrow> CalldataRollupHeader \<Rightarrow> batchFromRollup list \<Rightarrow> hash \<Rightarrow> 's
     \<Rightarrow> 's \<times> (error + hash)" where
  "saveLoop rc hdr [] parentHash s = (s, Inr parentHash)"
| "saveLoop rc hdr (ib # ibs) parentHash s =
     (case saveIncompleteBatch rc hdr ib parentHash s of
        (s', Inl err) \<Rightarrow> (s', Inl err)
      | (s', Inr parentHash') \<Rightarrow> saveLoop rc hdr ibs parentHash' s')"

definition executeAndSaveIncompleteBatches ::
  "'s RollupCompression \<Rightarrow> CalldataRollupHeader \<Rightarrow> batchFromRollup list \<Rightarrow> 's
     \<Rightarrow> 's \<times> error option" where
  "executeAndSaveIncompleteBatches rc hdr incompleteBatches s =
     (let parentHash = FirstCanonParentHash hdr;
          missing =
            (if Uint64 (FirstBatchSequence hdr) \<noteq> L2GenesisSeqNo rc then
               (case FetchBatch rc s parentHash of Inl err \<Rightarrow> Some err | Inr b \<Rightarrow> None)
             else None)
      in case missing of
           Some err \<Rightarrow> (s, Some err)
         | None \<Rightarrow>
             (case saveLoop rc hdr incompleteBatches parentHash s of
                (s', Inl err) \<Rightarrow> (s', Some err)
              | (s', Inr p) \<Rightarrow> (s', None)))"

subsection \<open>\<^verbatim>\<open>createIncompleteBatches\<close> and its helpers\<close>

text \<open>
  The loop of \<^verbatim>\<open>calculateL1HeightsFromDeltas\<close> over the indices of
  \<^verbatim>\<open>transactionsPerBatch\<close>; \<open>value\<close> is an \<^verbatim>\<open>int64\<close>, negative when its sign bit is set.
\<close>

fun heightsLoop ::
  "CalldataRollupHeader \<Rightarrow> nat \<Rightarrow> L2Tx list list \<Rightarrow> u64 \<Rightarrow> u64 list \<Rightarrow> error + u64 list" where
  "heightsLoop hdr currentBatchIdx [] prevHeight l1Heights = Inr l1Heights"
| "heightsLoop hdr currentBatchIdx (t # ts) prevHeight l1Heights =
     (if currentBatchIdx > 0 then
        (case index (L1HeightDeltas hdr) currentBatchIdx of
           Inl e \<Rightarrow> Inl e
         | Inr buf \<Rightarrow>
             (case GobDecode buf of
                Inl e \<Rightarrow> Inl e
              | Inr l1Delta \<Rightarrow>
                  (let v = Int64 l1Delta + prevHeight in
                   if sint v < 0 then Inl Crit
                   else heightsLoop hdr (currentBatchIdx + 1) ts v (l1Heights @ [v]))))
      else heightsLoop hdr (currentBatchIdx + 1) ts prevHeight l1Heights)"

definition calculateL1HeightsFromDeltas ::
  "CalldataRollupHeader \<Rightarrow> L2Tx list list \<Rightarrow> error + u64 list" where
  "calculateL1HeightsFromDeltas hdr transactionsPerBatch =
     (case index (L1HeightDeltas hdr) 0 of
        Inl e \<Rightarrow> Inl e
      | Inr buf \<Rightarrow>
          (case GobDecode buf of
             Inl e \<Rightarrow> Inl e
           | Inr referenceHeight \<Rightarrow>
               heightsLoop hdr 0 transactionsPerBatch (Uint64 referenceHeight)
                 [Uint64 referenceHeight]))"

definition slicesMin :: "u64 list \<Rightarrow> error + u64" where
  "slicesMin xs = (case xs of [] \<Rightarrow> Inl Panic | x # rest \<Rightarrow> Inr (fold min rest x))"

text \<open>
  \<^verbatim>\<open>calcL1AncestorsOfHeight\<close> recurses through the parent pointers of the stored blocks;
  nothing in the code bounds the recursion, so the result is \<open>None\<close> when it does not return.
  The map \<^verbatim>\<open>path\<close> is filled in place; the model returns it.
\<close>

partial_function (option) calcL1AncestorsOfHeight ::
  "'s RollupCompression \<Rightarrow> 's \<Rightarrow> int \<Rightarrow> Block \<Rightarrow> (u64 \<rightharpoonup> Block)
     \<Rightarrow> (error + (u64 \<rightharpoonup> Block)) option" where
  "calcL1AncestorsOfHeight rc s fromHeight toBlock path =
     (if NumberU64 toBlock = Uint64 fromHeight
      then Some (Inr (path(NumberU64 toBlock \<mapsto> toBlock)))
      else
        (case FetchBlock rc s (BlockParentHash toBlock) of
           Inl err \<Rightarrow> Some (Inl err)
         | Inr p \<Rightarrow>
             calcL1AncestorsOfHeight rc s fromHeight p (path(NumberU64 toBlock \<mapsto> toBlock))))"

definition reorgHeaderAt ::
  "'s RollupCompression \<Rightarrow> CalldataRollupHeader \<Rightarrow> nat \<Rightarrow> error + BatchHeader option" where
  "reorgHeaderAt rc hdr currentBatchIdx =
     (case ReOrgs hdr of
        None \<Rightarrow> Inr None
      | Some rs \<Rightarrow>
          if length rs > 0 then
            (case index rs currentBatchIdx of
               Inl e \<Rightarrow> Inl e
             | Inr encHeader \<Rightarrow>
                 if length encHeader > 0 then
                   (case DecodeBatchHeader rc encHeader of
                      Inl e \<Rightarrow> Inl e
                    | Inr h \<Rightarrow> Inr (Some h))
                 else Inr None)
          else Inr None)"

text \<open>
  One iteration of the loop of \<^verbatim>\<open>createIncompleteBatches\<close>: the batch, and the new
  \<^verbatim>\<open>currentHeight\<close> and \<^verbatim>\<open>currentTime\<close> (both \<^verbatim>\<open>int64\<close>).
\<close>

definition decompressBatch ::
  "'s RollupCompression \<Rightarrow> CalldataRollupHeader \<Rightarrow> u64 list \<Rightarrow> (u64 \<rightharpoonup> Block) \<Rightarrow> nat
     \<Rightarrow> L2Tx list \<Rightarrow> i64 \<Rightarrow> i64 \<Rightarrow> error + batchFromRollup \<times> i64 \<times> i64" where
  "decompressBatch rc hdr l1Heights l1BlocksAtHeight currentBatchIdx batchTransactions
       currentHeight currentTime =
     (case index l1Heights currentBatchIdx of
        Inl e \<Rightarrow> Inl e
      | Inr h \<Rightarrow>
     (case l1BlocksAtHeight h of
        None \<Rightarrow> Inl ErrL1BlockNotRetrieved
      | Some block \<Rightarrow>
     (case index (BatchTimeDeltas hdr) currentBatchIdx of
        Inl e \<Rightarrow> Inl e
      | Inr buf \<Rightarrow>
     (case GobDecode buf of
        Inl e \<Rightarrow> Inl e
      | Inr timeDelta \<Rightarrow>
     (case reorgHeaderAt rc hdr currentBatchIdx of
        Inl e \<Rightarrow> Inl e
      | Inr fullReorgedHeader \<Rightarrow>
          (let currentTime' = currentTime + Int64 timeDelta;
               currentSeqNo = NewInt (Int64 (FirstBatchSequence hdr) + of_nat currentBatchIdx);
               currentHeight' =
                 (if fullReorgedHeader = None then currentHeight + 1 else currentHeight);
               txHash' =
                 (if length batchTransactions = 0 then EmptyRootHash rc
                  else DeriveSha rc batchTransactions)
           in Inr (\<lparr>transactions = batchTransactions, seqNo = currentSeqNo,
                     height = NewInt currentHeight', txHash = txHash', time = currentTime',
                     l1Proof = BlockHash block, coinbase = CalldataRollupHeader.Coinbase hdr,
                     baseFee = CalldataRollupHeader.BaseFee hdr,
                     gasLimit = CalldataRollupHeader.GasLimit hdr,
                     header = fullReorgedHeader\<rparr>,
                   currentHeight', currentTime')))))))"

fun batchesLoop ::
  "'s RollupCompression \<Rightarrow> CalldataRollupHeader \<Rightarrow> u64 list \<Rightarrow> (u64 \<rightharpoonup> Block) \<Rightarrow> nat
     \<Rightarrow> L2Tx list list \<Rightarrow> i64 \<Rightarrow> i64 \<Rightarrow> error + batchFromRollup list" where
  "batchesLoop rc hdr l1Heights l1BlocksAtHeight currentBatchIdx [] currentHeight currentTime =
     Inr []"
| "batchesLoop rc hdr l1Heights l1BlocksAtHeight currentBatchIdx (txs # rest) currentHeight
       currentTime =
     (case decompressBatch rc hdr l1Heights l1BlocksAtHeight currentBatchIdx txs currentHeight
             currentTime of
        Inl e \<Rightarrow> Inl e
      | Inr (b, currentHeight', currentTime') \<Rightarrow>
          (case batchesLoop rc hdr l1Heights l1BlocksAtHeight (currentBatchIdx + 1) rest
                  currentHeight' currentTime' of
             Inl e \<Rightarrow> Inl e
           | Inr bs \<Rightarrow> Inr (b # bs)))"

definition createIncompleteBatches ::
  "'s RollupCompression \<Rightarrow> 's \<Rightarrow> CalldataRollupHeader \<Rightarrow> L2Tx list list \<Rightarrow> hash
     \<Rightarrow> (error + batchFromRollup list) option" where
  "createIncompleteBatches rc s hdr transactionsPerBatch compressionL1Head =
     (case FetchBlock rc s compressionL1Head of
        Inl err \<Rightarrow> Some (Inl (ErrCause 1 err))
      | Inr rollupL1Block \<Rightarrow>
     (case calculateL1HeightsFromDeltas hdr transactionsPerBatch of
        Inl e \<Rightarrow> Some (Inl e)
      | Inr l1Heights \<Rightarrow>
     (case slicesMin l1Heights of
        Inl e \<Rightarrow> Some (Inl e)
      | Inr m \<Rightarrow>
     (case calcL1AncestorsOfHeight rc s (NewInt m) rollupL1Block Map.empty of
        None \<Rightarrow> None
      | Some (Inl e) \<Rightarrow> Some (Inl e)
      | Some (Inr l1BlocksAtHeight) \<Rightarrow>
          Some (batchesLoop rc hdr l1Heights l1BlocksAtHeight 0 transactionsPerBatch
                  (Int64 (FirstCanonBatchHeight hdr) - 1) (StartTime hdr))))))"

subsection \<open>\<^verbatim>\<open>createRollupHeader\<close>\<close>

text \<open>The map \<^verbatim>\<open>reorgMap\<close>, filled from the non-canonical batches of the storage.\<close>

definition reorgMap :: "Batch list \<Rightarrow> u64 \<Rightarrow> bool" where
  "reorgMap reorgedBatches = fold (\<lambda>batch m. m(Uint64 (SeqNo batch) := True)) reorgedBatches (\<lambda>k. False)"

text \<open>
  The loop over \<^verbatim>\<open>batches\<close>: it fills \<^verbatim>\<open>reorgs\<close>, \<^verbatim>\<open>deltaTimes\<close> and \<^verbatim>\<open>l1HeightDeltas\<close>.
  A block missing from \<^verbatim>\<open>rollup.Blocks\<close> is a nil pointer, and \<^verbatim>\<open>block.Number()\<close> panics;
  so does \<^verbatim>\<open>prevL1Height.Int64()\<close> on the nil \<^verbatim>\<open>prevL1Height\<close>.
\<close>

fun compressLoop ::
  "(u64 \<Rightarrow> bool) \<Rightarrow> (hash \<rightharpoonup> Block) \<Rightarrow> nat \<Rightarrow> Batch list \<Rightarrow> u64 \<Rightarrow> int option
     \<Rightarrow> error + (BatchHeader option list \<times> int list \<times> int list)" where
  "compressLoop rm blocks i [] prev prevL1Height = Inr ([], [], [])"
| "compressLoop rm blocks i (batch # rest) prev prevL1Height =
     (let reorg = (if rm (Uint64 (SeqNo batch)) then Some (Batch.Header batch) else None);
          deltaTime = NewInt (Time (Batch.Header batch) - prev)
      in case blocks (L1Proof (Batch.Header batch)) of
           None \<Rightarrow> Inl Panic
         | Some block \<Rightarrow>
             (case (if i = 0 then Inr (BlockNumber block)
                    else (case prevL1Height of
                            None \<Rightarrow> Inl Panic
                          | Some p \<Rightarrow> Inr (NewInt (Int64 (BlockNumber block) - Int64 p)))) of
                Inl e \<Rightarrow> Inl e
              | Inr l1HeightDelta \<Rightarrow>
                  (case compressLoop rm blocks (i + 1) rest (Time (Batch.Header batch))
                          (Some (BlockNumber block)) of
                     Inl e \<Rightarrow> Inl e
                   | Inr (reorgs, deltaTimes, l1HeightDeltas) \<Rightarrow>
                       Inr (reorg # reorgs, deltaTime # deltaTimes,
                            l1HeightDelta # l1HeightDeltas))))"

fun gobEncodeAll :: "int list \<Rightarrow> error + bytes list" where
  "gobEncodeAll [] = Inr []"
| "gobEncodeAll (delta # rest) =
     (case GobEncode delta of
        Inl e \<Rightarrow> Inl e
      | Inr v \<Rightarrow> (case gobEncodeAll rest of Inl e \<Rightarrow> Inl e | Inr vs \<Rightarrow> Inr (v # vs)))"

fun transformToByteArray ::
  "'s RollupCompression \<Rightarrow> BatchHeader option list \<Rightarrow> error + bytes list" where
  "transformToByteArray rc [] = Inr []"
| "transformToByteArray rc (reorg # rest) =
     (case (case reorg of Some h \<Rightarrow> EncodeBatchHeader rc h | None \<Rightarrow> Inr []) of
        Inl e \<Rightarrow> Inl e
      | Inr enc \<Rightarrow>
          (case transformToByteArray rc rest of Inl e \<Rightarrow> Inl e | Inr encs \<Rightarrow> Inr (enc # encs)))"

text \<open>The index of the first nil entry of \<^verbatim>\<open>reorgs\<close>, if there is one.\<close>

fun firstCanonIdx :: "BatchHeader option list \<Rightarrow> nat \<Rightarrow> nat option" where
  "firstCanonIdx [] i = None"
| "firstCanonIdx (reorg # rest) i = (if reorg = None then Some i else firstCanonIdx rest (i + 1))"

definition createRollupHeader ::
  "'s RollupCompression \<Rightarrow> 's \<Rightarrow> Rollup \<Rightarrow> error + CalldataRollupHeader" where
  "createRollupHeader rc s rollup =
     (let batches = Batches rollup in
      if batches = [] then Inl Panic
      else
        (let startTime = Time (Batch.Header (batches ! 0)) in
     (case FetchNonCanonicalBatchesBetween rc s (Uint64 (SeqNo (batches ! 0)))
             (Uint64 (SeqNo (batches ! (length batches - 1)))) of
        Inl err \<Rightarrow> Inl err
      | Inr reorgedBatches \<Rightarrow>
     (case compressLoop (reorgMap reorgedBatches) (Blocks rollup) 0 batches startTime None of
        Inl e \<Rightarrow> Inl e
      | Inr (reorgs, deltaTimes, l1HeightDeltas) \<Rightarrow>
     (case gobEncodeAll l1HeightDeltas of
        Inl e \<Rightarrow> Inl e
      | Inr l1DeltasBA \<Rightarrow>
     (case gobEncodeAll deltaTimes of
        Inl e \<Rightarrow> Inl e
      | Inr timeDeltasBA \<Rightarrow>
     (case transformToByteArray rc reorgs of
        Inl e \<Rightarrow> Inl e
      | Inr reorgsBA \<Rightarrow>
          (let firstCanon = (case firstCanonIdx reorgs 0 of None \<Rightarrow> batches ! 0 | Some i \<Rightarrow> batches ! i)
           in Inr \<lparr>FirstBatchSequence = SeqNo (batches ! 0),
                   FirstCanonBatchHeight = Number (Batch.Header firstCanon),
                   FirstCanonParentHash = ParentHash (Batch.Header firstCanon),
                   StartTime = startTime,
                   BatchTimeDeltas = timeDeltasBA,
                   ReOrgs = (if length reorgedBatches = 0 then None else Some reorgsBA),
                   L1HeightDeltas = l1DeltasBA,
                   CalldataRollupHeader.Coinbase = BatchHeader.Coinbase (Batch.Header (batches ! 0)),
                   CalldataRollupHeader.BaseFee = BatchHeader.BaseFee (Batch.Header (batches ! 0)),
                   CalldataRollupHeader.GasLimit = BatchHeader.GasLimit (Batch.Header (batches ! 0))\<rparr>))))))))"

subsection \<open>\<^verbatim>\<open>CreateExtRollup\<close> and \<^verbatim>\<open>ProcessExtRollup\<close>\<close>

definition serialiseCompressAndEncrypt ::
  "'s RollupCompression \<Rightarrow> ('a \<Rightarrow> error + bytes) \<Rightarrow> 'a \<Rightarrow> error + bytes" where
  "serialiseCompressAndEncrypt rc encode obj =
     (case encode obj of
        Inl e \<Rightarrow> Inl e
      | Inr serialised \<Rightarrow>
          (case CompressRollup rc serialised of
             Inl e \<Rightarrow> Inl e
           | Inr compressed \<Rightarrow> Encrypt rc compressed))"

definition decryptDecompressAndDeserialise ::
  "'s RollupCompression \<Rightarrow> (bytes \<Rightarrow> error + 'a) \<Rightarrow> bytes \<Rightarrow> error + 'a" where
  "decryptDecompressAndDeserialise rc decode blob =
     (case Decrypt rc blob of
        Inl e \<Rightarrow> Inl e
      | Inr plaintextBlob \<Rightarrow>
          (case Decompress rc plaintextBlob of
             Inl e \<Rightarrow> Inl e
           | Inr serialisedBlob \<Rightarrow> decode serialisedBlob))"

definition CreateExtRollup :: "'s RollupCompression \<Rightarrow> 's \<Rightarrow> Rollup \<Rightarrow> error + ExtRollup" where
  "CreateExtRollup rc s r =
     (case createRollupHeader rc s r of
        Inl e \<Rightarrow> Inl e
      | Inr hdr \<Rightarrow>
     (case serialiseCompressAndEncrypt rc (EncodeCalldataHeader rc) hdr of
        Inl e \<Rightarrow> Inl e
      | Inr encryptedHeader \<Rightarrow>
     (case serialiseCompressAndEncrypt rc (EncodeTransactions rc)
             (map Batch.Transactions (Batches r)) of
        Inl e \<Rightarrow> Inl e
      | Inr encryptedTransactions \<Rightarrow>
          Inr \<lparr>ExtRollup.Header = Rollup.Header r, BatchPayloads = encryptedTransactions,
               CalldataRollupHeader = encryptedHeader\<rparr>)))"

text \<open>
  \<^verbatim>\<open>ProcessExtRollup\<close> returns the decoded header or an error, and leaves the state the
  batches stored so far have produced; \<open>None\<close> when the walk over the L1 ancestors does not
  return.
\<close>

definition ProcessExtRollup ::
  "'s RollupCompression \<Rightarrow> 's \<Rightarrow> ExtRollup \<Rightarrow> ('s \<times> (error + CalldataRollupHeader)) option" where
  "ProcessExtRollup rc s rollup =
     (case decryptDecompressAndDeserialise rc (DecodeTransactions rc) (BatchPayloads rollup) of
        Inl e \<Rightarrow> Some (s, Inl e)
      | Inr transactionsPerBatch \<Rightarrow>
     (case decryptDecompressAndDeserialise rc (DecodeCalldataHeader rc)
             (ExtRollup.CalldataRollupHeader rollup) of
        Inl e \<Rightarrow> Some (s, Inl e)
      | Inr calldataRollupHeader \<Rightarrow>
     (case createIncompleteBatches rc s calldataRollupHeader transactionsPerBatch
             (CompressionL1Head (ExtRollup.Header rollup)) of
        None \<Rightarrow> None
      | Some (Inl e) \<Rightarrow> Some (s, Inl e)
      | Some (Inr incompleteBatches) \<Rightarrow>
          (case executeAndSaveIncompleteBatches rc calldataRollupHeader incompleteBatches s of
             (s', Some e) \<Rightarrow> Some (s', Inl e)
           | (s', None) \<Rightarrow> Some (s', Inr calldataRollupHeader)))))"

subsection \<open>An in-memory node\<close>

text \<open>
  Modelled from the spec: the storage, the batch executor, the batch registry, the
  encryption and compression services and the codecs are not part of the sources at hand.
  The spec describes the storage as a key-value map over hashes and sequence numbers and
  the executor as a function of its context. \<open>Node\<close> is such a state: the L1 blocks, the
  batches written (the latest first, so that a later write wins), the batches the storage
  holds as non-canonical, the executed batches and the batches announced to the registry.
  The executor is a function of its context; it numbers a batch from its sequence number.
  The codecs are tables: every encoder returns a fixed byte string, every decoder the
  value given to \<open>memNode\<close>. They instantiate the collaborators at concrete inputs.
\<close>

record Node =
  nodeBlocks :: "Block list"
  nodeBatches :: "Batch list"
  nodeNonCanonical :: "Batch list"
  nodeExecuted :: "(Batch \<times> receipts) list"
  nodeRegistry :: "Batch list"

definition lookup :: "('a \<Rightarrow> bool) \<Rightarrow> 'a list \<Rightarrow> error + 'a" where
  "lookup P xs = (case find P xs of None \<Rightarrow> Inl ErrNotFound | Some x \<Rightarrow> Inr x)"

definition memHash :: "BatchHeader \<Rightarrow> hash" where
  "memHash h = 1000 + 10 * nat \<bar>SequencerOrderNo h\<bar> + Other h"

definition memComputeBatch :: "Node \<Rightarrow> BatchExecutionContext \<Rightarrow> bool \<Rightarrow> error + ComputedBatch" where
  "memComputeBatch n ctx failForEVMError =
     Inr \<lparr>Batch =
            \<lparr>Batch.Header =
               \<lparr>ParentHash = ParentPtr ctx, Number = SequencerNo ctx - 2,
                SequencerOrderNo = SequencerNo ctx, Time = AtTime ctx,
                L1Proof = BlockPtr ctx, BatchHeader.Coinbase = Creator ctx,
                BatchHeader.BaseFee = BatchExecutionContext.BaseFee ctx,
                BatchHeader.GasLimit = 0, Other = 0\<rparr>,
             Batch.Transactions = BatchExecutionContext.Transactions ctx\<rparr>,
          Receipts = []\<rparr>"

definition memCreateGenesisState ::
  "Node \<Rightarrow> hash \<Rightarrow> u64 \<Rightarrow> address \<Rightarrow> int \<Rightarrow> error + Batch \<times> Node" where
  "memCreateGenesisState n blkHash timeNow cb bf =
     Inr (\<lparr>Batch.Header =
             \<lparr>ParentHash = 0, Number = 0, SequencerOrderNo = 1, Time = timeNow,
              L1Proof = blkHash, BatchHeader.Coinbase = cb, BatchHeader.BaseFee = bf,
              BatchHeader.GasLimit = 0, Other = 0\<rparr>,
           Batch.Transactions = []\<rparr>, n)"

definition memNode ::
  "CalldataRollupHeader \<Rightarrow> L2Tx list list \<Rightarrow> BatchHeader \<Rightarrow> Node RollupCompression" where
  "memNode hdr0 txs0 reorg0 =
     \<lparr>Encrypt = Inr, Decrypt = Inr, CompressRollup = Inr, Decompress = Inr,
      OnBatchExecuted = (\<lambda>n b. n\<lparr>nodeRegistry := b # nodeRegistry n\<rparr>),
      CreateGenesisState = memCreateGenesisState,
      ComputeBatch = memComputeBatch,
      Commit = (\<lambda>n cb persist. Inr n),
      FetchBlock = (\<lambda>n h. lookup (\<lambda>b. BlockHash b = h) (nodeBlocks n)),
      FetchBatch = (\<lambda>n h. lookup (\<lambda>b. memHash (Batch.Header b) = h) (nodeBatches n)),
      FetchBatchBySeqNo = (\<lambda>n k. lookup (\<lambda>b. Uint64 (SeqNo b) = k) (nodeBatches n)),
      FetchNonCanonicalBatchesBetween =
        (\<lambda>n lo hi. Inr (filter (\<lambda>b. lo \<le> Uint64 (SeqNo b) \<and> Uint64 (SeqNo b) \<le> hi)
                          (nodeNonCanonical n))),
      StoreBatch = (\<lambda>n b. Inr (n\<lparr>nodeBatches := b # nodeBatches n\<rparr>)),
      StoreExecutedBatch = (\<lambda>n b r. Inr (n\<lparr>nodeExecuted := (b, r) # nodeExecuted n\<rparr>)),
      chainConfig = 0,
      EncodeBatchHeader = (\<lambda>h. Inr [7]),
      DecodeBatchHeader = (\<lambda>bs. Inr reorg0),
      EncodeCalldataHeader = (\<lambda>h. Inr [1]),
      DecodeCalldataHeader = (\<lambda>bs. Inr hdr0),
      EncodeTransactions = (\<lambda>txs. Inr [2]),
      DecodeTransactions = (\<lambda>bs. Inr txs0),
      HeaderHash = memHash,
      DeriveSha = (\<lambda>txs. 1 + sum_list txs),
      EmptyRootHash = 0,
      L2GenesisSeqNo = 1\<rparr>"

declare calcL1AncestorsOfHeight.simps [code]

subsection \<open>Concrete inputs\<close>

text \<open>
  A node that holds the L1 blocks 5, 6 and 7 (hashes 105, 106, 107) and the batch with
  sequence number 4, and headers of a rollup of two batches that follows that batch.
\<close>

definition batch4 :: Batch where
  "batch4 =
     \<lparr>Batch.Header =
        \<lparr>ParentHash = 1030, Number = 2, SequencerOrderNo = 4, Time = 990, L1Proof = 105,
         BatchHeader.Coinbase = 9, BatchHeader.BaseFee = 1, BatchHeader.GasLimit = 0, Other = 0\<rparr>,
      Batch.Transactions = []\<rparr>"

definition node1 :: Node where
  "node1 =
     \<lparr>nodeBlocks =
        [\<lparr>BlockHash = 107, BlockParentHash = 106, BlockNumber = 7\<rparr>,
         \<lparr>BlockHash = 106, BlockParentHash = 105, BlockNumber = 6\<rparr>,
         \<lparr>BlockHash = 105, BlockParentHash = 104, BlockNumber = 5\<rparr>],
      nodeBatches = [batch4], nodeNonCanonical = [], nodeExecuted = [], nodeRegistry = []\<rparr>"

definition header1 :: CalldataRollupHeader where
  "header1 =
     \<lparr>FirstBatchSequence = 5, FirstCanonBatchHeight = 3, FirstCanonParentHash = 1040,
      StartTime = 1000, BatchTimeDeltas = [[2], [2, 2]], ReOrgs = None,
      L1HeightDeltas = [[2, 6], [2, 1]], CalldataRollupHeader.Coinbase = 9,
      CalldataRollupHeader.BaseFee = 1, CalldataRollupHeader.GasLimit = 0\<rparr>"

definition txs1 :: "L2Tx list list" where
  "txs1 = [[], [4]]"

definition rc1 :: "Node RollupCompression" where
  "rc1 = memNode header1 txs1 (Batch.Header batch4)"

definition batches1 :: "batchFromRollup list" where
  "batches1 =
     [\<lparr>transactions = [], seqNo = 5, height = 3, txHash = 0, time = 1000, l1Proof = 106,
       coinbase = 9, baseFee = 1, gasLimit = 0, header = None\<rparr>,
      \<lparr>transactions = [4], seqNo = 6, height = 4, txHash = 5, time = 1002, l1Proof = 107,
       coinbase = 9, baseFee = 1, gasLimit = 0, header = None\<rparr>]"

text \<open>The same header with the time deltas 0 and -1.\<close>

definition batchesNeg :: "batchFromRollup list" where
  "batchesNeg =
     [\<lparr>transactions = [], seqNo = 5, height = 3, txHash = 0, time = 1000, l1Proof = 106,
       coinbase = 9, baseFee = 1, gasLimit = 0, header = None\<rparr>,
      \<lparr>transactions = [4], seqNo = 6, height = 4, txHash = 5, time = 999, l1Proof = 107,
       coinbase = 9, baseFee = 1, gasLimit = 0, header = None\<rparr>]"

text \<open>The same header with the first canonical height \<open>2 ^ 63 - 1\<close>.\<close>

definition batchesTop :: "batchFromRollup list" where
  "batchesTop =
     [\<lparr>transactions = [], seqNo = 5, height = 9223372036854775807, txHash = 0, time = 1000,
       l1Proof = 106, coinbase = 9, baseFee = 1, gasLimit = 0, header = None\<rparr>,
      \<lparr>transactions = [4], seqNo = 6, height = - 9223372036854775808, txHash = 5, time = 1002,
       l1Proof = 107, coinbase = 9, baseFee = 1, gasLimit = 0, header = None\<rparr>]"

text \<open>
  A rollup of three batches, the second of them carried as a reorg: the header, the reorg
  header it carries, and the batches reconstructed from it.
\<close>

definition reorgHeader6 :: BatchHeader where
  "reorgHeader6 =
     \<lparr>ParentHash = 1040, Number = 3, SequencerOrderNo = 6, Time = 1001, L1Proof = 106,
      BatchHeader.Coinbase = 9, BatchHeader.BaseFee = 1, BatchHeader.GasLimit = 0, Other = 1\<rparr>"

definition header2 :: CalldataRollupHeader where
  "header2 =
     \<lparr>FirstBatchSequence = 5, FirstCanonBatchHeight = 3, FirstCanonParentHash = 1040,
      StartTime = 1000, BatchTimeDeltas = [[2], [2, 1], [2, 1]], ReOrgs = Some [[], [7], []],
      L1HeightDeltas = [[2, 6], [2], [2, 1]], CalldataRollupHeader.Coinbase = 9,
      CalldataRollupHeader.BaseFee = 1, CalldataRollupHeader.GasLimit = 0\<rparr>"

definition txs2 :: "L2Tx list list" where
  "txs2 = [[], [8], [4]]"

definition rc2 :: "Node RollupCompression" where
  "rc2 = memNode header2 txs2 reorgHeader6"

definition ib5 :: batchFromRollup where
  "ib5 =
     \<lparr>transactions = [], seqNo = 5, height = 3, txHash = 0, time = 1000, l1Proof = 106,
      coinbase = 9, baseFee = 1, gasLimit = 0, header = None\<rparr>"

definition ib6 :: batchFromRollup where
  "ib6 =
     \<lparr>transactions = [8], seqNo = 6, height = 3, txHash = 9, time = 1001, l1Proof = 106,
      coinbase = 9, baseFee = 1, gasLimit = 0, header = Some reorgHeader6\<rparr>"

definition ib7 :: batchFromRollup where
  "ib7 =
     \<lparr>transactions = [4], seqNo = 7, height = 4, txHash = 5, time = 1002, l1Proof = 107,
      coinbase = 9, baseFee = 1, gasLimit = 0, header = None\<rparr>"

text \<open>The batches the node stores for them, and the states of the node on the way.\<close>

definition batch5 :: Batch where
  "batch5 =
     \<lparr>Batch.Header =
        \<lparr>ParentHash = 1040, Number = 3, SequencerOrderNo = 5, Time = 1000, L1Proof = 106,
         BatchHeader.Coinbase = 9, BatchHeader.BaseFee = 1, BatchHeader.GasLimit = 0, Other = 0\<rparr>,
      Batch.Transactions = []\<rparr>"

definition batch6 :: Batch where
  "batch6 = \<lparr>Batch.Header = reorgHeader6, Batch.Transactions = [8]\<rparr>"

definition batch7 :: Batch where
  "batch7 =
     \<lparr>Batch.Header =
        \<lparr>ParentHash = 1050, Number = 5, SequencerOrderNo = 7, Time = 1002, L1Proof = 107,
         BatchHeader.Coinbase = 9, BatchHeader.BaseFee = 1, BatchHeader.GasLimit = 0, Other = 0\<rparr>,
      Batch.Transactions = [4]\<rparr>"

definition node5 :: Node where
  "node5 = node1\<lparr>nodeBatches := [batch5, batch4], nodeExecuted := [(batch5, [])],
                  nodeRegistry := [batch5]\<rparr>"

definition node6 :: Node where
  "node6 = node5\<lparr>nodeBatches := [batch6, batch5, batch4]\<rparr>"

definition node7 :: Node where
  "node7 = node6\<lparr>nodeBatches := [batch7, batch6, batch5, batch4],
                  nodeExecuted := [(batch7, []), (batch5, [])],
                  nodeRegistry := [batch7, batch5]\<rparr>"

text \<open>
  The sequencer's side: its storage holds the batch with sequence number 6 as
  non-canonical; the rollups of the batches 5, 6, 7 and of the batches 5, 7 alone, with the
  L1 blocks of their proofs.
\<close>

definition sequencer1 :: Node where
  "sequencer1 = node7\<lparr>nodeNonCanonical := [batch6]\<rparr>"

definition blocks1 :: "hash \<rightharpoonup> Block" where
  "blocks1 =
     map_of
       [(107, \<lparr>BlockHash = 107, BlockParentHash = 106, BlockNumber = 7\<rparr>),
        (106, \<lparr>BlockHash = 106, BlockParentHash = 105, BlockNumber = 6\<rparr>),
        (105, \<lparr>BlockHash = 105, BlockParentHash = 104, BlockNumber = 5\<rparr>)]"

definition rollup2 :: Rollup where
  "rollup2 =
     \<lparr>Rollup.Header = \<lparr>CompressionL1Head = 107, OtherRollupFields = 0\<rparr>,
      Batches = [batch5, batch6, batch7], Blocks = blocks1\<rparr>"

definition rollup3 :: Rollup where
  "rollup3 =
     \<lparr>Rollup.Header = \<lparr>CompressionL1Head = 107, OtherRollupFields = 0\<rparr>,
      Batches = [batch5, batch7], Blocks = blocks1\<rparr>"

text \<open>
  The L1 blocks of \<open>node1\<close>, and a header whose batches refer to the L1 heights 5 and 7.
\<close>

definition block5 :: Block where
  "block5 = \<lparr>BlockHash = 105, BlockParentHash = 104, BlockNumber = 5\<rparr>"

definition block6 :: Block where
  "block6 = \<lparr>BlockHash = 106, BlockParentHash = 105, BlockNumber = 6\<rparr>"

definition block7 :: Block where
  "block7 = \<lparr>BlockHash = 107, BlockParentHash = 106, BlockNumber = 7\<rparr>"

definition header57 :: CalldataRollupHeader where
  "header57 = header1\<lparr>L1HeightDeltas := [[2, 5], [2, 2]]\<rparr>"

text \<open>
  The wire record of the rollup of the batches 5, 6, 7 under the table codecs, and a forged
  one: a single batch at sequence number 5 that carries a reorg header with the sequence
  number 99.
\<close>

definition ext2 :: ExtRollup where
  "ext2 =
     \<lparr>ExtRollup.Header = \<lparr>CompressionL1Head = 107, OtherRollupFields = 0\<rparr>,
      BatchPayloads = [2], CalldataRollupHeader = [1]\<rparr>"

definition reorgHeader99 :: BatchHeader where
  "reorgHeader99 = reorgHeader6\<lparr>SequencerOrderNo := 99\<rparr>"

definition header99 :: CalldataRollupHeader where
  "header99 =
     \<lparr>FirstBatchSequence = 5, FirstCanonBatchHeight = 3, FirstCanonParentHash = 1040,
      StartTime = 1000, BatchTimeDeltas = [[2]], ReOrgs = Some [[7]],
      L1HeightDeltas = [[2, 6]], CalldataRollupHeader.Coinbase = 9,
      CalldataRollupHeader.BaseFee = 1, CalldataRollupHeader.GasLimit = 0\<rparr>"

definition rc99 :: "Node RollupCompression" where
  "rc99 = memNode header99 [[8]] reorgHeader99"

definition batch99 :: Batch where
  "batch99 = \<lparr>Batch.Header = reorgHeader99, Batch.Transactions = [8]\<rparr>"

definition node99 :: Node where
  "node99 = node1\<lparr>nodeBatches := [batch99, batch4]\<rparr>"

definition node99' :: Node where
  "node99' = node1\<lparr>nodeBatches := [batch99, batch99, batch4]\<rparr>"

text \<open>A node that holds the L1 blocks of \<open>node1\<close> and no batch.\<close>

definition nodeL1 :: Node where
  "nodeL1 = node1\<lparr>nodeBatches := []\<rparr>"

text \<open>
  A rollup of two batches whose times are 0 and \<open>2 ^ 63\<close>, and the header the builder
  returns for it.
\<close>

definition batchT5 :: Batch where
  "batchT5 =
     \<lparr>Batch.Header =
        \<lparr>ParentHash = 1040, Number = 3, SequencerOrderNo = 5, Time = 0, L1Proof = 106,
         BatchHeader.Coinbase = 9, BatchHeader.BaseFee = 1, BatchHeader.GasLimit = 0, Other = 0\<rparr>,
      Batch.Transactions = []\<rparr>"

definition batchT6 :: Batch where
  "batchT6 =
     \<lparr>Batch.Header =
        \<lparr>ParentHash = 1050, Number = 4, SequencerOrderNo = 6, Time = 9223372036854775808,
         L1Proof = 107, BatchHeader.Coinbase = 9, BatchHeader.BaseFee = 1,
         BatchHeader.GasLimit = 0, Other = 0\<rparr>,
      Batch.Transactions = []\<rparr>"

definition rollupT :: Rollup where
  "rollupT =
     \<lparr>Rollup.Header = \<lparr>CompressionL1Head = 107, OtherRollupFields = 0\<rparr>,
      Batches = [batchT5, batchT6], Blocks = blocks1\<rparr>"

definition headerT :: CalldataRollupHeader where
  "headerT =
     \<lparr>FirstBatchSequence = 5, FirstCanonBatchHeight = 3, FirstCanonParentHash = 1040,
      StartTime = 0, BatchTimeDeltas = [[2], [3, 128, 0, 0, 0, 0, 0, 0, 0]], ReOrgs = None,
      L1HeightDeltas = [[2, 6], [2, 1]], CalldataRollupHeader.Coinbase = 9,
      CalldataRollupHeader.BaseFee = 1, CalldataRollupHeader.GasLimit = 0\<rparr>"

subsection \<open>What the claims about stored batches require of the collaborators\<close>

text \<open>
  \<open>retains rc s s'\<close>: every block lookup gives in \<open>s'\<close> what it gives in \<open>s\<close>, and every
  batch found in \<open>s\<close> by hash or by sequence number is still found in \<open>s'\<close>.
\<close>

definition retains :: "'s RollupCompression \<Rightarrow> 's \<Rightarrow> 's \<Rightarrow> bool" where
  "retains rc s s' \<longleftrightarrow>
     (\<forall>h. FetchBlock rc s' h = FetchBlock rc s h)
     \<and> (\<forall>h b. FetchBatch rc s h = Inr b \<longrightarrow> (\<exists>b'. FetchBatch rc s' h = Inr b'))
     \<and> (\<forall>k b. FetchBatchBySeqNo rc s k = Inr b \<longrightarrow> (\<exists>b'. FetchBatchBySeqNo rc s' k = Inr b'))"

text \<open>
  \<open>storesBySeqNo rc\<close>: a stored batch is found under its sequence number, no write loses
  a block or a batch, the genesis batch has the genesis sequence number and a computed
  batch the sequence number of its context.
\<close>

definition storesBySeqNo :: "'s RollupCompression \<Rightarrow> bool" where
  "storesBySeqNo rc \<longleftrightarrow>
     (\<forall>s b s'. StoreBatch rc s b = Inr s' \<longrightarrow>
        retains rc s s' \<and> (\<exists>b'. FetchBatchBySeqNo rc s' (Uint64 (SeqNo b)) = Inr b'))
     \<and> (\<forall>s b r s'. StoreExecutedBatch rc s b r = Inr s' \<longrightarrow> retains rc s s')
     \<and> (\<forall>s cb persist s'. Commit rc s cb persist = Inr s' \<longrightarrow> retains rc s s')
     \<and> (\<forall>s b. retains rc s (OnBatchExecuted rc s b))
     \<and> (\<forall>s l t cb bf g s'. CreateGenesisState rc s l t cb bf = Inr (g, s') \<longrightarrow>
          retains rc s s' \<and> Uint64 (SeqNo g) = L2GenesisSeqNo rc)
     \<and> (\<forall>s ctx f cb. ComputeBatch rc s ctx f = Inr cb \<longrightarrow>
          Uint64 (SeqNo (Batch cb)) = Uint64 (SequencerNo ctx))"

text \<open>
  \<open>keyValueStore rc\<close>: the storage is a map from sequence numbers to batches. A stored
  batch is what the lookup of its sequence number returns, the other sequence numbers are
  not touched, the other writes and the executor do not touch the batches, and the writes
  succeed.
\<close>

definition keyValueStore :: "'s RollupCompression \<Rightarrow> bool" where
  "keyValueStore rc \<longleftrightarrow>
     (\<forall>s b. \<exists>s'. StoreBatch rc s b = Inr s')
     \<and> (\<forall>s b s'. StoreBatch rc s b = Inr s' \<longrightarrow>
          FetchBatchBySeqNo rc s' (Uint64 (SeqNo b)) = Inr b
          \<and> (\<forall>k. k \<noteq> Uint64 (SeqNo b) \<longrightarrow> FetchBatchBySeqNo rc s' k = FetchBatchBySeqNo rc s k))
     \<and> (\<forall>s b r. \<exists>s'. StoreExecutedBatch rc s b r = Inr s')
     \<and> (\<forall>s b r s'. StoreExecutedBatch rc s b r = Inr s' \<longrightarrow>
          (\<forall>k. FetchBatchBySeqNo rc s' k = FetchBatchBySeqNo rc s k))
     \<and> (\<forall>s cb. \<exists>s'. Commit rc s cb True = Inr s')
     \<and> (\<forall>s cb s'. Commit rc s cb True = Inr s' \<longrightarrow>
          (\<forall>k. FetchBatchBySeqNo rc s' k = FetchBatchBySeqNo rc s k))
     \<and> (\<forall>s b k. FetchBatchBySeqNo rc (OnBatchExecuted rc s b) k = FetchBatchBySeqNo rc s k)
     \<and> (\<forall>s l t cb bf g s'. CreateGenesisState rc s l t cb bf = Inr (g, s') \<longrightarrow>
          (\<forall>k. FetchBatchBySeqNo rc s' k = FetchBatchBySeqNo rc s k))"


text \<open>
  \<open>ancestor rc s k b\<close>: the block reached from \<open>b\<close> by \<open>k\<close> lookups of the parent hash in the
  block store, or the error of the first lookup that fails.
\<close>

fun ancestor :: "'s RollupCompression \<Rightarrow> 's \<Rightarrow> nat \<Rightarrow> Block \<Rightarrow> error + Block" where
  "ancestor rc s 0 b = Inr b"
| "ancestor rc s (Suc k) b =
     (case FetchBlock rc s (BlockParentHash b) of
        Inl e \<Rightarrow> Inl e
      | Inr p \<Rightarrow> ancestor rc s k p)"

section \<open>Properties\<close>

subsection \<open>The loop of \<^verbatim>\<open>createIncompleteBatches\<close>\<close>

lemmas concrete_eval =
  createIncompleteBatches_def memNode_def lookup_def calculateL1HeightsFromDeltas_def index_def
  GobDecode_def Uint64_def Int64_def NewInt_def slicesMin_def calcL1AncestorsOfHeight.simps
  NumberU64_def decompressBatch_def reorgHeaderAt_def

lemma sint_word_of_int_64:
  "- (2 ^ 63) \<le> x \<Longrightarrow> x < 2 ^ 63 \<Longrightarrow> sint (word_of_int x :: 64 word) = x"
  by (simp add: sint_sbintrunc' signed_take_bit_int_eq_self)

lemma index_Inr: "index xs i = Inr x \<longleftrightarrow> i < length xs \<and> xs ! i = x"
  by (auto simp: index_def)

lemma decompressBatch_Inr:
  assumes "decompressBatch rc hdr hs m idx txs ch ct = Inr (b, ch', ct')"
  shows "\<exists>blk d. idx < length hs \<and> m (hs ! idx) = Some blk
           \<and> idx < length (BatchTimeDeltas hdr) \<and> GobDecode (BatchTimeDeltas hdr ! idx) = Inr d
           \<and> reorgHeaderAt rc hdr idx = Inr (header b)
           \<and> ct' = ct + Int64 d \<and> ch' = (if header b = None then ch + 1 else ch)
           \<and> time b = ct' \<and> height b = NewInt ch' \<and> transactions b = txs
           \<and> txHash b = (if txs = [] then EmptyRootHash rc else DeriveSha rc txs)
           \<and> seqNo b = NewInt (Int64 (FirstBatchSequence hdr) + of_nat idx)
           \<and> l1Proof b = BlockHash blk
           \<and> coinbase b = CalldataRollupHeader.Coinbase hdr
           \<and> baseFee b = CalldataRollupHeader.BaseFee hdr
           \<and> gasLimit b = CalldataRollupHeader.GasLimit hdr"
  using assms
  by (auto simp: decompressBatch_def index_Inr Let_def split: sum.splits option.splits if_splits)

lemma batchesLoop_Cons_Inr:
  assumes "batchesLoop rc hdr hs m idx (t # ts) ch ct = Inr bs"
  obtains b ch' ct' bs' where
    "decompressBatch rc hdr hs m idx t ch ct = Inr (b, ch', ct')"
    "batchesLoop rc hdr hs m (idx + 1) ts ch' ct' = Inr bs'"
    "bs = b # bs'"
  using assms by (auto split: sum.splits prod.splits)

lemma batchesLoop_length:
  "batchesLoop rc hdr hs m idx txs ch ct = Inr bs \<Longrightarrow> length bs = length txs"
  by (induction txs arbitrary: idx ch ct bs) (auto split: sum.splits prod.splits)

lemma batchesLoop_nth:
  "batchesLoop rc hdr hs m idx txs ch ct = Inr bs \<Longrightarrow> k < length txs \<Longrightarrow>
     \<exists>ch0 ct0 ch1 ct1.
        decompressBatch rc hdr hs m (idx + k) (txs ! k) ch0 ct0 = Inr (bs ! k, ch1, ct1)"
proof (induction txs arbitrary: idx ch ct bs k)
  case Nil
  then show ?case by simp
next
  case (Cons t ts)
  from Cons.prems(1) obtain b ch' ct' bs' where
    step: "decompressBatch rc hdr hs m idx t ch ct = Inr (b, ch', ct')" and
    rest: "batchesLoop rc hdr hs m (idx + 1) ts ch' ct' = Inr bs'" and
    bs: "bs = b # bs'"
    by (rule batchesLoop_Cons_Inr)
  show ?case
  proof (cases k)
    case 0
    with step bs show ?thesis by auto
  next
    case (Suc k')
    with Cons.prems(2) have "k' < length ts" by simp
    from Cons.IH [OF rest this] Suc bs show ?thesis by auto
  qed
qed

lemma batchesLoop_height:
  "batchesLoop rc hdr hs m idx txs ch ct = Inr bs \<Longrightarrow> k < length txs \<Longrightarrow>
     height (bs ! k) =
       NewInt (ch + of_nat (length (filter (\<lambda>b. header b = None) (take (Suc k) bs))))"
proof (induction txs arbitrary: idx ch ct bs k)
  case Nil
  then show ?case by simp
next
  case (Cons t ts)
  from Cons.prems(1) obtain b ch' ct' bs' where
    step: "decompressBatch rc hdr hs m idx t ch ct = Inr (b, ch', ct')" and
    rest: "batchesLoop rc hdr hs m (idx + 1) ts ch' ct' = Inr bs'" and
    bs: "bs = b # bs'"
    by (rule batchesLoop_Cons_Inr)
  from decompressBatch_Inr [OF step] have
    d: "ch' = (if header b = None then ch + 1 else ch)" "height b = NewInt ch'"
    by blast+
  show ?case
  proof (cases k)
    case 0
    then show ?thesis using d bs by simp
  next
    case (Suc k')
    with Cons.prems(2) have "k' < length ts" by simp
    from Cons.IH [OF rest this] Suc bs d show ?thesis by (simp add: add.assoc)
  qed
qed

lemma createIncompleteBatches_Inr:
  assumes "createIncompleteBatches rc s hdr txs head = Some (Inr bs)"
  obtains blk hs m mp where
    "FetchBlock rc s head = Inr blk"
    "calculateL1HeightsFromDeltas hdr txs = Inr hs"
    "slicesMin hs = Inr m"
    "calcL1AncestorsOfHeight rc s (NewInt m) blk Map.empty = Some (Inr mp)"
    "batchesLoop rc hdr hs mp 0 txs (Int64 (FirstCanonBatchHeight hdr) - 1) (StartTime hdr) = Inr bs"
  using assms
  by (auto simp: createIncompleteBatches_def split: sum.splits option.splits)

lemma heightsLoop_cong:
  "L1HeightDeltas hdr' = L1HeightDeltas hdr \<Longrightarrow>
     heightsLoop hdr' idx txs prev acc = heightsLoop hdr idx txs prev acc"
  by (induction hdr idx txs prev acc rule: heightsLoop.induct) (auto split: sum.splits simp: Let_def)

lemma heightsLoop_time_deltas [simp]:
  "heightsLoop (hdr\<lparr>BatchTimeDeltas := tds\<rparr>) idx txs prev acc = heightsLoop hdr idx txs prev acc"
  by (rule heightsLoop_cong) simp

lemma calculateL1HeightsFromDeltas_time_deltas [simp]:
  "calculateL1HeightsFromDeltas (hdr\<lparr>BatchTimeDeltas := tds\<rparr>) txs =
     calculateL1HeightsFromDeltas hdr txs"
  by (simp add: calculateL1HeightsFromDeltas_def split: sum.splits)

lemma reorgHeaderAt_time_deltas [simp]:
  "reorgHeaderAt rc (hdr\<lparr>BatchTimeDeltas := tds\<rparr>) idx = reorgHeaderAt rc hdr idx"
  by (simp add: reorgHeaderAt_def)

lemma reorgHeaderAt_None_iff:
  "reorgHeaderAt rc hdr k = Inr r \<Longrightarrow>
     (r = None) =
       (case ReOrgs hdr of None \<Rightarrow> True | Some rs \<Rightarrow> length rs = 0 \<or> length (rs ! k) = 0)"
  by (auto simp: reorgHeaderAt_def index_def split: option.splits if_splits sum.splits)

lemma batchesLoop_replace_time_deltas:
  assumes "batchesLoop rc hdr hs m idx txs ch ct = Inr bs"
    and "length ds = length txs"
    and "\<forall>i<length txs. idx + i < length tds \<and> GobDecode (tds ! (idx + i)) = Inr (ds ! i)"
  shows "\<exists>bs'. batchesLoop rc (hdr\<lparr>BatchTimeDeltas := tds\<rparr>) hs m idx txs ch ct2 = Inr bs'
           \<and> length bs' = length txs
           \<and> (\<forall>k<length txs. time (bs' ! k) = ct2 + word_of_int (sum_list (take (Suc k) ds)))"
  using assms
proof (induction txs arbitrary: idx ch ct ct2 bs ds)
  case Nil
  then show ?case by simp
next
  case (Cons t ts)
  from Cons.prems(1) obtain b ch' ct' bs' where
    step: "decompressBatch rc hdr hs m idx t ch ct = Inr (b, ch', ct')" and
    rest: "batchesLoop rc hdr hs m (idx + 1) ts ch' ct' = Inr bs'" and
    bs: "bs = b # bs'"
    by (rule batchesLoop_Cons_Inr)
  from Cons.prems(2) obtain d ds' where ds: "ds = d # ds'" "length ds' = length ts"
    by (cases ds) auto
  from Cons.prems(3) have d0: "idx < length tds" "GobDecode (tds ! idx) = Inr d"
    using ds by auto
  have rest_dec:
    "\<forall>i<length ts. idx + 1 + i < length tds \<and> GobDecode (tds ! (idx + 1 + i)) = Inr (ds' ! i)"
  proof (intro allI impI)
    fix i assume "i < length ts"
    then have "Suc i < length (t # ts)" by simp
    with Cons.prems(3) have "idx + Suc i < length tds \<and> GobDecode (tds ! (idx + Suc i)) = Inr (ds ! Suc i)"
      by blast
    then show "idx + 1 + i < length tds \<and> GobDecode (tds ! (idx + 1 + i)) = Inr (ds' ! i)"
      using ds by simp
  qed
  from decompressBatch_Inr [OF step] obtain blk where
    blk: "idx < length hs" "m (hs ! idx) = Some blk" "reorgHeaderAt rc hdr idx = Inr (header b)"
         "ch' = (if header b = None then ch + 1 else ch)"
    by blast
  obtain b2 where
    step2: "decompressBatch rc (hdr\<lparr>BatchTimeDeltas := tds\<rparr>) hs m idx t ch ct2
              = Inr (b2, ch', ct2 + Int64 d)"
      and time2: "time b2 = ct2 + Int64 d"
    using blk d0 by (simp add: decompressBatch_def index_def Let_def)
  from Cons.IH [OF rest ds(2) rest_dec, of "ct2 + Int64 d"] obtain bs2 where
    bs2: "batchesLoop rc (hdr\<lparr>BatchTimeDeltas := tds\<rparr>) hs m (idx + 1) ts ch' (ct2 + Int64 d) = Inr bs2"
         "length bs2 = length ts"
         "\<forall>k<length ts. time (bs2 ! k) = ct2 + Int64 d + word_of_int (sum_list (take (Suc k) ds'))"
    by blast
  have loop: "batchesLoop rc (hdr\<lparr>BatchTimeDeltas := tds\<rparr>) hs m idx (t # ts) ch ct2 = Inr (b2 # bs2)"
    using step2 bs2(1) by simp
  have times: "\<forall>k<length (t # ts). time ((b2 # bs2) ! k) = ct2 + word_of_int (sum_list (take (Suc k) ds))"
  proof (intro allI impI)
    fix k assume k: "k < length (t # ts)"
    show "time ((b2 # bs2) ! k) = ct2 + word_of_int (sum_list (take (Suc k) ds))"
    proof (cases k)
      case 0
      then show ?thesis using time2 ds by (simp add: Int64_def)
    next
      case (Suc k')
      with k have "k' < length ts" by simp
      with bs2(3) Suc ds show ?thesis by (simp add: Int64_def)
    qed
  qed
  from loop bs2(2) times show ?case by auto
qed

subsection \<open>Claims about the reconstruction\<close>

text \<open>
  C4 (as amended). A negative entry of \<^verbatim>\<open>BatchTimeDeltas\<close> is not rejected: the code has
  no check on the sign, it adds the decoded value to \<^verbatim>\<open>currentTime\<close>. If the reconstruction
  returns batches for a header, it also returns batches when the time deltas are replaced
  by the encodings of any integers \<open>ds\<close>, negative ones included, and the time of batch \<open>k\<close>
  is then the start time plus the sum of the deltas \<open>0..k\<close>, modulo \<open>2 ^ 64\<close>.
\<close>

theorem C4_negative_time_delta_accepted:
  assumes "createIncompleteBatches rc s hdr txs head = Some (Inr bs)"
    and "length ds = length txs"
    and "\<forall>i<length txs. i < length tds \<and> GobDecode (tds ! i) = Inr (ds ! i)"
  shows "\<exists>bs'. createIncompleteBatches rc s (hdr\<lparr>BatchTimeDeltas := tds\<rparr>) txs head = Some (Inr bs')
           \<and> length bs' = length txs
           \<and> (\<forall>k<length txs.
                 time (bs' ! k) = StartTime hdr + word_of_int (sum_list (take (Suc k) ds)))"
proof -
  from assms(1) obtain blk hs m mp where
    a: "FetchBlock rc s head = Inr blk"
       "calculateL1HeightsFromDeltas hdr txs = Inr hs"
       "slicesMin hs = Inr m"
       "calcL1AncestorsOfHeight rc s (NewInt m) blk Map.empty = Some (Inr mp)"
       "batchesLoop rc hdr hs mp 0 txs (Int64 (FirstCanonBatchHeight hdr) - 1) (StartTime hdr) = Inr bs"
    by (rule createIncompleteBatches_Inr)
  have hs: "calculateL1HeightsFromDeltas (hdr\<lparr>BatchTimeDeltas := tds\<rparr>) txs = Inr hs"
    using a(2) by simp
  from assms(3) have "\<forall>i<length txs. 0 + i < length tds \<and> GobDecode (tds ! (0 + i)) = Inr (ds ! i)"
    by simp
  from batchesLoop_replace_time_deltas [OF a(5) assms(2) this, of "StartTime hdr"]
  obtain bs' where
    b: "batchesLoop rc (hdr\<lparr>BatchTimeDeltas := tds\<rparr>) hs mp 0 txs
          (Int64 (FirstCanonBatchHeight hdr) - 1) (StartTime hdr) = Inr bs'"
       "length bs' = length txs"
       "\<forall>k<length txs. time (bs' ! k) = StartTime hdr + word_of_int (sum_list (take (Suc k) ds))"
    by blast
  have "createIncompleteBatches rc s (hdr\<lparr>BatchTimeDeltas := tds\<rparr>) txs head = Some (Inr bs')"
    using a(1,3,4) hs b(1) by (simp add: createIncompleteBatches_def)
  with b(2,3) show ?thesis by blast
qed

theorem C4_witness:
  "createIncompleteBatches rc1 node1 header1 txs1 107 = Some (Inr batches1)
   \<and> GobDecode [2] = Inr 0 \<and> GobDecode [3, 1] = Inr (- 1)
   \<and> (\<exists>bs'. createIncompleteBatches rc1 node1 (header1\<lparr>BatchTimeDeltas := [[2], [3, 1]]\<rparr>) txs1 107
                = Some (Inr bs')
            \<and> length bs' = 2 \<and> time (bs' ! 0) = 1000 \<and> time (bs' ! 1) = 999)"
proof -
  have h1: "createIncompleteBatches rc1 node1 header1 txs1 107 = Some (Inr batches1)"
    by (simp add: concrete_eval rc1_def node1_def header1_def txs1_def batches1_def)
  have h2: "length [0, - 1 :: int] = length txs1"
    by (simp add: txs1_def)
  have h3: "\<forall>i<length txs1. i < length [[2], [3, 1 :: byte]]
              \<and> GobDecode ([[2], [3, 1]] ! i) = Inr ([0, - 1] ! i)"
    by (simp add: txs1_def GobDecode_def less_Suc_eq)
  from C4_negative_time_delta_accepted [OF h1 h2 h3] obtain bs' where
    b: "createIncompleteBatches rc1 node1 (header1\<lparr>BatchTimeDeltas := [[2], [3, 1]]\<rparr>) txs1 107
          = Some (Inr bs')"
       "length bs' = length txs1"
       "\<forall>k<length txs1. time (bs' ! k) = StartTime header1 + word_of_int (sum_list (take (Suc k) [0, - 1]))"
    by blast
  from b(3) have "time (bs' ! 0) = 1000" "time (bs' ! 1) = 999"
    by (simp_all add: txs1_def header1_def)
  with b(1,2) h1 show ?thesis
    by (auto simp: txs1_def GobDecode_def)
qed

text \<open>
  C4 as stated fails: the header with the time deltas 0 and -1 is reconstructed, and the
  second batch gets the time 999.
\<close>

theorem C4_counterexample:
  "GobDecode (BatchTimeDeltas (header1\<lparr>BatchTimeDeltas := [[2], [3, 1]]\<rparr>) ! 1) = Inr (- 1)
   \<and> createIncompleteBatches rc1 node1 (header1\<lparr>BatchTimeDeltas := [[2], [3, 1]]\<rparr>) txs1 107
       = Some (Inr batchesNeg)"
  by (simp add: concrete_eval rc1_def node1_def header1_def txs1_def batchesNeg_def)

text \<open>
  C6. In the batches the reconstruction returns, the transaction root of a batch with no
  transactions is \<^verbatim>\<open>types.EmptyRootHash\<close>, and that of any other batch is
  \<^verbatim>\<open>types.DeriveSha\<close> of its transactions.
\<close>

theorem C6_tx_root:
  assumes "createIncompleteBatches rc s hdr txs head = Some (Inr bs)"
    and "k < length txs"
  shows "k < length bs \<and> transactions (bs ! k) = txs ! k
           \<and> txHash (bs ! k) =
               (if length (txs ! k) = 0 then EmptyRootHash rc else DeriveSha rc (txs ! k))"
proof -
  from assms(1) obtain blk hs m mp where
    loop: "batchesLoop rc hdr hs mp 0 txs (Int64 (FirstCanonBatchHeight hdr) - 1) (StartTime hdr) = Inr bs"
    by (rule createIncompleteBatches_Inr)
  from batchesLoop_nth [OF loop assms(2)] obtain ch0 ct0 ch1 ct1 where
    "decompressBatch rc hdr hs mp (0 + k) (txs ! k) ch0 ct0 = Inr (bs ! k, ch1, ct1)"
    by blast
  from decompressBatch_Inr [OF this] batchesLoop_length [OF loop] assms(2)
  show ?thesis by auto
qed

theorem C6_witness:
  "createIncompleteBatches rc1 node1 header1 txs1 107 = Some (Inr batches1)
   \<and> txHash (batches1 ! 0) = EmptyRootHash rc1
   \<and> txHash (batches1 ! 1) = DeriveSha rc1 [4]"
proof -
  have h1: "createIncompleteBatches rc1 node1 header1 txs1 107 = Some (Inr batches1)"
    by (simp add: concrete_eval rc1_def node1_def header1_def txs1_def batches1_def)
  have "(0::nat) < length txs1" "(1::nat) < length txs1"
    by (simp_all add: txs1_def)
  from C6_tx_root [OF h1 this(1)] C6_tx_root [OF h1 this(2)] h1
  show ?thesis by (simp add: txs1_def)
qed

text \<open>
  C7 (as amended). \<^verbatim>\<open>currentHeight\<close> is an \<^verbatim>\<open>int64\<close> that starts at
  \<^verbatim>\<open>FirstCanonBatchHeight.Int64() - 1\<close> and is incremented once for each canonical batch,
  that is, for each batch without a reorg header. A batch is canonical when \<^verbatim>\<open>ReOrgs\<close> is
  nil or empty or its entry is empty. In \<^verbatim>\<open>int64\<close> arithmetic the height of a canonical
  batch \<open>k\<close> is the first canonical height plus the number of canonical batches before \<open>k\<close>;
  a reorg batch has the height of its predecessor. When the first canonical height is at
  least \<open>- 2 ^ 63\<close> and its sum with the number of batches is at most \<open>2 ^ 63\<close>, the
  equation holds over the integers and the heights of the canonical batches increase
  strictly.
\<close>

theorem C7_heights:
  assumes "createIncompleteBatches rc s hdr txs head = Some (Inr bs)"
  shows "(\<forall>k<length bs.
            (header (bs ! k) = None) =
              (case ReOrgs hdr of None \<Rightarrow> True
               | Some rs \<Rightarrow> length rs = 0 \<or> length (rs ! k) = 0)
          \<and> (header (bs ! k) = None \<longrightarrow>
               height (bs ! k) =
                 sint (Int64 (FirstCanonBatchHeight hdr)
                       + of_nat (length (filter (\<lambda>b. header b = None) (take k bs)))))
          \<and> (header (bs ! k) \<noteq> None \<longrightarrow>
               height (bs ! k) =
                 (if k = 0 then sint (Int64 (FirstCanonBatchHeight hdr) - 1)
                  else height (bs ! (k - 1)))))
       \<and> (- (2 ^ 63) \<le> FirstCanonBatchHeight hdr
            \<and> FirstCanonBatchHeight hdr + int (length bs) \<le> 2 ^ 63 \<longrightarrow>
          (\<forall>j<length bs. header (bs ! j) = None \<longrightarrow>
             height (bs ! j) =
               FirstCanonBatchHeight hdr
                 + int (length (filter (\<lambda>b. header b = None) (take j bs)))
             \<and> (\<forall>i<j. header (bs ! i) = None \<longrightarrow> height (bs ! i) < height (bs ! j))))"
proof -
  let ?c = "\<lambda>k. length (filter (\<lambda>b. header b = None) (take k bs))"
  let ?h0 = "Int64 (FirstCanonBatchHeight hdr)"
  from assms obtain blk hs m mp where
    loop: "batchesLoop rc hdr hs mp 0 txs (?h0 - 1) (StartTime hdr) = Inr bs"
    by (rule createIncompleteBatches_Inr)
  have len: "length bs = length txs"
    using loop by (rule batchesLoop_length)
  have hgt: "height (bs ! k) = sint (?h0 - 1 + of_nat (?c (Suc k)))" if "k < length bs" for k
    using batchesLoop_height [OF loop] that len by (simp add: NewInt_def)
  have cSuc: "?c (Suc k) = ?c k + (if header (bs ! k) = None then 1 else 0)" if "k < length bs" for k
    using that by (simp add: take_Suc_conv_app_nth)
  have canon: "height (bs ! k) = sint (?h0 + of_nat (?c k))"
    if "k < length bs" "header (bs ! k) = None" for k
    using hgt [OF that(1)] cSuc [OF that(1)] that(2) by simp
  have reorg: "height (bs ! k) = (if k = 0 then sint (?h0 - 1) else height (bs ! (k - 1)))"
    if "k < length bs" "header (bs ! k) \<noteq> None" for k
  proof (cases k)
    case 0
    with hgt [OF that(1)] cSuc [OF that(1)] that(2) show ?thesis by auto
  next
    case (Suc k')
    with that(1) have "k' < length bs" by simp
    from hgt [OF this] hgt [OF that(1)] cSuc [OF that(1)] that(2) Suc show ?thesis by auto
  qed
  have flag: "(header (bs ! k) = None) =
                (case ReOrgs hdr of None \<Rightarrow> True | Some rs \<Rightarrow> length rs = 0 \<or> length (rs ! k) = 0)"
    if "k < length bs" for k
  proof -
    from that len have "k < length txs" by simp
    from batchesLoop_nth [OF loop this] obtain ch0 ct0 ch1 ct1 where
      "decompressBatch rc hdr hs mp (0 + k) (txs ! k) ch0 ct0 = Inr (bs ! k, ch1, ct1)"
      by blast
    from decompressBatch_Inr [OF this] have "reorgHeaderAt rc hdr k = Inr (header (bs ! k))"
      by auto
    then show ?thesis
      by (rule reorgHeaderAt_None_iff)
  qed
  have part1: "\<forall>k<length bs.
            (header (bs ! k) = None) =
              (case ReOrgs hdr of None \<Rightarrow> True
               | Some rs \<Rightarrow> length rs = 0 \<or> length (rs ! k) = 0)
          \<and> (header (bs ! k) = None \<longrightarrow> height (bs ! k) = sint (?h0 + of_nat (?c k)))
          \<and> (header (bs ! k) \<noteq> None \<longrightarrow>
               height (bs ! k) = (if k = 0 then sint (?h0 - 1) else height (bs ! (k - 1))))"
    using flag canon reorg by blast
  have part2: "\<forall>j<length bs. header (bs ! j) = None \<longrightarrow>
             height (bs ! j) = FirstCanonBatchHeight hdr + int (?c j)
             \<and> (\<forall>i<j. header (bs ! i) = None \<longrightarrow> height (bs ! i) < height (bs ! j))"
    if lo: "- (2 ^ 63) \<le> FirstCanonBatchHeight hdr"
      and hi: "FirstCanonBatchHeight hdr + int (length bs) \<le> 2 ^ 63"
  proof -
    have cle: "?c k \<le> k" for k
      by (rule order_trans [OF length_filter_le]) simp
    have exact: "height (bs ! k) = FirstCanonBatchHeight hdr + int (?c k)"
      if "k < length bs" "header (bs ! k) = None" for k
    proof -
      have "?h0 + of_nat (?c k) = (word_of_int (FirstCanonBatchHeight hdr + int (?c k)) :: 64 word)"
        by (simp add: Int64_def)
      moreover have "sint (word_of_int (FirstCanonBatchHeight hdr + int (?c k)) :: 64 word)
                       = FirstCanonBatchHeight hdr + int (?c k)"
        using lo hi cle [of k] that(1) by (intro sint_word_of_int_64) auto
      ultimately show ?thesis using canon [OF that] by simp
    qed
    have mono: "height (bs ! i) < height (bs ! j)"
      if "j < length bs" "i < j" "header (bs ! i) = None" "header (bs ! j) = None" for i j
    proof -
      from that have i: "i < length bs" by simp
      have "?c (Suc i) \<le> ?c j"
      proof -
        from that(2) have "take (Suc i) bs = take (Suc i) (take j bs)"
          by (simp add: min_def)
        then have "filter (\<lambda>b. header b = None) (take (Suc i) bs)
                     = filter (\<lambda>b. header b = None) (take (Suc i) (take j bs))"
          by simp
        also have "length \<dots> \<le> ?c j"
          by (metis append_take_drop_id filter_append le_add1 length_append)
        finally show ?thesis .
      qed
      with cSuc [OF i] that(3) have "?c i < ?c j" by simp
      with exact [OF i that(3)] exact [OF that(1) that(4)] show ?thesis by simp
    qed
    from exact mono show ?thesis by blast
  qed
  from part1 part2 show ?thesis by blast
qed

theorem C7_witness:
  "createIncompleteBatches rc1 node1 header1 txs1 107 = Some (Inr batches1)
   \<and> - (2 ^ 63) \<le> FirstCanonBatchHeight header1
   \<and> FirstCanonBatchHeight header1 + int (length batches1) \<le> 2 ^ 63
   \<and> header (batches1 ! 0) = None \<and> header (batches1 ! 1) = None
   \<and> height (batches1 ! 0) = FirstCanonBatchHeight header1
   \<and> height (batches1 ! 1) = FirstCanonBatchHeight header1 + 1
   \<and> height (batches1 ! 0) < height (batches1 ! 1)"
proof -
  have h1: "createIncompleteBatches rc1 node1 header1 txs1 107 = Some (Inr batches1)"
    by (simp add: concrete_eval rc1_def node1_def header1_def txs1_def batches1_def)
  have r: "- (2 ^ 63) \<le> FirstCanonBatchHeight header1"
          "FirstCanonBatchHeight header1 + int (length batches1) \<le> 2 ^ 63"
    by (simp_all add: header1_def batches1_def)
  have c: "header (batches1 ! 0) = None" "header (batches1 ! 1) = None"
          "(0::nat) < length batches1" "(1::nat) < length batches1"
    by (simp_all add: batches1_def)
  from C7_heights [OF h1] r have
    "\<forall>j<length batches1. header (batches1 ! j) = None \<longrightarrow>
       height (batches1 ! j) =
         FirstCanonBatchHeight header1
           + int (length (filter (\<lambda>b. header b = None) (take j batches1)))
       \<and> (\<forall>i<j. header (batches1 ! i) = None \<longrightarrow> height (batches1 ! i) < height (batches1 ! j))"
    by blast
  with c have
    "height (batches1 ! 0) =
       FirstCanonBatchHeight header1 + int (length (filter (\<lambda>b. header b = None) (take 0 batches1)))"
    "height (batches1 ! 1) =
       FirstCanonBatchHeight header1 + int (length (filter (\<lambda>b. header b = None) (take 1 batches1)))"
    "height (batches1 ! 0) < height (batches1 ! 1)"
    by (blast, blast, (metis zero_less_one))
  then show ?thesis using h1 r c by (simp add: batches1_def)
qed

text \<open>
  C7 as stated fails at the end of the \<^verbatim>\<open>int64\<close> range: with the first canonical height
  \<open>2 ^ 63 - 1\<close> the second canonical batch gets the height \<open>- 2 ^ 63\<close>.
\<close>

theorem C7_counterexample:
  "createIncompleteBatches rc1 node1 (header1\<lparr>FirstCanonBatchHeight := 2 ^ 63 - 1\<rparr>) txs1 107
     = Some (Inr batchesTop)
   \<and> header (batchesTop ! 0) = None \<and> header (batchesTop ! 1) = None
   \<and> height (batchesTop ! 1) < height (batchesTop ! 0)"
  by (simp add: concrete_eval rc1_def node1_def header1_def txs1_def batchesTop_def)

subsection \<open>Claims about \<^verbatim>\<open>executeAndSaveIncompleteBatches\<close>\<close>



lemma saveLoop_append:
  "saveLoop rc hdr (xs @ ys) p s =
     (case saveLoop rc hdr xs p s of
        (s', Inl e) \<Rightarrow> (s', Inl e)
      | (s', Inr p') \<Rightarrow> saveLoop rc hdr ys p' s')"
  by (induction xs arbitrary: p s) (auto split: prod.splits sum.splits)

lemma saveIncompleteBatch_reorg:
  assumes "header ib = Some h"
  shows "saveIncompleteBatch rc hdr ib p s =
     (case FetchBatchBySeqNo rc s (Uint64 (seqNo ib)) of
        Inr b \<Rightarrow> (s, Inr p)
      | Inl err \<Rightarrow>
          if \<not> errorsIs err ErrNotFound then (s, Inl err)
          else
            (case StoreBatch rc s \<lparr>Batch.Header = h, Batch.Transactions = transactions ib\<rparr> of
               Inl e \<Rightarrow> (s, Inl e)
             | Inr s1 \<Rightarrow> (s1, Inr p)))"
  using assms by (simp add: saveIncompleteBatch_def split: sum.splits)

lemma saveLoop_reorgs_parent:
  "\<forall>ib\<in>set rs. header ib \<noteq> None \<Longrightarrow> saveLoop rc hdr rs p s = (s', Inr p') \<Longrightarrow> p' = p"
proof (induction rs arbitrary: s)
  case Nil
  then show ?case by simp
next
  case (Cons r rs)
  from Cons.prems(1) obtain h where h: "header r = Some h" by auto
  from Cons.prems(2) obtain s1 p1 where
    step: "saveIncompleteBatch rc hdr r p s = (s1, Inr p1)" and
    rest: "saveLoop rc hdr rs p1 s1 = (s', Inr p')"
    by (auto split: prod.splits sum.splits)
  from step have "p1 = p"
    by (auto simp: saveIncompleteBatch_reorg [OF h] split: sum.splits if_splits)
  with Cons.IH [of s1] Cons.prems(1) rest show ?case by simp
qed





lemmas concrete_save =
  saveIncompleteBatch_def computeBatch_def memNode_def memComputeBatch_def memCreateGenesisState_def
  memHash_def lookup_def Hash_def Uint64_def SeqNo_def
  node1_def node5_def node6_def node7_def batch4_def batch5_def batch6_def batch7_def
  reorgHeader6_def header2_def ib5_def ib6_def ib7_def


subsection \<open>The builder\<close>

lemma setBytes_append: "setBytes (xs @ ys) acc = setBytes ys (setBytes xs acc)"
  by (induction xs arbitrary: acc) auto

lemma setBytes_natBytes: "setBytes (natBytes n) 0 = n"
proof (induction n rule: natBytes.induct)
  case (1 n)
  show ?case
  proof (cases "n = 0")
    case True
    then show ?thesis by (simp add: natBytes.simps)
  next
    case False
    have "unat (of_nat (n mod 256) :: byte) = n mod 256"
      by (simp add: unat_of_nat)
    with False 1 show ?thesis
      by (subst natBytes.simps) (simp add: setBytes_append)
  qed
qed

lemma GobDecode_GobEncode: "GobEncode x = Inr v \<Longrightarrow> GobDecode v = Inr x"
  by (auto simp: GobEncode_def GobDecode_def setBytes_natBytes)

lemma gobEncodeAll_Inr:
  "gobEncodeAll xs = Inr vs \<Longrightarrow>
     length vs = length xs \<and> (\<forall>k<length xs. GobEncode (xs ! k) = Inr (vs ! k))"
proof (induction xs arbitrary: vs)
  case Nil
  then show ?case by simp
next
  case (Cons x xs)
  from Cons.prems obtain v vs' where
    v: "GobEncode x = Inr v" "gobEncodeAll xs = Inr vs'" "vs = v # vs'"
    by (auto split: sum.splits)
  from Cons.IH [OF v(2)] v(1,3) show ?case
    by (auto simp: nth_Cons split: nat.splits)
qed

lemma transformToByteArray_Inr:
  "transformToByteArray rc rs = Inr encs \<Longrightarrow>
     length encs = length rs
     \<and> (\<forall>k<length rs.
           case rs ! k of Some h \<Rightarrow> EncodeBatchHeader rc h = Inr (encs ! k) | None \<Rightarrow> encs ! k = [])"
proof (induction rs arbitrary: encs)
  case Nil
  then show ?case by simp
next
  case (Cons r rs)
  from Cons.prems obtain enc encs' where
    e: "(case r of Some h \<Rightarrow> EncodeBatchHeader rc h | None \<Rightarrow> Inr []) = Inr enc"
       "transformToByteArray rc rs = Inr encs'" "encs = enc # encs'"
    by (auto split: sum.splits)
  from e(1) have r: "case r of Some h \<Rightarrow> EncodeBatchHeader rc h = Inr enc | None \<Rightarrow> enc = []"
    by (auto split: option.splits)
  note ih = Cons.IH [OF e(2)]
  have "case (r # rs) ! k of Some h \<Rightarrow> EncodeBatchHeader rc h = Inr (encs ! k) | None \<Rightarrow> encs ! k = []"
    if "k < length (r # rs)" for k
  proof (cases k)
    case 0
    with r e(3) show ?thesis by (auto split: option.splits)
  next
    case (Suc k')
    with that have "k' < length rs" by simp
    with ih Suc e(3) show ?thesis by (auto split: option.splits)
  qed
  with ih e(3) show ?case by simp
qed

lemma reorgMap_fold:
  "fold (\<lambda>batch m. m(Uint64 (SeqNo batch) := True)) rb m0 k
     = (m0 k \<or> k \<in> (\<lambda>b. Uint64 (SeqNo b)) ` set rb)"
  by (induction rb arbitrary: m0) auto

lemma reorgMap_iff: "reorgMap rb k = (k \<in> (\<lambda>b. Uint64 (SeqNo b)) ` set rb)"
  by (simp add: reorgMap_def reorgMap_fold)

lemma compressLoop_Inr:
  "compressLoop rm blocks i bs prev pl = Inr (reorgs, dts, hds) \<Longrightarrow>
     length reorgs = length bs \<and> length dts = length bs \<and> length hds = length bs
     \<and> (\<forall>k<length bs.
           reorgs ! k = (if rm (Uint64 (SeqNo (bs ! k))) then Some (Batch.Header (bs ! k)) else None)
           \<and> dts ! k =
               NewInt (Time (Batch.Header (bs ! k))
                       - (if k = 0 then prev else Time (Batch.Header (bs ! (k - 1)))))
           \<and> (\<exists>blk. blocks (L1Proof (Batch.Header (bs ! k))) = Some blk
                 \<and> (if k = 0 then
                       (if i = 0 then hds ! k = BlockNumber blk
                        else \<exists>p. pl = Some p \<and> hds ! k = NewInt (Int64 (BlockNumber blk) - Int64 p))
                     else
                       (\<exists>pb. blocks (L1Proof (Batch.Header (bs ! (k - 1)))) = Some pb
                          \<and> hds ! k = NewInt (Int64 (BlockNumber blk) - Int64 (BlockNumber pb))))))"
proof (induction bs arbitrary: i prev pl reorgs dts hds)
  case Nil
  then show ?case by simp
next
  case (Cons b bs)
  from Cons.prems obtain blk where blk: "blocks (L1Proof (Batch.Header b)) = Some blk"
    by (auto simp: Let_def split: option.splits)
  define dv where
    "dv = (if i = 0 then Inr (BlockNumber blk)
           else (case pl of None \<Rightarrow> Inl Panic
                 | Some p \<Rightarrow> Inr (NewInt (Int64 (BlockNumber blk) - Int64 p))))"
  from Cons.prems blk have
    "(case dv of Inl e \<Rightarrow> Inl e
      | Inr l1HeightDelta \<Rightarrow>
          (case compressLoop rm blocks (i + 1) bs (Time (Batch.Header b)) (Some (BlockNumber blk)) of
             Inl e \<Rightarrow> Inl e
           | Inr (reorgs', deltaTimes, l1HeightDeltas) \<Rightarrow>
               Inr ((if rm (Uint64 (SeqNo b)) then Some (Batch.Header b) else None) # reorgs',
                    NewInt (Time (Batch.Header b) - prev) # deltaTimes,
                    l1HeightDelta # l1HeightDeltas)))
       = Inr (reorgs, dts, hds)"
    by (simp add: Let_def dv_def)
  then obtain d reorgs' dts' hds' where
    dv: "dv = Inr d" and
    rest: "compressLoop rm blocks (i + 1) bs (Time (Batch.Header b)) (Some (BlockNumber blk))
             = Inr (reorgs', dts', hds')" and
    res: "reorgs = (if rm (Uint64 (SeqNo b)) then Some (Batch.Header b) else None) # reorgs'"
         "dts = NewInt (Time (Batch.Header b) - prev) # dts'"
         "hds = d # hds'"
    by (cases dv) (auto split: sum.splits prod.splits)
  from dv have d: "(if i = 0 then Inr (BlockNumber blk)
         else (case pl of None \<Rightarrow> Inl Panic
               | Some p \<Rightarrow> Inr (NewInt (Int64 (BlockNumber blk) - Int64 p)))) = Inr d"
    by (simp add: dv_def)
  from d have d0: "if i = 0 then d = BlockNumber blk
                   else \<exists>p. pl = Some p \<and> d = NewInt (Int64 (BlockNumber blk) - Int64 p)"
    by (auto split: if_splits option.splits)
  note ih = Cons.IH [OF rest]
  have lens: "length reorgs = length (b # bs) \<and> length dts = length (b # bs)
                \<and> length hds = length (b # bs)"
    using ih res by simp
  have each: "reorgs ! k = (if rm (Uint64 (SeqNo ((b # bs) ! k))) then Some (Batch.Header ((b # bs) ! k)) else None)
           \<and> dts ! k =
               NewInt (Time (Batch.Header ((b # bs) ! k))
                       - (if k = 0 then prev else Time (Batch.Header ((b # bs) ! (k - 1)))))
           \<and> (\<exists>blk. blocks (L1Proof (Batch.Header ((b # bs) ! k))) = Some blk
                 \<and> (if k = 0 then
                       (if i = 0 then hds ! k = BlockNumber blk
                        else \<exists>p. pl = Some p \<and> hds ! k = NewInt (Int64 (BlockNumber blk) - Int64 p))
                     else
                       (\<exists>pb. blocks (L1Proof (Batch.Header ((b # bs) ! (k - 1)))) = Some pb
                          \<and> hds ! k = NewInt (Int64 (BlockNumber blk) - Int64 (BlockNumber pb)))))"
    if k: "k < length (b # bs)" for k
  proof (cases k)
    case 0
    then show ?thesis using res blk d0 by auto
  next
    case (Suc k')
    with k have k': "k' < length bs" by simp
    from ih k' have
      a: "reorgs' ! k' = (if rm (Uint64 (SeqNo (bs ! k'))) then Some (Batch.Header (bs ! k')) else None)"
         "dts' ! k' = NewInt (Time (Batch.Header (bs ! k'))
                       - (if k' = 0 then Time (Batch.Header b) else Time (Batch.Header (bs ! (k' - 1)))))"
      and "\<exists>blk'. blocks (L1Proof (Batch.Header (bs ! k'))) = Some blk'
                 \<and> (if k' = 0 then
                       (if i + 1 = 0 then hds' ! k' = BlockNumber blk'
                        else \<exists>p. Some (BlockNumber blk) = Some p
                               \<and> hds' ! k' = NewInt (Int64 (BlockNumber blk') - Int64 p))
                     else
                       (\<exists>pb. blocks (L1Proof (Batch.Header (bs ! (k' - 1)))) = Some pb
                          \<and> hds' ! k' = NewInt (Int64 (BlockNumber blk') - Int64 (BlockNumber pb))))"
      by blast+
    then obtain blk' where
      b': "blocks (L1Proof (Batch.Header (bs ! k'))) = Some blk'"
          "if k' = 0 then hds' ! k' = NewInt (Int64 (BlockNumber blk') - Int64 (BlockNumber blk))
           else (\<exists>pb. blocks (L1Proof (Batch.Header (bs ! (k' - 1)))) = Some pb
                   \<and> hds' ! k' = NewInt (Int64 (BlockNumber blk') - Int64 (BlockNumber pb)))"
      by (auto split: if_splits)
    show ?thesis
    proof (cases k')
      case 0
      with Suc a b' res blk show ?thesis by simp
    next
      case (Suc k'')
      with \<open>k = Suc k'\<close> a b' res show ?thesis by simp
    qed
  qed
  from lens each show ?case by blast
qed

lemma createRollupHeader_Inr:
  assumes "createRollupHeader rc s rollup = Inr hdr"
  obtains rb reorgs dts hds reorgsBA where
    "Batches rollup \<noteq> []"
    "FetchNonCanonicalBatchesBetween rc s (Uint64 (SeqNo (Batches rollup ! 0)))
       (Uint64 (SeqNo (Batches rollup ! (length (Batches rollup) - 1)))) = Inr rb"
    "compressLoop (reorgMap rb) (Blocks rollup) 0 (Batches rollup)
       (Time (Batch.Header (Batches rollup ! 0))) None = Inr (reorgs, dts, hds)"
    "gobEncodeAll hds = Inr (L1HeightDeltas hdr)"
    "gobEncodeAll dts = Inr (BatchTimeDeltas hdr)"
    "transformToByteArray rc reorgs = Inr reorgsBA"
    "ReOrgs hdr = (if length rb = 0 then None else Some reorgsBA)"
    "StartTime hdr = Time (Batch.Header (Batches rollup ! 0))"
    "FirstBatchSequence hdr = SeqNo (Batches rollup ! 0)"
    "FirstCanonBatchHeight hdr =
       Number (Batch.Header (case firstCanonIdx reorgs 0 of None \<Rightarrow> Batches rollup ! 0
                             | Some i \<Rightarrow> Batches rollup ! i))"
    "FirstCanonParentHash hdr =
       ParentHash (Batch.Header (case firstCanonIdx reorgs 0 of None \<Rightarrow> Batches rollup ! 0
                                 | Some i \<Rightarrow> Batches rollup ! i))"
    "CalldataRollupHeader.Coinbase hdr = BatchHeader.Coinbase (Batch.Header (Batches rollup ! 0))"
    "CalldataRollupHeader.BaseFee hdr = BatchHeader.BaseFee (Batch.Header (Batches rollup ! 0))"
    "CalldataRollupHeader.GasLimit hdr = BatchHeader.GasLimit (Batch.Header (Batches rollup ! 0))"
proof -
  from assms have ne: "Batches rollup \<noteq> []"
    by (auto simp: createRollupHeader_def Let_def split: if_splits)
  from assms ne obtain rb where
    rb: "FetchNonCanonicalBatchesBetween rc s (Uint64 (SeqNo (Batches rollup ! 0)))
       (Uint64 (SeqNo (Batches rollup ! (length (Batches rollup) - 1)))) = Inr rb"
    by (auto simp: createRollupHeader_def Let_def split: sum.splits)
  from assms ne rb obtain reorgs dts hds where
    cl: "compressLoop (reorgMap rb) (Blocks rollup) 0 (Batches rollup)
       (Time (Batch.Header (Batches rollup ! 0))) None = Inr (reorgs, dts, hds)"
    by (auto simp: createRollupHeader_def Let_def split: sum.splits prod.splits)
  from assms ne rb cl obtain l1 where l1: "gobEncodeAll hds = Inr l1"
    by (auto simp: createRollupHeader_def Let_def split: sum.splits prod.splits)
  from assms ne rb cl l1 obtain td where td: "gobEncodeAll dts = Inr td"
    by (auto simp: createRollupHeader_def Let_def split: sum.splits prod.splits)
  from assms ne rb cl l1 td obtain ba where ba: "transformToByteArray rc reorgs = Inr ba"
    by (auto simp: createRollupHeader_def Let_def split: sum.splits prod.splits)
  from assms ne rb cl l1 td ba have
    hdr: "hdr = \<lparr>FirstBatchSequence = SeqNo (Batches rollup ! 0),
                 FirstCanonBatchHeight =
                   Number (Batch.Header (case firstCanonIdx reorgs 0 of None \<Rightarrow> Batches rollup ! 0
                                         | Some i \<Rightarrow> Batches rollup ! i)),
                 FirstCanonParentHash =
                   ParentHash (Batch.Header (case firstCanonIdx reorgs 0 of None \<Rightarrow> Batches rollup ! 0
                                             | Some i \<Rightarrow> Batches rollup ! i)),
                 StartTime = Time (Batch.Header (Batches rollup ! 0)),
                 BatchTimeDeltas = td,
                 ReOrgs = (if length rb = 0 then None else Some ba),
                 L1HeightDeltas = l1,
                 CalldataRollupHeader.Coinbase = BatchHeader.Coinbase (Batch.Header (Batches rollup ! 0)),
                 CalldataRollupHeader.BaseFee = BatchHeader.BaseFee (Batch.Header (Batches rollup ! 0)),
                 CalldataRollupHeader.GasLimit = BatchHeader.GasLimit (Batch.Header (Batches rollup ! 0))\<rparr>"
    by (simp add: createRollupHeader_def Let_def)
  show thesis
    by (rule that [OF ne rb cl _ _ ba]) (simp_all add: hdr l1 td)
qed

text \<open>
  C5. When the storage returns no non-canonical batch for the range of the rollup, the
  field \<^verbatim>\<open>ReOrgs\<close> of the header is nil. When it returns at least one, \<^verbatim>\<open>ReOrgs\<close> has one
  entry for each batch: the encoded header of the batch where the sequence number of the
  batch is that of a returned batch, and the empty byte string elsewhere.
\<close>

theorem C5_reorgs_field:
  assumes "createRollupHeader rc s rollup = Inr hdr"
  shows "\<exists>rb. FetchNonCanonicalBatchesBetween rc s (Uint64 (SeqNo (Batches rollup ! 0)))
                (Uint64 (SeqNo (Batches rollup ! (length (Batches rollup) - 1)))) = Inr rb
           \<and> (rb = [] \<longrightarrow> ReOrgs hdr = None)
           \<and> (rb \<noteq> [] \<longrightarrow>
                (\<exists>rs. ReOrgs hdr = Some rs \<and> length rs = length (Batches rollup)
                   \<and> (\<forall>i<length (Batches rollup).
                         if Uint64 (SeqNo (Batches rollup ! i)) \<in> (\<lambda>b. Uint64 (SeqNo b)) ` set rb
                         then EncodeBatchHeader rc (Batch.Header (Batches rollup ! i)) = Inr (rs ! i)
                         else rs ! i = [])))"
proof -
  from assms obtain rb reorgs dts hds reorgsBA where
    rb: "FetchNonCanonicalBatchesBetween rc s (Uint64 (SeqNo (Batches rollup ! 0)))
           (Uint64 (SeqNo (Batches rollup ! (length (Batches rollup) - 1)))) = Inr rb" and
    cl: "compressLoop (reorgMap rb) (Blocks rollup) 0 (Batches rollup)
           (Time (Batch.Header (Batches rollup ! 0))) None = Inr (reorgs, dts, hds)" and
    ba: "transformToByteArray rc reorgs = Inr reorgsBA" and
    ro: "ReOrgs hdr = (if length rb = 0 then None else Some reorgsBA)"
    by (rule createRollupHeader_Inr)
  note c = compressLoop_Inr [OF cl]
  note t = transformToByteArray_Inr [OF ba]
  have entries:
    "if Uint64 (SeqNo (Batches rollup ! i)) \<in> (\<lambda>b. Uint64 (SeqNo b)) ` set rb
     then EncodeBatchHeader rc (Batch.Header (Batches rollup ! i)) = Inr (reorgsBA ! i)
     else reorgsBA ! i = []"
    if i: "i < length (Batches rollup)" for i
  proof -
    from c i have r: "reorgs ! i =
        (if reorgMap rb (Uint64 (SeqNo (Batches rollup ! i)))
         then Some (Batch.Header (Batches rollup ! i)) else None)"
      by blast
    from t c i have
      "case reorgs ! i of Some h \<Rightarrow> EncodeBatchHeader rc h = Inr (reorgsBA ! i)
       | None \<Rightarrow> reorgsBA ! i = []"
      by simp
    with r show ?thesis
      by (auto simp: reorgMap_iff split: if_splits)
  qed
  have "rb \<noteq> [] \<longrightarrow>
          (\<exists>rs. ReOrgs hdr = Some rs \<and> length rs = length (Batches rollup)
             \<and> (\<forall>i<length (Batches rollup).
                   if Uint64 (SeqNo (Batches rollup ! i)) \<in> (\<lambda>b. Uint64 (SeqNo b)) ` set rb
                   then EncodeBatchHeader rc (Batch.Header (Batches rollup ! i)) = Inr (rs ! i)
                   else rs ! i = []))"
  proof
    assume "rb \<noteq> []"
    with ro have "ReOrgs hdr = Some reorgsBA" by simp
    moreover from t c have "length reorgsBA = length (Batches rollup)" by simp
    ultimately show "\<exists>rs. ReOrgs hdr = Some rs \<and> length rs = length (Batches rollup)
             \<and> (\<forall>i<length (Batches rollup).
                   if Uint64 (SeqNo (Batches rollup ! i)) \<in> (\<lambda>b. Uint64 (SeqNo b)) ` set rb
                   then EncodeBatchHeader rc (Batch.Header (Batches rollup ! i)) = Inr (rs ! i)
                   else rs ! i = [])"
      using entries by blast
  qed
  moreover have "rb = [] \<longrightarrow> ReOrgs hdr = None"
    using ro by simp
  ultimately show ?thesis using rb by blast
qed

lemmas concrete_build =
  createRollupHeader_def memNode_def sequencer1_def node7_def node6_def node5_def node1_def
  batch5_def batch6_def batch7_def batch4_def reorgHeader6_def SeqNo_def Uint64_def reorgMap_def
  blocks1_def NewInt_def Int64_def GobEncode_def natBytes.simps

theorem C5_witness:
  "createRollupHeader rc2 node7 rollup3 = Inr header1
   \<and> FetchNonCanonicalBatchesBetween rc2 node7 (Uint64 (SeqNo (Batches rollup3 ! 0)))
        (Uint64 (SeqNo (Batches rollup3 ! (length (Batches rollup3) - 1)))) = Inr []
   \<and> ReOrgs header1 = None
   \<and> createRollupHeader rc2 sequencer1 rollup2 = Inr header2
   \<and> FetchNonCanonicalBatchesBetween rc2 sequencer1 (Uint64 (SeqNo (Batches rollup2 ! 0)))
        (Uint64 (SeqNo (Batches rollup2 ! (length (Batches rollup2) - 1)))) = Inr [batch6]
   \<and> (\<exists>rs. ReOrgs header2 = Some rs \<and> length rs = 3
         \<and> rs ! 0 = []
         \<and> EncodeBatchHeader rc2 (Batch.Header (Batches rollup2 ! 1)) = Inr (rs ! 1)
         \<and> rs ! 2 = [])"
proof -
  have h1: "createRollupHeader rc2 node7 rollup3 = Inr header1"
    by (simp add: concrete_build rollup3_def rc2_def header1_def)
  have q1: "FetchNonCanonicalBatchesBetween rc2 node7 (Uint64 (SeqNo (Batches rollup3 ! 0)))
        (Uint64 (SeqNo (Batches rollup3 ! (length (Batches rollup3) - 1)))) = Inr []"
    by (simp add: concrete_build rollup3_def rc2_def)
  have h2: "createRollupHeader rc2 sequencer1 rollup2 = Inr header2"
    by (simp add: concrete_build rollup2_def rc2_def header2_def)
  have q2: "FetchNonCanonicalBatchesBetween rc2 sequencer1 (Uint64 (SeqNo (Batches rollup2 ! 0)))
        (Uint64 (SeqNo (Batches rollup2 ! (length (Batches rollup2) - 1)))) = Inr [batch6]"
    by (simp add: concrete_build rollup2_def rc2_def)
  from C5_reorgs_field [OF h1] q1 have a: "ReOrgs header1 = None"
    by auto
  from C5_reorgs_field [OF h2] q2 obtain rs where
    rs: "ReOrgs header2 = Some rs" "length rs = length (Batches rollup2)"
        "\<forall>i<length (Batches rollup2).
           if Uint64 (SeqNo (Batches rollup2 ! i)) \<in> (\<lambda>b. Uint64 (SeqNo b)) ` set [batch6]
           then EncodeBatchHeader rc2 (Batch.Header (Batches rollup2 ! i)) = Inr (rs ! i)
           else rs ! i = []"
    by auto
  have len: "length (Batches rollup2) = 3" by (simp add: rollup2_def)
  from rs(3) len have
    "if Uint64 (SeqNo (Batches rollup2 ! 0)) \<in> (\<lambda>b. Uint64 (SeqNo b)) ` set [batch6]
     then EncodeBatchHeader rc2 (Batch.Header (Batches rollup2 ! 0)) = Inr (rs ! 0) else rs ! 0 = []"
    "if Uint64 (SeqNo (Batches rollup2 ! 1)) \<in> (\<lambda>b. Uint64 (SeqNo b)) ` set [batch6]
     then EncodeBatchHeader rc2 (Batch.Header (Batches rollup2 ! 1)) = Inr (rs ! 1) else rs ! 1 = []"
    "if Uint64 (SeqNo (Batches rollup2 ! 2)) \<in> (\<lambda>b. Uint64 (SeqNo b)) ` set [batch6]
     then EncodeBatchHeader rc2 (Batch.Header (Batches rollup2 ! 2)) = Inr (rs ! 2) else rs ! 2 = []"
    by simp_all
  then have "rs ! 0 = []"
    "EncodeBatchHeader rc2 (Batch.Header (Batches rollup2 ! 1)) = Inr (rs ! 1)"
    "rs ! 2 = []"
    by (simp_all add: rollup2_def batch5_def batch6_def batch7_def reorgHeader6_def SeqNo_def Uint64_def)
  with rs(1,2) len h1 q1 a h2 q2 show ?thesis by auto
qed

lemma sint_diff_uint:
  fixes a b :: "64 word"
  assumes "- (2 ^ 63) \<le> uint a - uint b" "uint a - uint b < 2 ^ 63"
  shows "sint (a - b) = uint a - uint b"
proof -
  have "a - b = word_of_int (uint a - uint b)" by simp
  then show ?thesis using sint_word_of_int_64 [OF assms] by simp
qed

lemma sint_diff_Int64:
  assumes "- (2 ^ 63) \<le> x - y" "x - y < 2 ^ 63"
  shows "sint (Int64 x - Int64 y) = x - y"
proof -
  have "Int64 x - Int64 y = (word_of_int (x - y) :: 64 word)" by (simp add: Int64_def)
  then show ?thesis using sint_word_of_int_64 [OF assms] by simp
qed

text \<open>
  C3 (as amended). For a non-empty list of batches the header the builder returns has
  \<^verbatim>\<open>StartTime\<close> = the time of batch 0 and one time delta and one L1 height delta for each
  batch, each stored in the encoding of \<^verbatim>\<open>big.Int.GobEncode\<close>. Time delta 0 is 0. Time delta
  \<open>i > 0\<close> is the \<^verbatim>\<open>uint64\<close> difference of the times of the batches \<open>i\<close> and \<open>i - 1\<close> read as
  an \<^verbatim>\<open>int64\<close>; it is the difference of the two times if that lies in the \<^verbatim>\<open>int64\<close> range.
  L1 height delta 0 is the number of the proof block of batch 0. L1 height delta \<open>i > 0\<close> is the \<^verbatim>\<open>int64\<close> difference of the numbers of
  the proof blocks of the batches \<open>i\<close> and \<open>i - 1\<close>, each truncated to an \<^verbatim>\<open>int64\<close>; it is the
  difference of the two numbers if that lies in the \<^verbatim>\<open>int64\<close> range.
\<close>

theorem C3_deltas:
  assumes "createRollupHeader rc s rollup = Inr hdr"
  shows "Batches rollup \<noteq> []
       \<and> StartTime hdr = Time (Batch.Header (Batches rollup ! 0))
       \<and> length (BatchTimeDeltas hdr) = length (Batches rollup)
       \<and> length (L1HeightDeltas hdr) = length (Batches rollup)
       \<and> GobEncode 0 = Inr (BatchTimeDeltas hdr ! 0)
       \<and> (\<exists>blk. Blocks rollup (L1Proof (Batch.Header (Batches rollup ! 0))) = Some blk
             \<and> GobEncode (BlockNumber blk) = Inr (L1HeightDeltas hdr ! 0))
       \<and> (\<forall>i. 0 < i \<and> i < length (Batches rollup) \<longrightarrow>
             (\<exists>d. GobEncode d = Inr (BatchTimeDeltas hdr ! i)
                \<and> d = sint (Time (Batch.Header (Batches rollup ! i))
                            - Time (Batch.Header (Batches rollup ! (i - 1))))
                \<and> (- (2 ^ 63) \<le> uint (Time (Batch.Header (Batches rollup ! i)))
                                  - uint (Time (Batch.Header (Batches rollup ! (i - 1))))
                    \<and> uint (Time (Batch.Header (Batches rollup ! i)))
                        - uint (Time (Batch.Header (Batches rollup ! (i - 1)))) < 2 ^ 63
                    \<longrightarrow> d = uint (Time (Batch.Header (Batches rollup ! i)))
                             - uint (Time (Batch.Header (Batches rollup ! (i - 1))))))
           \<and> (\<exists>blk pb e. Blocks rollup (L1Proof (Batch.Header (Batches rollup ! i))) = Some blk
                \<and> Blocks rollup (L1Proof (Batch.Header (Batches rollup ! (i - 1)))) = Some pb
                \<and> GobEncode e = Inr (L1HeightDeltas hdr ! i)
                \<and> e = sint (Int64 (BlockNumber blk) - Int64 (BlockNumber pb))
                \<and> (- (2 ^ 63) \<le> BlockNumber blk - BlockNumber pb
                    \<and> BlockNumber blk - BlockNumber pb < 2 ^ 63
                    \<longrightarrow> e = BlockNumber blk - BlockNumber pb)))"
proof -
  let ?bs = "Batches rollup"
  from assms obtain rb reorgs dts hds reorgsBA where
    ne: "?bs \<noteq> []" and
    cl: "compressLoop (reorgMap rb) (Blocks rollup) 0 ?bs (Time (Batch.Header (?bs ! 0))) None
           = Inr (reorgs, dts, hds)" and
    l1: "gobEncodeAll hds = Inr (L1HeightDeltas hdr)" and
    td: "gobEncodeAll dts = Inr (BatchTimeDeltas hdr)" and
    st: "StartTime hdr = Time (Batch.Header (?bs ! 0))"
    by (rule createRollupHeader_Inr)
  note c = compressLoop_Inr [OF cl]
  note e1 = gobEncodeAll_Inr [OF l1]
  note e2 = gobEncodeAll_Inr [OF td]
  from c have lens: "length dts = length ?bs" "length hds = length ?bs" by simp_all
  from ne have pos: "0 < length ?bs" by simp
  have t0: "GobEncode 0 = Inr (BatchTimeDeltas hdr ! 0)"
  proof -
    from c pos have "dts ! 0 = NewInt (Time (Batch.Header (?bs ! 0)) - Time (Batch.Header (?bs ! 0)))"
      by auto
    then have "dts ! 0 = 0" by (simp add: NewInt_def)
    with e2 lens pos show ?thesis by (metis)
  qed
  have h0: "\<exists>blk. Blocks rollup (L1Proof (Batch.Header (?bs ! 0))) = Some blk
             \<and> GobEncode (BlockNumber blk) = Inr (L1HeightDeltas hdr ! 0)"
  proof -
    from c pos obtain blk where
      "Blocks rollup (L1Proof (Batch.Header (?bs ! 0))) = Some blk" "hds ! 0 = BlockNumber blk"
      by auto
    with e1 lens pos show ?thesis by (metis)
  qed
  have later: "(\<exists>d. GobEncode d = Inr (BatchTimeDeltas hdr ! i)
                \<and> d = sint (Time (Batch.Header (?bs ! i)) - Time (Batch.Header (?bs ! (i - 1))))
                \<and> (- (2 ^ 63) \<le> uint (Time (Batch.Header (?bs ! i)))
                                  - uint (Time (Batch.Header (?bs ! (i - 1))))
                    \<and> uint (Time (Batch.Header (?bs ! i)))
                        - uint (Time (Batch.Header (?bs ! (i - 1)))) < 2 ^ 63
                    \<longrightarrow> d = uint (Time (Batch.Header (?bs ! i)))
                             - uint (Time (Batch.Header (?bs ! (i - 1))))))
           \<and> (\<exists>blk pb e. Blocks rollup (L1Proof (Batch.Header (?bs ! i))) = Some blk
                \<and> Blocks rollup (L1Proof (Batch.Header (?bs ! (i - 1)))) = Some pb
                \<and> GobEncode e = Inr (L1HeightDeltas hdr ! i)
                \<and> e = sint (Int64 (BlockNumber blk) - Int64 (BlockNumber pb))
                \<and> (- (2 ^ 63) \<le> BlockNumber blk - BlockNumber pb
                    \<and> BlockNumber blk - BlockNumber pb < 2 ^ 63
                    \<longrightarrow> e = BlockNumber blk - BlockNumber pb))"
    if i: "0 < i" "i < length ?bs" for i
  proof -
    from c i have
      dt: "dts ! i = NewInt (Time (Batch.Header (?bs ! i)) - Time (Batch.Header (?bs ! (i - 1))))"
      by auto
    from c i obtain blk pb where
      b: "Blocks rollup (L1Proof (Batch.Header (?bs ! i))) = Some blk"
         "Blocks rollup (L1Proof (Batch.Header (?bs ! (i - 1)))) = Some pb"
         "hds ! i = NewInt (Int64 (BlockNumber blk) - Int64 (BlockNumber pb))"
      by (metis less_numeral_extra(3))
    from e2 lens i have g1: "GobEncode (dts ! i) = Inr (BatchTimeDeltas hdr ! i)" by simp
    from e1 lens i have g2: "GobEncode (hds ! i) = Inr (L1HeightDeltas hdr ! i)" by simp
    have first: "\<exists>d. GobEncode d = Inr (BatchTimeDeltas hdr ! i)
                \<and> d = sint (Time (Batch.Header (?bs ! i)) - Time (Batch.Header (?bs ! (i - 1))))
                \<and> (- (2 ^ 63) \<le> uint (Time (Batch.Header (?bs ! i)))
                                  - uint (Time (Batch.Header (?bs ! (i - 1))))
                    \<and> uint (Time (Batch.Header (?bs ! i)))
                        - uint (Time (Batch.Header (?bs ! (i - 1)))) < 2 ^ 63
                    \<longrightarrow> d = uint (Time (Batch.Header (?bs ! i)))
                             - uint (Time (Batch.Header (?bs ! (i - 1)))))"
      using g1 dt sint_diff_uint by (auto simp: NewInt_def)
    have second: "\<exists>blk pb e. Blocks rollup (L1Proof (Batch.Header (?bs ! i))) = Some blk
                \<and> Blocks rollup (L1Proof (Batch.Header (?bs ! (i - 1)))) = Some pb
                \<and> GobEncode e = Inr (L1HeightDeltas hdr ! i)
                \<and> e = sint (Int64 (BlockNumber blk) - Int64 (BlockNumber pb))
                \<and> (- (2 ^ 63) \<le> BlockNumber blk - BlockNumber pb
                    \<and> BlockNumber blk - BlockNumber pb < 2 ^ 63
                    \<longrightarrow> e = BlockNumber blk - BlockNumber pb)"
      using g2 b sint_diff_Int64 by (auto simp: NewInt_def)
    from first second show ?thesis by blast
  qed
  from ne st e1 e2 lens t0 h0 later show ?thesis by simp
qed

theorem C3_witness:
  "createRollupHeader rc2 node7 rollup3 = Inr header1
   \<and> StartTime header1 = Time (Batch.Header batch5)
   \<and> GobEncode 0 = Inr (BatchTimeDeltas header1 ! 0)
   \<and> GobEncode 2 = Inr (BatchTimeDeltas header1 ! 1)
   \<and> uint (Time (Batch.Header batch7)) - uint (Time (Batch.Header batch5)) = 2
   \<and> Blocks rollup3 (L1Proof (Batch.Header batch5)) = Some \<lparr>BlockHash = 106, BlockParentHash = 105, BlockNumber = 6\<rparr>
   \<and> Blocks rollup3 (L1Proof (Batch.Header batch7)) = Some \<lparr>BlockHash = 107, BlockParentHash = 106, BlockNumber = 7\<rparr>
   \<and> GobEncode 6 = Inr (L1HeightDeltas header1 ! 0)
   \<and> GobEncode (7 - 6) = Inr (L1HeightDeltas header1 ! 1)"
proof -
  have h1: "createRollupHeader rc2 node7 rollup3 = Inr header1"
    by (simp add: concrete_build rollup3_def rc2_def header1_def)
  have bs: "Batches rollup3 ! 0 = batch5" "Batches rollup3 ! 1 = batch7" "length (Batches rollup3) = 2"
    by (simp_all add: rollup3_def)
  have blk: "Blocks rollup3 (L1Proof (Batch.Header batch5)) = Some \<lparr>BlockHash = 106, BlockParentHash = 105, BlockNumber = 6\<rparr>"
      "Blocks rollup3 (L1Proof (Batch.Header batch7)) = Some \<lparr>BlockHash = 107, BlockParentHash = 106, BlockNumber = 7\<rparr>"
    by (simp_all add: rollup3_def blocks1_def batch5_def batch7_def)
  have tm: "uint (Time (Batch.Header batch7)) - uint (Time (Batch.Header batch5)) = 2"
    by (simp add: batch5_def batch7_def)
  note c = C3_deltas [OF h1]
  from c bs have a: "StartTime header1 = Time (Batch.Header batch5)"
      "GobEncode 0 = Inr (BatchTimeDeltas header1 ! 0)"
    by simp_all
  from c bs blk have b: "GobEncode 6 = Inr (L1HeightDeltas header1 ! 0)"
    by auto
  from c have
    "0 < (1::nat) \<and> 1 < length (Batches rollup3) \<longrightarrow>
       (\<exists>d. GobEncode d = Inr (BatchTimeDeltas header1 ! 1)
          \<and> d = sint (Time (Batch.Header (Batches rollup3 ! 1))
                      - Time (Batch.Header (Batches rollup3 ! (1 - 1))))
          \<and> (- (2 ^ 63) \<le> uint (Time (Batch.Header (Batches rollup3 ! 1)))
                            - uint (Time (Batch.Header (Batches rollup3 ! (1 - 1))))
              \<and> uint (Time (Batch.Header (Batches rollup3 ! 1)))
                  - uint (Time (Batch.Header (Batches rollup3 ! (1 - 1)))) < 2 ^ 63
              \<longrightarrow> d = uint (Time (Batch.Header (Batches rollup3 ! 1)))
                       - uint (Time (Batch.Header (Batches rollup3 ! (1 - 1))))))
       \<and> (\<exists>blk pb e. Blocks rollup3 (L1Proof (Batch.Header (Batches rollup3 ! 1))) = Some blk
            \<and> Blocks rollup3 (L1Proof (Batch.Header (Batches rollup3 ! (1 - 1)))) = Some pb
            \<and> GobEncode e = Inr (L1HeightDeltas header1 ! 1)
            \<and> e = sint (Int64 (BlockNumber blk) - Int64 (BlockNumber pb))
            \<and> (- (2 ^ 63) \<le> BlockNumber blk - BlockNumber pb
                \<and> BlockNumber blk - BlockNumber pb < 2 ^ 63
                \<longrightarrow> e = BlockNumber blk - BlockNumber pb))"
    by blast
  with bs blk tm have d: "GobEncode 2 = Inr (BatchTimeDeltas header1 ! 1)"
      "GobEncode (7 - 6) = Inr (L1HeightDeltas header1 ! 1)"
    by auto
  from h1 a b d blk tm show ?thesis by simp
qed


text \<open>
  C3 as stated fails where the difference of two times does not fit an \<^verbatim>\<open>int64\<close>: for the
  batch times 0 and \<open>2 ^ 63\<close> the builder stores the time delta \<open>- 2 ^ 63\<close>, not the difference
  \<open>2 ^ 63\<close> of the two times.
\<close>

theorem C3_counterexample:
  "createRollupHeader rc2 node1 rollupT = Inr headerT
   \<and> Batches rollupT = [batchT5, batchT6]
   \<and> uint (Time (Batch.Header batchT6)) - uint (Time (Batch.Header batchT5)) = 9223372036854775808
   \<and> GobEncode (- 9223372036854775808) = Inr (BatchTimeDeltas headerT ! 1)
   \<and> GobEncode 9223372036854775808 \<noteq> Inr (BatchTimeDeltas headerT ! 1)"
proof -
  have h: "createRollupHeader rc2 node1 rollupT = Inr headerT"
    by (simp add: createRollupHeader_def memNode_def node1_def batchT5_def batchT6_def SeqNo_def
          Uint64_def reorgMap_def blocks1_def NewInt_def Int64_def GobEncode_def natBytes.simps
          rollupT_def rc2_def headerT_def)
  have b: "Batches rollupT = [batchT5, batchT6]"
    by (simp add: rollupT_def)
  have d: "uint (Time (Batch.Header batchT6)) - uint (Time (Batch.Header batchT5))
             = 9223372036854775808"
    by (simp add: batchT5_def batchT6_def)
  have e: "GobEncode (- 9223372036854775808) = Inr (BatchTimeDeltas headerT ! 1)"
      "GobEncode 9223372036854775808 \<noteq> Inr (BatchTimeDeltas headerT ! 1)"
    by (simp_all add: GobEncode_def natBytes.simps headerT_def)
  from h b d e show ?thesis by simp
qed

subsection \<open>The walk over the L1 ancestors\<close>

lemma sint_eq_uint_64:
  fixes m :: "64 word"
  assumes "m < 2 ^ 63"
  shows "sint m = uint m"
proof -
  from assms have u: "uint m < 2 ^ 63" by (simp add: word_less_def)
  have l: "- (2 ^ 63) \<le> uint m" by (rule order_trans [of _ 0]) simp_all
  have "sint m = signed_take_bit 63 (uint m)" by (simp add: sint_uint)
  also have "\<dots> = uint m" by (rule signed_take_bit_int_eq_self [OF l u])
  finally show ?thesis .
qed

lemma Uint64_NewInt:
  fixes m :: "64 word"
  assumes "m < 2 ^ 63"
  shows "Uint64 (NewInt m) = m"
  using sint_eq_uint_64 [OF assms] by (simp add: Uint64_def NewInt_def)

lemma word_pred_unat:
  fixes x y :: "64 word"
  assumes "unat y + 1 = unat x"
  shows "x - 1 = y"
proof -
  from assms have "x \<noteq> 0" by (metis add_is_0 unsigned_0 zero_neq_one)
  then have "unat (x - 1) = unat x - 1" by (rule unat_minus_one)
  with assms have "unat (x - 1) = unat y" by simp
  then show ?thesis by (simp add: word_unat_eq_iff)
qed

lemma word_le_pred_unat:
  fixes x h :: "64 word"
  assumes "h \<le> x" "h \<noteq> x" "unat y + 1 = unat x"
  shows "h \<le> y"
  using assms by (simp add: word_le_nat_alt word_unat_eq_iff)

lemma slicesMin_le:
  "slicesMin hs = Inr m \<Longrightarrow> m \<in> set hs \<and> (\<forall>h\<in>set hs. m \<le> h)"
proof -
  have "fold min xs x \<in> set (x # xs) \<and> (\<forall>h\<in>set (x # xs). fold min xs x \<le> h)"
    for xs :: "u64 list" and x
  proof (induction xs arbitrary: x)
    case Nil
    then show ?case by simp
  next
    case (Cons y ys)
    from Cons [of "min y x"] show ?case
      by (auto simp: min_def split: if_splits)
  qed
  then show "slicesMin hs = Inr m \<Longrightarrow> m \<in> set hs \<and> (\<forall>h\<in>set hs. m \<le> h)"
    by (cases hs) (auto simp: slicesMin_def)
qed

lemma calc_walk:
  assumes wf: "\<forall>h b p. FetchBlock rc s h = Inr b \<longrightarrow> FetchBlock rc s (BlockParentHash b) = Inr p
                 \<longrightarrow> unat (NumberU64 p) + 1 = unat (NumberU64 b)"
  shows "(\<exists>h. FetchBlock rc s h = Inr toBlock) \<Longrightarrow> unat (NumberU64 toBlock) = n \<Longrightarrow>
     \<exists>r. calcL1AncestorsOfHeight rc s fromH toBlock path = Some r \<and>
       (case r of
          Inl e \<Rightarrow> (\<exists>b h. FetchBlock rc s h = Inr b \<and> FetchBlock rc s (BlockParentHash b) = Inl e)
        | Inr mp \<Rightarrow>
            Uint64 fromH \<le> NumberU64 toBlock
            \<and> (\<forall>h. h < Uint64 fromH \<or> NumberU64 toBlock < h \<longrightarrow> mp h = path h)
            \<and> mp (NumberU64 toBlock) = Some toBlock
            \<and> (\<forall>h. Uint64 fromH \<le> h \<and> h \<le> NumberU64 toBlock \<longrightarrow>
                  (\<exists>b. mp h = Some b \<and> NumberU64 b = h
                     \<and> (Uint64 fromH < h \<longrightarrow>
                          (\<exists>p. mp (h - 1) = Some p
                             \<and> FetchBlock rc s (BlockParentHash b) = Inr p)))))"
proof (induction n arbitrary: toBlock path)
  case 0
  show ?case
  proof (cases "NumberU64 toBlock = Uint64 fromH")
    case True
    then show ?thesis
      by (subst calcL1AncestorsOfHeight.simps) auto
  next
    case False
    show ?thesis
    proof (cases "FetchBlock rc s (BlockParentHash toBlock)")
      case (Inl e)
      with False 0 show ?thesis
        by (subst calcL1AncestorsOfHeight.simps) auto
    next
      case (Inr p)
      with wf 0 have "unat (NumberU64 p) + 1 = 0" by metis
      then show ?thesis by simp
    qed
  qed
next
  case (Suc n)
  show ?case
  proof (cases "NumberU64 toBlock = Uint64 fromH")
    case True
    then show ?thesis
      by (subst calcL1AncestorsOfHeight.simps) auto
  next
    case False
    show ?thesis
    proof (cases "FetchBlock rc s (BlockParentHash toBlock)")
      case (Inl e)
      with False Suc.prems show ?thesis
        by (subst calcL1AncestorsOfHeight.simps) auto
    next
      case (Inr p)
      with wf Suc.prems have np: "unat (NumberU64 p) + 1 = unat (NumberU64 toBlock)" by metis
      with Suc.prems have n: "unat (NumberU64 p) = n" by simp
      let ?path = "path(NumberU64 toBlock \<mapsto> toBlock)"
      from Inr have st: "\<exists>h. FetchBlock rc s h = Inr p" by blast
      from Suc.IH [OF st n, of ?path] obtain r where
        r: "calcL1AncestorsOfHeight rc s fromH p ?path = Some r" and
        rp: "case r of
          Inl e \<Rightarrow> (\<exists>b h. FetchBlock rc s h = Inr b \<and> FetchBlock rc s (BlockParentHash b) = Inl e)
        | Inr mp \<Rightarrow>
            Uint64 fromH \<le> NumberU64 p
            \<and> (\<forall>h. h < Uint64 fromH \<or> NumberU64 p < h \<longrightarrow> mp h = ?path h)
            \<and> mp (NumberU64 p) = Some p
            \<and> (\<forall>h. Uint64 fromH \<le> h \<and> h \<le> NumberU64 p \<longrightarrow>
                  (\<exists>b. mp h = Some b \<and> NumberU64 b = h
                     \<and> (Uint64 fromH < h \<longrightarrow>
                          (\<exists>p. mp (h - 1) = Some p
                             \<and> FetchBlock rc s (BlockParentHash b) = Inr p))))"
        by blast
      have call: "calcL1AncestorsOfHeight rc s fromH toBlock path = Some r"
        using False Inr r by (subst calcL1AncestorsOfHeight.simps) simp
      show ?thesis
      proof (cases r)
        case (Inl e)
        with rp call show ?thesis by auto
      next
        case (Inr mp)
        with rp have
          a1: "Uint64 fromH \<le> NumberU64 p" and
          a2: "\<forall>h. h < Uint64 fromH \<or> NumberU64 p < h \<longrightarrow> mp h = ?path h" and
          a3: "mp (NumberU64 p) = Some p" and
          a4: "\<forall>h. Uint64 fromH \<le> h \<and> h \<le> NumberU64 p \<longrightarrow>
                  (\<exists>b. mp h = Some b \<and> NumberU64 b = h
                     \<and> (Uint64 fromH < h \<longrightarrow>
                          (\<exists>p. mp (h - 1) = Some p
                             \<and> FetchBlock rc s (BlockParentHash b) = Inr p)))"
          by simp_all
        have lt: "NumberU64 p < NumberU64 toBlock"
          using np by (simp add: word_less_nat_alt)
        have pred: "NumberU64 toBlock - 1 = NumberU64 p"
          using np by (rule word_pred_unat)
        have b1: "Uint64 fromH \<le> NumberU64 toBlock"
          using a1 lt by simp
        have b3: "mp (NumberU64 toBlock) = Some toBlock"
          using a2 lt by simp
        have b2: "\<forall>h. h < Uint64 fromH \<or> NumberU64 toBlock < h \<longrightarrow> mp h = path h"
        proof (intro allI impI)
          fix h assume h: "h < Uint64 fromH \<or> NumberU64 toBlock < h"
          with lt b1 have "h < Uint64 fromH \<or> NumberU64 p < h" by auto
          with a2 have "mp h = ?path h" by blast
          moreover from h b1 have "h \<noteq> NumberU64 toBlock" by auto
          ultimately show "mp h = path h" by simp
        qed
        have b4: "\<forall>h. Uint64 fromH \<le> h \<and> h \<le> NumberU64 toBlock \<longrightarrow>
                  (\<exists>b. mp h = Some b \<and> NumberU64 b = h
                     \<and> (Uint64 fromH < h \<longrightarrow>
                          (\<exists>p. mp (h - 1) = Some p
                             \<and> FetchBlock rc s (BlockParentHash b) = Inr p)))"
        proof (intro allI impI)
          fix h assume h: "Uint64 fromH \<le> h \<and> h \<le> NumberU64 toBlock"
          show "\<exists>b. mp h = Some b \<and> NumberU64 b = h
                     \<and> (Uint64 fromH < h \<longrightarrow>
                          (\<exists>p. mp (h - 1) = Some p
                             \<and> FetchBlock rc s (BlockParentHash b) = Inr p))"
          proof (cases "h = NumberU64 toBlock")
            case True
            with b3 pred a3 \<open>FetchBlock rc s (BlockParentHash toBlock) = Inr p\<close> show ?thesis
              by auto
          next
            case False
            with h np have "h \<le> NumberU64 p"
              using word_le_pred_unat [of h "NumberU64 toBlock" "NumberU64 p"] by simp
            with h a4 show ?thesis by blast
          qed
        qed
        from call Inr b1 b2 b3 b4 show ?thesis by simp
      qed
    qed
  qed
qed

lemma batchesLoop_heights_in_map:
  assumes "batchesLoop rc hdr hs mp 0 txs ch ct = Inr bs" "i < length txs"
  shows "i < length hs \<and> mp (hs ! i) \<noteq> None"
proof -
  from batchesLoop_nth [OF assms] obtain ch0 ct0 ch1 ct1 where
    "decompressBatch rc hdr hs mp (0 + i) (txs ! i) ch0 ct0 = Inr (bs ! i, ch1, ct1)"
    by blast
  from decompressBatch_Inr [OF this] show ?thesis by auto
qed

text \<open>
  C8 (as amended). Let the storage number its blocks consistently (the parent of a stored
  block has the number of the block minus one), let it hold the block of
  \<^verbatim>\<open>compressionL1Head\<close>, and let the minimum \<open>m\<close> of the L1 heights computed from the deltas
  be below \<open>2 ^ 63\<close>. Then \<^verbatim>\<open>calcL1AncestorsOfHeight\<close> returns. If it returns an error, that
  is the error of a lookup of the parent of a stored block, and \<^verbatim>\<open>createIncompleteBatches\<close>
  returns it. If it returns a map, the head is not below \<open>m\<close>, the map holds exactly the
  heights from \<open>m\<close> to the height of the head, each block above \<open>m\<close> with its parent one
  height below, and so every referenced height that is not above the head. A referenced
  height above the head is not in the map, and \<^verbatim>\<open>createIncompleteBatches\<close> then returns an
  error.
\<close>

theorem C8_l1_ancestors:
  assumes wf: "\<forall>h b p. FetchBlock rc s h = Inr b \<longrightarrow> FetchBlock rc s (BlockParentHash b) = Inr p
                 \<longrightarrow> unat (NumberU64 p) + 1 = unat (NumberU64 b)"
    and head: "FetchBlock rc s head = Inr blk"
    and hs: "calculateL1HeightsFromDeltas hdr txs = Inr hs"
    and m: "slicesMin hs = Inr m"
    and range: "m < 2 ^ 63"
  shows "\<exists>r. calcL1AncestorsOfHeight rc s (NewInt m) blk Map.empty = Some r
    \<and> (case r of
         Inl e \<Rightarrow>
           (\<exists>b h. FetchBlock rc s h = Inr b \<and> FetchBlock rc s (BlockParentHash b) = Inl e)
           \<and> createIncompleteBatches rc s hdr txs head = Some (Inl e)
       | Inr mp \<Rightarrow>
           m \<le> NumberU64 blk \<and> mp (NumberU64 blk) = Some blk
           \<and> dom mp = {h. m \<le> h \<and> h \<le> NumberU64 blk}
           \<and> (\<forall>h. m < h \<and> h \<le> NumberU64 blk \<longrightarrow>
                 (\<exists>b p. mp h = Some b \<and> mp (h - 1) = Some p
                    \<and> FetchBlock rc s (BlockParentHash b) = Inr p))
           \<and> (\<forall>h\<in>set hs. h \<le> NumberU64 blk \<longrightarrow> (\<exists>b. mp h = Some b \<and> NumberU64 b = h))
           \<and> ((\<exists>i<length txs. NumberU64 blk < hs ! i) \<longrightarrow>
                (\<exists>e. createIncompleteBatches rc s hdr txs head = Some (Inl e))))"
proof -
  have target: "Uint64 (NewInt m) = m"
    using range by (rule Uint64_NewInt)
  from head have st: "\<exists>h. FetchBlock rc s h = Inr blk" by blast
  from calc_walk [OF wf st refl, of "NewInt m" Map.empty, unfolded target] obtain r where
    r: "calcL1AncestorsOfHeight rc s (NewInt m) blk Map.empty = Some r" and
    rp: "case r of
          Inl e \<Rightarrow> (\<exists>b h. FetchBlock rc s h = Inr b \<and> FetchBlock rc s (BlockParentHash b) = Inl e)
        | Inr mp \<Rightarrow>
            m \<le> NumberU64 blk
            \<and> (\<forall>h. h < m \<or> NumberU64 blk < h \<longrightarrow> mp h = Map.empty h)
            \<and> mp (NumberU64 blk) = Some blk
            \<and> (\<forall>h. m \<le> h \<and> h \<le> NumberU64 blk \<longrightarrow>
                  (\<exists>b. mp h = Some b \<and> NumberU64 b = h
                     \<and> (m < h \<longrightarrow>
                          (\<exists>p. mp (h - 1) = Some p
                             \<and> FetchBlock rc s (BlockParentHash b) = Inr p))))"
    by blast
  show ?thesis
  proof (cases r)
    case (Inl e)
    with r head hs m have "createIncompleteBatches rc s hdr txs head = Some (Inl e)"
      by (simp add: createIncompleteBatches_def)
    with Inl r rp show ?thesis by auto
  next
    case (Inr mp)
    with rp have
      a1: "m \<le> NumberU64 blk" and
      a2: "\<forall>h. h < m \<or> NumberU64 blk < h \<longrightarrow> mp h = None" and
      a3: "mp (NumberU64 blk) = Some blk" and
      a4: "\<forall>h. m \<le> h \<and> h \<le> NumberU64 blk \<longrightarrow>
                  (\<exists>b. mp h = Some b \<and> NumberU64 b = h
                     \<and> (m < h \<longrightarrow>
                          (\<exists>p. mp (h - 1) = Some p
                             \<and> FetchBlock rc s (BlockParentHash b) = Inr p)))"
      by simp_all
    have d: "dom mp = {h. m \<le> h \<and> h \<le> NumberU64 blk}"
    proof (rule set_eqI)
      fix h
      show "h \<in> dom mp \<longleftrightarrow> h \<in> {h. m \<le> h \<and> h \<le> NumberU64 blk}"
      proof (cases "m \<le> h \<and> h \<le> NumberU64 blk")
        case True
        with a4 show ?thesis by auto
      next
        case False
        then have "h < m \<or> NumberU64 blk < h" by auto
        with a2 False show ?thesis by auto
      qed
    qed
    have links: "\<forall>h. m < h \<and> h \<le> NumberU64 blk \<longrightarrow>
                 (\<exists>b p. mp h = Some b \<and> mp (h - 1) = Some p
                    \<and> FetchBlock rc s (BlockParentHash b) = Inr p)"
    proof (intro allI impI)
      fix h assume h: "m < h \<and> h \<le> NumberU64 blk"
      then have "m \<le> h \<and> h \<le> NumberU64 blk" by auto
      with a4 h show "\<exists>b p. mp h = Some b \<and> mp (h - 1) = Some p
                    \<and> FetchBlock rc s (BlockParentHash b) = Inr p"
        by blast
    qed
    have refs: "\<forall>h\<in>set hs. h \<le> NumberU64 blk \<longrightarrow> (\<exists>b. mp h = Some b \<and> NumberU64 b = h)"
    proof (intro ballI impI)
      fix h assume "h \<in> set hs" "h \<le> NumberU64 blk"
      with slicesMin_le [OF m] have "m \<le> h \<and> h \<le> NumberU64 blk" by simp
      with a4 show "\<exists>b. mp h = Some b \<and> NumberU64 b = h" by blast
    qed
    have cib: "createIncompleteBatches rc s hdr txs head =
                 Some (batchesLoop rc hdr hs mp 0 txs (Int64 (FirstCanonBatchHeight hdr) - 1)
                         (StartTime hdr))"
      using r Inr head hs m by (simp add: createIncompleteBatches_def)
    have above: "(\<exists>i<length txs. NumberU64 blk < hs ! i) \<longrightarrow>
                   (\<exists>e. createIncompleteBatches rc s hdr txs head = Some (Inl e))"
    proof
      assume "\<exists>i<length txs. NumberU64 blk < hs ! i"
      then obtain i where i: "i < length txs" "NumberU64 blk < hs ! i" by blast
      with a2 have none: "mp (hs ! i) = None" by simp
      show "\<exists>e. createIncompleteBatches rc s hdr txs head = Some (Inl e)"
      proof (cases "batchesLoop rc hdr hs mp 0 txs (Int64 (FirstCanonBatchHeight hdr) - 1)
                      (StartTime hdr)")
        case (Inl e)
        with cib show ?thesis by simp
      next
        case (Inr bs)
        from batchesLoop_heights_in_map [OF Inr i(1)] none show ?thesis by simp
      qed
    qed
    from r Inr a1 a3 d links refs above show ?thesis by simp
  qed
qed

lemma node1_blocks_consistent:
  "\<forall>h b p. FetchBlock rc1 node1 h = Inr b \<longrightarrow> FetchBlock rc1 node1 (BlockParentHash b) = Inr p
     \<longrightarrow> unat (NumberU64 p) + 1 = unat (NumberU64 b)"
  by (auto simp: rc1_def memNode_def node1_def lookup_def NumberU64_def Uint64_def
           split: if_splits)

theorem C8_witness:
  "FetchBlock rc1 node1 107 = Inr block7
   \<and> calculateL1HeightsFromDeltas header1 txs1 = Inr [6, 7]
   \<and> slicesMin [6, 7] = Inr 6
   \<and> (\<exists>mp. calcL1AncestorsOfHeight rc1 node1 (NewInt 6) block7 Map.empty = Some (Inr mp)
         \<and> dom mp = {h. 6 \<le> h \<and> h \<le> 7}
         \<and> mp 7 = Some block7
         \<and> (\<exists>b. mp 6 = Some b \<and> NumberU64 b = 6))"
proof -
  have head: "FetchBlock rc1 node1 107 = Inr block7"
    by (simp add: rc1_def memNode_def node1_def lookup_def block7_def)
  have hs: "calculateL1HeightsFromDeltas header1 txs1 = Inr [6, 7]"
    by (simp add: calculateL1HeightsFromDeltas_def header1_def txs1_def index_def GobDecode_def
          Uint64_def Int64_def)
  have m: "slicesMin [6, 7 :: u64] = Inr 6"
    by (simp add: slicesMin_def)
  have range: "(6 :: u64) < 2 ^ 63" by simp
  have n7: "NumberU64 block7 = 7"
    by (simp add: NumberU64_def block7_def Uint64_def)
  have ok: "calcL1AncestorsOfHeight rc1 node1 (NewInt 6) block7 Map.empty
              = Some (Inr [7 \<mapsto> block7, 6 \<mapsto> block6])"
    by (simp add: calcL1AncestorsOfHeight.simps rc1_def memNode_def node1_def lookup_def
          block7_def block6_def NumberU64_def Uint64_def NewInt_def)
  from C8_l1_ancestors [OF node1_blocks_consistent head hs m range] obtain r where
    r: "calcL1AncestorsOfHeight rc1 node1 (NewInt 6) block7 Map.empty = Some r" and
    rp: "case r of
         Inl e \<Rightarrow>
           (\<exists>b h. FetchBlock rc1 node1 h = Inr b \<and> FetchBlock rc1 node1 (BlockParentHash b) = Inl e)
           \<and> createIncompleteBatches rc1 node1 header1 txs1 107 = Some (Inl e)
       | Inr mp \<Rightarrow>
           6 \<le> NumberU64 block7 \<and> mp (NumberU64 block7) = Some block7
           \<and> dom mp = {h. 6 \<le> h \<and> h \<le> NumberU64 block7}
           \<and> (\<forall>h. 6 < h \<and> h \<le> NumberU64 block7 \<longrightarrow>
                 (\<exists>b p. mp h = Some b \<and> mp (h - 1) = Some p
                    \<and> FetchBlock rc1 node1 (BlockParentHash b) = Inr p))
           \<and> (\<forall>h\<in>set [6, 7]. h \<le> NumberU64 block7 \<longrightarrow> (\<exists>b. mp h = Some b \<and> NumberU64 b = h))
           \<and> ((\<exists>i<length txs1. NumberU64 block7 < [6, 7] ! i) \<longrightarrow>
                (\<exists>e. createIncompleteBatches rc1 node1 header1 txs1 107 = Some (Inl e)))"
    by blast
  from r ok have req: "r = Inr [7 \<mapsto> block7, 6 \<mapsto> block6]" by simp
  from rp [unfolded req sum.case n7] have
    d: "dom [7 \<mapsto> block7, 6 \<mapsto> block6] = {h :: u64. 6 \<le> h \<and> h \<le> 7}" and
    top: "[7 \<mapsto> block7, 6 \<mapsto> block6] (7 :: u64) = Some block7" and
    refs: "\<forall>h\<in>set [6, 7 :: u64]. h \<le> 7 \<longrightarrow>
          (\<exists>b. [7 \<mapsto> block7, 6 \<mapsto> block6] h = Some b \<and> NumberU64 b = h)"
    by blast+
  from refs have low: "\<exists>b. [7 \<mapsto> block7, 6 \<mapsto> block6] (6 :: u64) = Some b \<and> NumberU64 b = 6"
    by simp
  from head hs m ok d top low show ?thesis by blast
qed

text \<open>
  C8 as stated fails when a batch refers to an L1 height above the head: with the head at
  height 6 and the referenced heights 5 and 7 the walk returns the map of the heights 5
  and 6, which does not hold height 7, and \<^verbatim>\<open>createIncompleteBatches\<close> returns the error
  "L1 block not retrieved".
\<close>

theorem C8_counterexample:
  "FetchBlock rc1 node1 106 = Inr block6
   \<and> calculateL1HeightsFromDeltas header57 txs1 = Inr [5, 7]
   \<and> slicesMin [5, 7] = Inr 5
   \<and> calcL1AncestorsOfHeight rc1 node1 (NewInt 5) block6 Map.empty
       = Some (Inr [6 \<mapsto> block6, 5 \<mapsto> block5])
   \<and> [6 \<mapsto> block6, 5 \<mapsto> block5] (7 :: u64) = None
   \<and> createIncompleteBatches rc1 node1 header57 txs1 106 = Some (Inl ErrL1BlockNotRetrieved)"
  by (simp add: concrete_eval rc1_def node1_def header57_def header1_def txs1_def
        block5_def block6_def)

subsection \<open>Processing a rollup twice\<close>

lemma retains_refl: "retains rc s s"
  by (simp add: retains_def)

lemma retains_trans: "retains rc s s' \<Longrightarrow> retains rc s' s'' \<Longrightarrow> retains rc s s''"
  unfolding retains_def by (metis)

lemma calc_mono_state:
  assumes eq: "\<forall>h. FetchBlock rc s' h = FetchBlock rc s h"
    and run: "calcL1AncestorsOfHeight rc s fromH toBlock path = Some y"
  shows "calcL1AncestorsOfHeight rc s' fromH toBlock path = Some y"
proof -
  have "rc = rc \<and> s = s \<longrightarrow> calcL1AncestorsOfHeight rc s' fromH toBlock path = Some y"
  proof (rule calcL1AncestorsOfHeight.raw_induct
           [where P = "\<lambda>rc0 s0 f b p y. rc0 = rc \<and> s0 = s
                         \<longrightarrow> calcL1AncestorsOfHeight rc s' f b p = Some y", OF _ run])
    fix calc :: "'a RollupCompression \<Rightarrow> 'a \<Rightarrow> int \<Rightarrow> Block \<Rightarrow> (u64 \<rightharpoonup> Block)
                   \<Rightarrow> (error + (u64 \<rightharpoonup> Block)) option"
    fix rc0 s0 fromH toBlock path y
    assume ih: "\<And>rc1 s1 f b p y. calc rc1 s1 f b p = Some y \<Longrightarrow>
                  rc1 = rc \<and> s1 = s \<longrightarrow> calcL1AncestorsOfHeight rc s' f b p = Some y"
    assume body: "(if NumberU64 toBlock = Uint64 fromH
                   then Some (Inr (path(NumberU64 toBlock \<mapsto> toBlock)))
                   else case FetchBlock rc0 s0 (BlockParentHash toBlock) of
                          Inl err \<Rightarrow> Some (Inl err)
                        | Inr p \<Rightarrow> calc rc0 s0 fromH p (path(NumberU64 toBlock \<mapsto> toBlock)))
                  = Some y"
    show "rc0 = rc \<and> s0 = s \<longrightarrow> calcL1AncestorsOfHeight rc s' fromH toBlock path = Some y"
    proof
      assume a: "rc0 = rc \<and> s0 = s"
      show "calcL1AncestorsOfHeight rc s' fromH toBlock path = Some y"
      proof (cases "NumberU64 toBlock = Uint64 fromH")
        case True
        with body show ?thesis
          by (subst calcL1AncestorsOfHeight.simps) simp
      next
        case False
        show ?thesis
        proof (cases "FetchBlock rc s (BlockParentHash toBlock)")
          case (Inl e)
          with False body a eq show ?thesis
            by (subst calcL1AncestorsOfHeight.simps) simp
        next
          case (Inr p)
          with False body a have
            "calc rc s fromH p (path(NumberU64 toBlock \<mapsto> toBlock)) = Some y"
            by simp
          from ih [OF this] have
            "calcL1AncestorsOfHeight rc s' fromH p (path(NumberU64 toBlock \<mapsto> toBlock)) = Some y"
            by simp
          with False Inr eq show ?thesis
            by (subst calcL1AncestorsOfHeight.simps) simp
        qed
      qed
    qed
  qed
  then show ?thesis by simp
qed

lemma calc_cong_state:
  assumes eq: "\<forall>h. FetchBlock rc s' h = FetchBlock rc s h"
  shows "calcL1AncestorsOfHeight rc s' fromH toBlock path
           = calcL1AncestorsOfHeight rc s fromH toBlock path"
proof (cases "calcL1AncestorsOfHeight rc s fromH toBlock path")
  case (Some y)
  with calc_mono_state [OF eq] show ?thesis by simp
next
  case None
  show ?thesis
  proof (cases "calcL1AncestorsOfHeight rc s' fromH toBlock path")
    case None
    with \<open>calcL1AncestorsOfHeight rc s fromH toBlock path = None\<close> show ?thesis by simp
  next
    case (Some y)
    from eq have "\<forall>h. FetchBlock rc s h = FetchBlock rc s' h" by simp
    from calc_mono_state [OF this Some] None show ?thesis by simp
  qed
qed

lemma createIncompleteBatches_cong_state:
  assumes eq: "\<forall>h. FetchBlock rc s' h = FetchBlock rc s h"
  shows "createIncompleteBatches rc s' hdr txs head = createIncompleteBatches rc s hdr txs head"
  using eq by (simp add: createIncompleteBatches_def calc_cong_state [OF eq] split: sum.splits)

lemma saveIncompleteBatch_retains:
  assumes law: "storesBySeqNo rc"
    and step: "saveIncompleteBatch rc hdr ib p s = (s', r)"
  shows "retains rc s s'"
proof -
  have sb: "retains rc s s'" if "StoreBatch rc s b = Inr s'" for s b s'
    using law that unfolding storesBySeqNo_def by auto
  have se: "retains rc s s'" if "StoreExecutedBatch rc s b r = Inr s'" for s b r s'
    using law that unfolding storesBySeqNo_def by auto
  have co: "retains rc s s'" if "Commit rc s cb f = Inr s'" for s cb f s'
    using law that unfolding storesBySeqNo_def by auto
  have ob: "retains rc s (OnBatchExecuted rc s b)" for s b
    using law unfolding storesBySeqNo_def by auto
  have ge: "retains rc s s'" if "CreateGenesisState rc s l t cb bf = Inr (g, s')"
    for s l t cb bf g s'
    using law that unfolding storesBySeqNo_def by auto
  show ?thesis
  proof (cases "FetchBatchBySeqNo rc s (Uint64 (seqNo ib))")
    case (Inr b)
    with step show ?thesis by (simp add: saveIncompleteBatch_def retains_refl)
  next
    case (Inl err)
    show ?thesis
    proof (cases "errorsIs err ErrNotFound")
      case False
      with Inl step show ?thesis by (simp add: saveIncompleteBatch_def retains_refl)
    next
      case True
      show ?thesis
      proof (cases "header ib")
        case (Some h)
        with Inl True step show ?thesis
          by (auto simp: saveIncompleteBatch_def retains_refl split: sum.splits dest: sb)
      next
        case None
        show ?thesis
        proof (cases "Uint64 (seqNo ib) = L2GenesisSeqNo rc")
          case g: True
          show ?thesis
          proof (cases "CreateGenesisState rc s (l1Proof ib) (time ib)
                          (CalldataRollupHeader.Coinbase hdr) (CalldataRollupHeader.BaseFee hdr)")
            case (Inl e)
            with \<open>FetchBatchBySeqNo rc s (Uint64 (seqNo ib)) = Inl err\<close> True None g step
            show ?thesis by (simp add: saveIncompleteBatch_def retains_refl)
          next
            case (Inr gs)
            obtain genBatch s1 where gs: "gs = (genBatch, s1)" by (cases gs)
            from ge Inr gs have r1: "retains rc s s1" by blast
            show ?thesis
            proof (cases "StoreBatch rc s1 genBatch")
              case (Inl e)
              with \<open>FetchBatchBySeqNo rc s (Uint64 (seqNo ib)) = Inl err\<close> True None g Inr gs step r1
              show ?thesis by (simp add: saveIncompleteBatch_def)
            next
              case s2: (Inr s2)
              from sb s2 r1 have r2: "retains rc s s2" by (blast intro: retains_trans)
              show ?thesis
              proof (cases "StoreExecutedBatch rc s2 genBatch []")
                case (Inl e)
                with \<open>FetchBatchBySeqNo rc s (Uint64 (seqNo ib)) = Inl err\<close> True None g Inr gs s2 step r2
                show ?thesis by (simp add: saveIncompleteBatch_def)
              next
                case s3: (Inr s3)
                from se s3 r2 have "retains rc s s3" by (blast intro: retains_trans)
                with ob have "retains rc s (OnBatchExecuted rc s3 genBatch)"
                  by (blast intro: retains_trans)
                with \<open>FetchBatchBySeqNo rc s (Uint64 (seqNo ib)) = Inl err\<close> True None g Inr gs s2 s3 step
                show ?thesis by (simp add: saveIncompleteBatch_def)
              qed
            qed
          qed
        next
          case g: False
          show ?thesis
          proof (cases "computeBatch rc s (l1Proof ib) p (transactions ib) (time ib) (seqNo ib)
                          (coinbase ib) (baseFee ib)")
            case (Inl e)
            with \<open>FetchBatchBySeqNo rc s (Uint64 (seqNo ib)) = Inl err\<close> True None g step
            show ?thesis by (simp add: saveIncompleteBatch_def retains_refl)
          next
            case (Inr cb)
            show ?thesis
            proof (cases "Commit rc s cb True")
              case (Inl e)
              with \<open>FetchBatchBySeqNo rc s (Uint64 (seqNo ib)) = Inl err\<close> True None g Inr step
              show ?thesis by (simp add: saveIncompleteBatch_def retains_refl)
            next
              case s1: (Inr s1)
              from co s1 have r1: "retains rc s s1" by blast
              show ?thesis
              proof (cases "StoreBatch rc s1 (Batch cb)")
                case (Inl e)
                with \<open>FetchBatchBySeqNo rc s (Uint64 (seqNo ib)) = Inl err\<close> True None g Inr s1 step r1
                show ?thesis by (simp add: saveIncompleteBatch_def)
              next
                case s2: (Inr s2)
                from sb s2 r1 have r2: "retains rc s s2" by (blast intro: retains_trans)
                show ?thesis
                proof (cases "StoreExecutedBatch rc s2 (Batch cb) (Receipts cb)")
                  case (Inl e)
                  with \<open>FetchBatchBySeqNo rc s (Uint64 (seqNo ib)) = Inl err\<close> True None g Inr s1 s2 step r2
                  show ?thesis by (simp add: saveIncompleteBatch_def)
                next
                  case s3: (Inr s3)
                  from se s3 r2 have "retains rc s s3" by (blast intro: retains_trans)
                  with ob have "retains rc s (OnBatchExecuted rc s3 (Batch cb))"
                    by (blast intro: retains_trans)
                  with \<open>FetchBatchBySeqNo rc s (Uint64 (seqNo ib)) = Inl err\<close> True None g Inr s1 s2 s3 step
                  show ?thesis by (simp add: saveIncompleteBatch_def)
                qed
              qed
            qed
          qed
        qed
      qed
    qed
  qed
qed

lemma retains_found:
  "retains rc s s' \<Longrightarrow> FetchBatchBySeqNo rc s k = Inr b \<Longrightarrow>
     \<exists>b'. FetchBatchBySeqNo rc s' k = Inr b'"
  unfolding retains_def by blast

lemma saveIncompleteBatch_found:
  assumes law: "storesBySeqNo rc"
    and step: "saveIncompleteBatch rc hdr ib p s = (s', Inr p')"
    and wfh: "\<forall>h. header ib = Some h \<longrightarrow> Uint64 (SequencerOrderNo h) = Uint64 (seqNo ib)"
  shows "\<exists>b. FetchBatchBySeqNo rc s' (Uint64 (seqNo ib)) = Inr b"
proof -
  have sb: "retains rc s s' \<and> (\<exists>b'. FetchBatchBySeqNo rc s' (Uint64 (SeqNo b)) = Inr b')"
    if "StoreBatch rc s b = Inr s'" for s b s'
    using law that unfolding storesBySeqNo_def by auto
  have se: "retains rc s s'" if "StoreExecutedBatch rc s b r = Inr s'" for s b r s'
    using law that unfolding storesBySeqNo_def by auto
  have ob: "retains rc s (OnBatchExecuted rc s b)" for s b
    using law unfolding storesBySeqNo_def by auto
  have ge: "Uint64 (SeqNo g) = L2GenesisSeqNo rc"
    if "CreateGenesisState rc s l t cb bf = Inr (g, s')" for s l t cb bf g s'
    using law that unfolding storesBySeqNo_def by auto
  have cp: "Uint64 (SeqNo (Batch cb)) = Uint64 (SequencerNo ctx)"
    if "ComputeBatch rc s ctx f = Inr cb" for s ctx f cb
    using law that unfolding storesBySeqNo_def by auto
  have after: "\<exists>b'. FetchBatchBySeqNo rc (OnBatchExecuted rc s3 b) k = Inr b'"
    if "StoreBatch rc s1 b = Inr s2" "StoreExecutedBatch rc s2 b r = Inr s3" "Uint64 (SeqNo b) = k"
    for s1 s2 s3 b r k
  proof -
    from sb [OF that(1)] that(3) obtain b1 where "FetchBatchBySeqNo rc s2 k = Inr b1" by auto
    from retains_found [OF se [OF that(2)] this] obtain b2 where
      "FetchBatchBySeqNo rc s3 k = Inr b2" by blast
    from retains_found [OF ob this] show ?thesis .
  qed
  show ?thesis
  proof (cases "FetchBatchBySeqNo rc s (Uint64 (seqNo ib))")
    case (Inr b)
    with step show ?thesis by (auto simp: saveIncompleteBatch_def)
  next
    case (Inl err)
    with step have nf: "errorsIs err ErrNotFound"
      by (auto simp: saveIncompleteBatch_def split: if_splits)
    show ?thesis
    proof (cases "header ib")
      case (Some h)
      with Inl nf step have
        "StoreBatch rc s \<lparr>Batch.Header = h, Batch.Transactions = transactions ib\<rparr> = Inr s'"
        by (auto simp: saveIncompleteBatch_def split: sum.splits)
      from sb [OF this] wfh Some show ?thesis by (simp add: SeqNo_def)
    next
      case None
      show ?thesis
      proof (cases "Uint64 (seqNo ib) = L2GenesisSeqNo rc")
        case True
        with Inl nf None step obtain g s1 s2 s3 where
          g: "CreateGenesisState rc s (l1Proof ib) (time ib)
                (CalldataRollupHeader.Coinbase hdr) (CalldataRollupHeader.BaseFee hdr) = Inr (g, s1)"
             "StoreBatch rc s1 g = Inr s2" "StoreExecutedBatch rc s2 g [] = Inr s3"
             "s' = OnBatchExecuted rc s3 g"
          by (auto simp: saveIncompleteBatch_def split: sum.splits prod.splits)
        from ge [OF g(1)] True have "Uint64 (SeqNo g) = Uint64 (seqNo ib)" by simp
        from after [OF g(2,3) this] g(4) show ?thesis by simp
      next
        case False
        with Inl nf None step obtain cb s1 s2 s3 where
          c: "computeBatch rc s (l1Proof ib) p (transactions ib) (time ib) (seqNo ib)
                (coinbase ib) (baseFee ib) = Inr cb"
             "StoreBatch rc s1 (Batch cb) = Inr s2"
             "StoreExecutedBatch rc s2 (Batch cb) (Receipts cb) = Inr s3"
             "s' = OnBatchExecuted rc s3 (Batch cb)"
          by (auto simp: saveIncompleteBatch_def split: sum.splits prod.splits)
        from cp [OF c(1) [unfolded computeBatch_def]]
        have "Uint64 (SeqNo (Batch cb)) = Uint64 (seqNo ib)" by simp
        from after [OF c(2,3) this] c(4) show ?thesis by simp
      qed
    qed
  qed
qed

lemma saveLoop_retains:
  assumes law: "storesBySeqNo rc"
  shows "saveLoop rc hdr ibs p s = (s', r) \<Longrightarrow> retains rc s s'"
proof (induction ibs arbitrary: p s)
  case Nil
  then show ?case by (simp add: retains_refl)
next
  case (Cons ib ibs)
  obtain s1 r1 where step: "saveIncompleteBatch rc hdr ib p s = (s1, r1)"
    by (cases "saveIncompleteBatch rc hdr ib p s")
  note r1 = saveIncompleteBatch_retains [OF law step]
  show ?case
  proof (cases r1)
    case (Inl e)
    with step Cons.prems r1 show ?thesis by simp
  next
    case (Inr p1)
    with step Cons.prems have "saveLoop rc hdr ibs p1 s1 = (s', r)" by simp
    from Cons.IH [OF this] r1 show ?thesis by (rule retains_trans [rotated])
  qed
qed

lemma saveLoop_found:
  assumes law: "storesBySeqNo rc"
  shows "saveLoop rc hdr ibs p s = (s', Inr p') \<Longrightarrow>
     \<forall>ib\<in>set ibs. \<forall>h. header ib = Some h \<longrightarrow> Uint64 (SequencerOrderNo h) = Uint64 (seqNo ib) \<Longrightarrow>
     \<forall>ib\<in>set ibs. \<exists>b. FetchBatchBySeqNo rc s' (Uint64 (seqNo ib)) = Inr b"
proof (induction ibs arbitrary: p s)
  case Nil
  then show ?case by simp
next
  case (Cons ib ibs)
  from Cons.prems(1) obtain s1 p1 where
    step: "saveIncompleteBatch rc hdr ib p s = (s1, Inr p1)" and
    rest: "saveLoop rc hdr ibs p1 s1 = (s', Inr p')"
    by (auto split: prod.splits sum.splits)
  from Cons.prems(2) have
    w0: "\<forall>h. header ib = Some h \<longrightarrow> Uint64 (SequencerOrderNo h) = Uint64 (seqNo ib)" and
    w1: "\<forall>ib\<in>set ibs. \<forall>h. header ib = Some h \<longrightarrow> Uint64 (SequencerOrderNo h) = Uint64 (seqNo ib)"
    by simp_all
  from saveIncompleteBatch_found [OF law step w0] obtain b where
    "FetchBatchBySeqNo rc s1 (Uint64 (seqNo ib)) = Inr b" by blast
  from retains_found [OF saveLoop_retains [OF law rest] this]
  have "\<exists>b. FetchBatchBySeqNo rc s' (Uint64 (seqNo ib)) = Inr b" .
  with Cons.IH [OF rest w1] show ?case by simp
qed

lemma saveIncompleteBatch_skip:
  "FetchBatchBySeqNo rc s (Uint64 (seqNo ib)) = Inr b \<Longrightarrow>
     saveIncompleteBatch rc hdr ib p s = (s, Inr (if header ib = None then Hash rc b else p))"
  by (simp add: saveIncompleteBatch_def)

lemma saveLoop_skip:
  "\<forall>ib\<in>set ibs. \<exists>b. FetchBatchBySeqNo rc s (Uint64 (seqNo ib)) = Inr b \<Longrightarrow>
     \<exists>p'. saveLoop rc hdr ibs p s = (s, Inr p')"
proof (induction ibs arbitrary: p)
  case Nil
  then show ?case by simp
next
  case (Cons ib ibs)
  from Cons.prems obtain b where b: "FetchBatchBySeqNo rc s (Uint64 (seqNo ib)) = Inr b"
    by auto
  from Cons.prems have "\<forall>ib\<in>set ibs. \<exists>b. FetchBatchBySeqNo rc s (Uint64 (seqNo ib)) = Inr b"
    by simp
  from Cons.IH [OF this] saveIncompleteBatch_skip [OF b] show ?case by simp
qed

lemma ProcessExtRollup_Inr:
  assumes "ProcessExtRollup rc s rollup = Some (s1, Inr hdr)"
  obtains txs ibs where
    "decryptDecompressAndDeserialise rc (DecodeTransactions rc) (BatchPayloads rollup) = Inr txs"
    "decryptDecompressAndDeserialise rc (DecodeCalldataHeader rc)
       (ExtRollup.CalldataRollupHeader rollup) = Inr hdr"
    "createIncompleteBatches rc s hdr txs (CompressionL1Head (ExtRollup.Header rollup))
       = Some (Inr ibs)"
    "executeAndSaveIncompleteBatches rc hdr ibs s = (s1, None)"
  using assms
  by (auto simp: ProcessExtRollup_def split: sum.splits option.splits prod.splits)

text \<open>
  C9 (as amended). Let the collaborators store by sequence number (\<open>storesBySeqNo\<close>), let
  a first call of \<^verbatim>\<open>ProcessExtRollup\<close> succeed and leave the state \<open>s1\<close>, and let every reorg
  header carried in the rollup have the sequence number of its position. Then a second
  call on \<open>s1\<close> returns the same header and leaves \<open>s1\<close> as it is: for every batch the lookup
  by sequence number succeeds and the iteration takes the skip path, which changes no
  state and adopts the hash of the stored batch as \<^verbatim>\<open>parentHash\<close> when the batch is not a
  reorg.
\<close>

theorem C9_second_call_skips:
  assumes law: "storesBySeqNo rc"
    and first: "ProcessExtRollup rc s rollup = Some (s1, Inr hdr)"
    and reorgs: "\<forall>txs ibs.
        decryptDecompressAndDeserialise rc (DecodeTransactions rc) (BatchPayloads rollup) = Inr txs
        \<longrightarrow> createIncompleteBatches rc s hdr txs (CompressionL1Head (ExtRollup.Header rollup))
              = Some (Inr ibs)
        \<longrightarrow> (\<forall>ib\<in>set ibs. \<forall>h. header ib = Some h
                \<longrightarrow> Uint64 (SequencerOrderNo h) = Uint64 (seqNo ib))"
  shows "ProcessExtRollup rc s1 rollup = Some (s1, Inr hdr)
       \<and> (\<exists>txs ibs.
            decryptDecompressAndDeserialise rc (DecodeTransactions rc) (BatchPayloads rollup) = Inr txs
            \<and> createIncompleteBatches rc s1 hdr txs (CompressionL1Head (ExtRollup.Header rollup))
                = Some (Inr ibs)
            \<and> (\<forall>ib\<in>set ibs. \<exists>b. FetchBatchBySeqNo rc s1 (Uint64 (seqNo ib)) = Inr b
                  \<and> (\<forall>p. saveIncompleteBatch rc hdr ib p s1
                           = (s1, Inr (if header ib = None then Hash rc b else p)))))"
proof -
  let ?head = "CompressionL1Head (ExtRollup.Header rollup)"
  from first obtain txs ibs where
    txs: "decryptDecompressAndDeserialise rc (DecodeTransactions rc) (BatchPayloads rollup) = Inr txs" and
    hdr: "decryptDecompressAndDeserialise rc (DecodeCalldataHeader rc)
            (ExtRollup.CalldataRollupHeader rollup) = Inr hdr" and
    cib: "createIncompleteBatches rc s hdr txs ?head = Some (Inr ibs)" and
    run: "executeAndSaveIncompleteBatches rc hdr ibs s = (s1, None)"
    by (rule ProcessExtRollup_Inr)
  from reorgs txs cib have
    wf: "\<forall>ib\<in>set ibs. \<forall>h. header ib = Some h \<longrightarrow> Uint64 (SequencerOrderNo h) = Uint64 (seqNo ib)"
    by blast
  from run obtain p' where
    loop: "saveLoop rc hdr ibs (FirstCanonParentHash hdr) s = (s1, Inr p')" and
    parent: "Uint64 (FirstBatchSequence hdr) \<noteq> L2GenesisSeqNo rc \<longrightarrow>
               (\<exists>b. FetchBatch rc s (FirstCanonParentHash hdr) = Inr b)"
    by (auto simp: executeAndSaveIncompleteBatches_def Let_def
             split: if_splits sum.splits prod.splits option.splits)
  have keep: "retains rc s s1"
    using saveLoop_retains [OF law loop] .
  have found: "\<forall>ib\<in>set ibs. \<exists>b. FetchBatchBySeqNo rc s1 (Uint64 (seqNo ib)) = Inr b"
    using saveLoop_found [OF law loop wf] .
  from keep have blocks: "\<forall>h. FetchBlock rc s1 h = FetchBlock rc s h"
    by (simp add: retains_def)
  have cib1: "createIncompleteBatches rc s1 hdr txs ?head = Some (Inr ibs)"
    using cib createIncompleteBatches_cong_state [OF blocks] by simp
  from keep parent have parent1:
    "Uint64 (FirstBatchSequence hdr) \<noteq> L2GenesisSeqNo rc \<longrightarrow>
       (\<exists>b. FetchBatch rc s1 (FirstCanonParentHash hdr) = Inr b)"
    unfolding retains_def by blast
  from saveLoop_skip [OF found] obtain p1 where
    "saveLoop rc hdr ibs (FirstCanonParentHash hdr) s1 = (s1, Inr p1)" by blast
  with parent1 have run1: "executeAndSaveIncompleteBatches rc hdr ibs s1 = (s1, None)"
    by (auto simp: executeAndSaveIncompleteBatches_def Let_def)
  have again: "ProcessExtRollup rc s1 rollup = Some (s1, Inr hdr)"
    using txs hdr cib1 run1 by (simp add: ProcessExtRollup_def)
  have skips: "\<forall>ib\<in>set ibs. \<exists>b. FetchBatchBySeqNo rc s1 (Uint64 (seqNo ib)) = Inr b
                  \<and> (\<forall>p. saveIncompleteBatch rc hdr ib p s1
                           = (s1, Inr (if header ib = None then Hash rc b else p)))"
  proof
    fix ib assume "ib \<in> set ibs"
    with found obtain b where b: "FetchBatchBySeqNo rc s1 (Uint64 (seqNo ib)) = Inr b"
      by blast
    from saveIncompleteBatch_skip [OF b] b
    show "\<exists>b. FetchBatchBySeqNo rc s1 (Uint64 (seqNo ib)) = Inr b
                  \<and> (\<forall>p. saveIncompleteBatch rc hdr ib p s1
                           = (s1, Inr (if header ib = None then Hash rc b else p)))"
      by blast
  qed
  from again txs cib1 skips show ?thesis by blast
qed

lemma memNode_storesBySeqNo: "storesBySeqNo (memNode hdr0 txs0 reorg0)"
  unfolding storesBySeqNo_def retains_def
  by (auto simp: memNode_def lookup_def memComputeBatch_def memCreateGenesisState_def
        SeqNo_def Uint64_def split: option.splits)

lemma process_rc2_node1: "ProcessExtRollup rc2 node1 ext2 = Some (node7, Inr header2)"
proof -
  have c: "createIncompleteBatches rc2 node1 header2 txs2 107 = Some (Inr [ib5, ib6, ib7])"
    by (simp add: concrete_eval rc2_def node1_def header2_def txs2_def ib5_def ib6_def ib7_def)
  have l: "saveLoop rc2 header2 [ib5, ib6, ib7] 1040 node1 = (node7, Inr 1070)"
    by (simp add: rc2_def concrete_save)
  have p: "FetchBatch rc2 node1 1040 = Inr batch4"
    by (simp add: rc2_def concrete_save)
  have d: "decryptDecompressAndDeserialise rc2 (DecodeTransactions rc2) (BatchPayloads ext2) = Inr txs2"
      "decryptDecompressAndDeserialise rc2 (DecodeCalldataHeader rc2)
         (ExtRollup.CalldataRollupHeader ext2) = Inr header2"
      "CompressionL1Head (ExtRollup.Header ext2) = 107"
      "FirstCanonParentHash header2 = 1040"
    by (simp_all add: decryptDecompressAndDeserialise_def rc2_def memNode_def ext2_def header2_def)
  have e: "executeAndSaveIncompleteBatches rc2 header2 [ib5, ib6, ib7] node1 = (node7, None)"
    by (simp add: executeAndSaveIncompleteBatches_def d l p del: saveLoop.simps)
  show ?thesis
    by (simp add: ProcessExtRollup_def d c e)
qed

theorem C9_witness:
  "ProcessExtRollup rc2 node1 ext2 = Some (node7, Inr header2)
   \<and> ProcessExtRollup rc2 node7 ext2 = Some (node7, Inr header2)
   \<and> createIncompleteBatches rc2 node7 header2 txs2 107 = Some (Inr [ib5, ib6, ib7])
   \<and> (\<exists>b. FetchBatchBySeqNo rc2 node7 (Uint64 (seqNo ib6)) = Inr b
          \<and> saveIncompleteBatch rc2 header2 ib6 1050 node7 = (node7, Inr 1050))
   \<and> (\<exists>b. FetchBatchBySeqNo rc2 node7 (Uint64 (seqNo ib7)) = Inr b
          \<and> saveIncompleteBatch rc2 header2 ib7 1050 node7 = (node7, Inr (Hash rc2 b)))"
proof -
  have d: "decryptDecompressAndDeserialise rc2 (DecodeTransactions rc2) (BatchPayloads ext2) = Inr txs2"
      "CompressionL1Head (ExtRollup.Header ext2) = 107"
    by (simp_all add: decryptDecompressAndDeserialise_def rc2_def memNode_def ext2_def)
  have c: "createIncompleteBatches rc2 node1 header2 txs2 107 = Some (Inr [ib5, ib6, ib7])"
    by (simp add: concrete_eval rc2_def node1_def header2_def txs2_def ib5_def ib6_def ib7_def)
  have law: "storesBySeqNo rc2"
    unfolding rc2_def by (rule memNode_storesBySeqNo)
  have reorgs: "\<forall>txs ibs.
        decryptDecompressAndDeserialise rc2 (DecodeTransactions rc2) (BatchPayloads ext2) = Inr txs
        \<longrightarrow> createIncompleteBatches rc2 node1 header2 txs (CompressionL1Head (ExtRollup.Header ext2))
              = Some (Inr ibs)
        \<longrightarrow> (\<forall>ib\<in>set ibs. \<forall>h. header ib = Some h
                \<longrightarrow> Uint64 (SequencerOrderNo h) = Uint64 (seqNo ib))"
    by (auto simp: d c ib5_def ib6_def ib7_def reorgHeader6_def)
  from C9_second_call_skips [OF law process_rc2_node1 reorgs] obtain txs ibs where
    again: "ProcessExtRollup rc2 node7 ext2 = Some (node7, Inr header2)" and
    t: "decryptDecompressAndDeserialise rc2 (DecodeTransactions rc2) (BatchPayloads ext2) = Inr txs" and
    i: "createIncompleteBatches rc2 node7 header2 txs (CompressionL1Head (ExtRollup.Header ext2))
          = Some (Inr ibs)" and
    sk: "\<forall>ib\<in>set ibs. \<exists>b. FetchBatchBySeqNo rc2 node7 (Uint64 (seqNo ib)) = Inr b
                  \<and> (\<forall>p. saveIncompleteBatch rc2 header2 ib p node7
                           = (node7, Inr (if header ib = None then Hash rc2 b else p)))"
    by blast
  from t d have "txs = txs2" by simp
  have c7: "createIncompleteBatches rc2 node7 header2 txs2 107 = Some (Inr [ib5, ib6, ib7])"
    by (simp add: concrete_eval rc2_def node7_def node6_def node5_def node1_def header2_def txs2_def
          ib5_def ib6_def ib7_def)
  with i \<open>txs = txs2\<close> d have "ibs = [ib5, ib6, ib7]" by simp
  with sk have
    "\<exists>b. FetchBatchBySeqNo rc2 node7 (Uint64 (seqNo ib6)) = Inr b
         \<and> (\<forall>p. saveIncompleteBatch rc2 header2 ib6 p node7
                  = (node7, Inr (if header ib6 = None then Hash rc2 b else p)))"
    "\<exists>b. FetchBatchBySeqNo rc2 node7 (Uint64 (seqNo ib7)) = Inr b
         \<and> (\<forall>p. saveIncompleteBatch rc2 header2 ib7 p node7
                  = (node7, Inr (if header ib7 = None then Hash rc2 b else p)))"
    by simp_all
  then have
    "\<exists>b. FetchBatchBySeqNo rc2 node7 (Uint64 (seqNo ib6)) = Inr b
          \<and> saveIncompleteBatch rc2 header2 ib6 1050 node7 = (node7, Inr 1050)"
    "\<exists>b. FetchBatchBySeqNo rc2 node7 (Uint64 (seqNo ib7)) = Inr b
          \<and> saveIncompleteBatch rc2 header2 ib7 1050 node7 = (node7, Inr (Hash rc2 b))"
    by (auto simp: ib6_def ib7_def)
  with process_rc2_node1 again c7 show ?thesis by blast
qed

text \<open>
  C9 as stated fails for a rollup that carries a reorg header with another sequence
  number than that of its position: the first call stores the batch under the sequence
  number 99 of its header, so on the second call the lookup of the sequence number 5
  misses and the batch is stored again.
\<close>

theorem C9_counterexample:
  "ProcessExtRollup rc99 node1 ext2 = Some (node99, Inr header99)
   \<and> FetchBatchBySeqNo rc99 node99 5 = Inl ErrNotFound
   \<and> ProcessExtRollup rc99 node99 ext2 = Some (node99', Inr header99)
   \<and> node99' \<noteq> node99"
proof -
  have d: "decryptDecompressAndDeserialise rc99 (DecodeTransactions rc99) (BatchPayloads ext2) = Inr [[8]]"
      "decryptDecompressAndDeserialise rc99 (DecodeCalldataHeader rc99)
         (ExtRollup.CalldataRollupHeader ext2) = Inr header99"
      "CompressionL1Head (ExtRollup.Header ext2) = 107"
    by (simp_all add: decryptDecompressAndDeserialise_def rc99_def memNode_def ext2_def)
  let ?ib = "\<lparr>transactions = [8], seqNo = 5, height = 2, txHash = 9, time = 1000, l1Proof = 106,
              coinbase = 9, baseFee = 1, gasLimit = 0, header = Some reorgHeader99\<rparr>"
  have c1: "createIncompleteBatches rc99 node1 header99 [[8]] 107 = Some (Inr [?ib])"
    by (simp add: concrete_eval rc99_def node1_def header99_def)
  have c2: "createIncompleteBatches rc99 node99 header99 [[8]] 107 = Some (Inr [?ib])"
    by (simp add: concrete_eval rc99_def node99_def node1_def header99_def)
  have e1: "executeAndSaveIncompleteBatches rc99 header99 [?ib] node1 = (node99, None)"
    by (simp add: executeAndSaveIncompleteBatches_def rc99_def header99_def node99_def batch99_def
          reorgHeader99_def concrete_save)
  have e2: "executeAndSaveIncompleteBatches rc99 header99 [?ib] node99 = (node99', None)"
    by (simp add: executeAndSaveIncompleteBatches_def rc99_def header99_def node99_def node99'_def
          batch99_def reorgHeader99_def concrete_save)
  have nf: "FetchBatchBySeqNo rc99 node99 5 = Inl ErrNotFound"
    by (simp add: rc99_def node99_def batch99_def reorgHeader99_def concrete_save)
  have ne: "node99' \<noteq> node99"
    by (simp add: node99'_def node99_def node1_def)
  from d c1 c2 e1 e2 nf ne show ?thesis
    by (simp add: ProcessExtRollup_def)
qed

subsection \<open>From the batches to the rollup and back\<close>

lemma Int64_NewInt [simp]: "Int64 (NewInt w) = w"
  by (simp add: Int64_def NewInt_def)

lemma NewInt_Int64_range:
  "- (2 ^ 63) \<le> x \<Longrightarrow> x < 2 ^ 63 \<Longrightarrow> NewInt (Int64 x) = x"
  by (simp add: Int64_def NewInt_def sint_word_of_int_64)

lemma Uint64_nonneg: "0 \<le> x \<Longrightarrow> Uint64 x = Int64 x"
  by (simp add: Uint64_def Int64_def)

lemma sint_Int64_nonneg: "0 \<le> x \<Longrightarrow> x < 2 ^ 63 \<Longrightarrow> 0 \<le> sint (Int64 x)"
  by (simp add: Int64_def sint_word_of_int_64)

lemma builder_deltas:
  assumes hdr: "createRollupHeader rc ss r = Inr hdr"
    and len: "length pbs = length (Batches r)"
    and pbs: "\<forall>i<length (Batches r). Blocks r (L1Proof (Batch.Header (Batches r ! i))) = Some (pbs ! i)"
  shows "length (BatchTimeDeltas hdr) = length (Batches r)"
    and "length (L1HeightDeltas hdr) = length (Batches r)"
    and "\<forall>i<length (Batches r). \<exists>d. GobDecode (BatchTimeDeltas hdr ! i) = Inr d
            \<and> (if i = 0 then StartTime hdr else Time (Batch.Header (Batches r ! (i - 1)))) + Int64 d
                = Time (Batch.Header (Batches r ! i))"
    and "GobDecode (L1HeightDeltas hdr ! 0) = Inr (BlockNumber (pbs ! 0))"
    and "\<forall>i. 0 < i \<and> i < length (Batches r) \<longrightarrow>
           (\<exists>e. GobDecode (L1HeightDeltas hdr ! i) = Inr e
              \<and> Int64 e + Int64 (BlockNumber (pbs ! (i - 1))) = Int64 (BlockNumber (pbs ! i)))"
proof -
  let ?bs = "Batches r"
  from hdr obtain rb reorgs dts hds reorgsBA where
    ne: "?bs \<noteq> []" and
    cl: "compressLoop (reorgMap rb) (Blocks r) 0 ?bs (Time (Batch.Header (?bs ! 0))) None
           = Inr (reorgs, dts, hds)" and
    l1: "gobEncodeAll hds = Inr (L1HeightDeltas hdr)" and
    td: "gobEncodeAll dts = Inr (BatchTimeDeltas hdr)" and
    st: "StartTime hdr = Time (Batch.Header (?bs ! 0))"
    by (rule createRollupHeader_Inr)
  note c = compressLoop_Inr [OF cl]
  note e1 = gobEncodeAll_Inr [OF l1]
  note e2 = gobEncodeAll_Inr [OF td]
  from c have lens: "length dts = length ?bs" "length hds = length ?bs" by simp_all
  from ne have pos: "0 < length ?bs" by simp
  show "length (BatchTimeDeltas hdr) = length ?bs" using e2 lens by simp
  show "length (L1HeightDeltas hdr) = length ?bs" using e1 lens by simp
  show "\<forall>i<length ?bs. \<exists>d. GobDecode (BatchTimeDeltas hdr ! i) = Inr d
            \<and> (if i = 0 then StartTime hdr else Time (Batch.Header (?bs ! (i - 1)))) + Int64 d
                = Time (Batch.Header (?bs ! i))"
  proof (intro allI impI)
    fix i assume i: "i < length ?bs"
    from c i have dt: "dts ! i = NewInt (Time (Batch.Header (?bs ! i))
                       - (if i = 0 then Time (Batch.Header (?bs ! 0))
                          else Time (Batch.Header (?bs ! (i - 1)))))"
      by blast
    from e2 lens i have "GobEncode (dts ! i) = Inr (BatchTimeDeltas hdr ! i)" by simp
    then have "GobDecode (BatchTimeDeltas hdr ! i) = Inr (dts ! i)" by (rule GobDecode_GobEncode)
    moreover have "(if i = 0 then StartTime hdr else Time (Batch.Header (?bs ! (i - 1))))
                     + Int64 (dts ! i) = Time (Batch.Header (?bs ! i))"
      using dt st by simp
    ultimately show "\<exists>d. GobDecode (BatchTimeDeltas hdr ! i) = Inr d
            \<and> (if i = 0 then StartTime hdr else Time (Batch.Header (?bs ! (i - 1)))) + Int64 d
                = Time (Batch.Header (?bs ! i))"
      by blast
  qed
  show "GobDecode (L1HeightDeltas hdr ! 0) = Inr (BlockNumber (pbs ! 0))"
  proof -
    from c pos pbs have "hds ! 0 = BlockNumber (pbs ! 0)" by auto
    moreover from e1 lens pos have "GobEncode (hds ! 0) = Inr (L1HeightDeltas hdr ! 0)" by simp
    ultimately show ?thesis using GobDecode_GobEncode by simp
  qed
  show "\<forall>i. 0 < i \<and> i < length ?bs \<longrightarrow>
           (\<exists>e. GobDecode (L1HeightDeltas hdr ! i) = Inr e
              \<and> Int64 e + Int64 (BlockNumber (pbs ! (i - 1))) = Int64 (BlockNumber (pbs ! i)))"
  proof (intro allI impI)
    fix i assume i: "0 < i \<and> i < length ?bs"
    then have i1: "i - 1 < length ?bs" by arith
    from c i obtain blk pb where
      b: "Blocks r (L1Proof (Batch.Header (?bs ! i))) = Some blk"
         "Blocks r (L1Proof (Batch.Header (?bs ! (i - 1)))) = Some pb"
         "hds ! i = NewInt (Int64 (BlockNumber blk) - Int64 (BlockNumber pb))"
      by (metis less_numeral_extra(3))
    from b(1,2) pbs i i1 have "blk = pbs ! i" "pb = pbs ! (i - 1)" by auto
    with b(3) have h: "hds ! i = NewInt (Int64 (BlockNumber (pbs ! i)) - Int64 (BlockNumber (pbs ! (i - 1))))"
      by simp
    from e1 lens i have "GobEncode (hds ! i) = Inr (L1HeightDeltas hdr ! i)" by simp
    then have "GobDecode (L1HeightDeltas hdr ! i) = Inr (hds ! i)" by (rule GobDecode_GobEncode)
    moreover have "Int64 (hds ! i) + Int64 (BlockNumber (pbs ! (i - 1))) = Int64 (BlockNumber (pbs ! i))"
      using h by simp
    ultimately show "\<exists>e. GobDecode (L1HeightDeltas hdr ! i) = Inr e
              \<and> Int64 e + Int64 (BlockNumber (pbs ! (i - 1))) = Int64 (BlockNumber (pbs ! i))"
      by blast
  qed
qed

lemma builder_reorgs:
  assumes hdr: "createRollupHeader rc ss r = Inr hdr"
    and rb: "FetchNonCanonicalBatchesBetween rc ss (Uint64 (SeqNo (Batches r ! 0)))
               (Uint64 (SeqNo (Batches r ! (length (Batches r) - 1)))) = Inr rb"
    and codec: "\<forall>i<length (Batches r). reorgMap rb (Uint64 (SeqNo (Batches r ! i))) \<longrightarrow>
                  (\<forall>enc. EncodeBatchHeader rc (Batch.Header (Batches r ! i)) = Inr enc \<longrightarrow>
                     enc \<noteq> [] \<and> DecodeBatchHeader rc enc = Inr (Batch.Header (Batches r ! i)))"
    and i: "i < length (Batches r)"
  shows "reorgHeaderAt rc hdr i =
           Inr (if reorgMap rb (Uint64 (SeqNo (Batches r ! i)))
                then Some (Batch.Header (Batches r ! i)) else None)"
proof -
  from hdr obtain rb' reorgs dts hds reorgsBA where
    rb': "FetchNonCanonicalBatchesBetween rc ss (Uint64 (SeqNo (Batches r ! 0)))
           (Uint64 (SeqNo (Batches r ! (length (Batches r) - 1)))) = Inr rb'" and
    cl: "compressLoop (reorgMap rb') (Blocks r) 0 (Batches r)
           (Time (Batch.Header (Batches r ! 0))) None = Inr (reorgs, dts, hds)" and
    ba: "transformToByteArray rc reorgs = Inr reorgsBA" and
    ro: "ReOrgs hdr = (if length rb' = 0 then None else Some reorgsBA)"
    by (rule createRollupHeader_Inr)
  from rb rb' have same: "rb' = rb" by simp
  note c = compressLoop_Inr [OF cl [unfolded same]]
  note t = transformToByteArray_Inr [OF ba]
  from c i have r: "reorgs ! i =
      (if reorgMap rb (Uint64 (SeqNo (Batches r ! i)))
       then Some (Batch.Header (Batches r ! i)) else None)"
    by blast
  from t c i have enc:
    "case reorgs ! i of Some h \<Rightarrow> EncodeBatchHeader rc h = Inr (reorgsBA ! i)
     | None \<Rightarrow> reorgsBA ! i = []"
    by simp
  from t c have len: "length reorgsBA = length (Batches r)" by simp
  show ?thesis
  proof (cases "rb = []")
    case True
    then have "\<not> reorgMap rb (Uint64 (SeqNo (Batches r ! i)))"
      by (simp add: reorgMap_iff)
    with True ro same show ?thesis by (simp add: reorgHeaderAt_def)
  next
    case False
    with ro same have ro': "ReOrgs hdr = Some reorgsBA" by simp
    show ?thesis
    proof (cases "reorgMap rb (Uint64 (SeqNo (Batches r ! i)))")
      case True
      with r enc have e: "EncodeBatchHeader rc (Batch.Header (Batches r ! i)) = Inr (reorgsBA ! i)"
        by simp
      with codec i True have "reorgsBA ! i \<noteq> []"
        "DecodeBatchHeader rc (reorgsBA ! i) = Inr (Batch.Header (Batches r ! i))"
        by blast+
      with ro' len i True show ?thesis
        by (auto simp: reorgHeaderAt_def index_def)
    next
      case False
      with r enc have "reorgsBA ! i = []" by simp
      with ro' len i False show ?thesis
        by (auto simp: reorgHeaderAt_def index_def)
    qed
  qed
qed

lemma heightsLoop_telescope:
  assumes "\<forall>j. idx \<le> j \<and> j < idx + length ts \<longrightarrow>
             j < length (L1HeightDeltas hdr)
             \<and> (\<exists>e. GobDecode (L1HeightDeltas hdr ! j) = Inr e \<and> Int64 e + H (j - 1) = H j)
             \<and> 0 \<le> sint (H j)"
    and "0 < idx"
  shows "heightsLoop hdr idx ts (H (idx - 1)) acc = Inr (acc @ map H [idx..<idx + length ts])"
  using assms
proof (induction ts arbitrary: idx acc)
  case Nil
  then show ?case by simp
next
  case (Cons t ts)
  from Cons.prems(1) have here:
    "idx < length (L1HeightDeltas hdr)"
    "\<exists>e. GobDecode (L1HeightDeltas hdr ! idx) = Inr e \<and> Int64 e + H (idx - 1) = H idx"
    "0 \<le> sint (H idx)"
    by simp_all
  then obtain e where e: "GobDecode (L1HeightDeltas hdr ! idx) = Inr e" "Int64 e + H (idx - 1) = H idx"
    by blast
  have rest: "\<forall>j. idx + 1 \<le> j \<and> j < idx + 1 + length ts \<longrightarrow>
             j < length (L1HeightDeltas hdr)
             \<and> (\<exists>e. GobDecode (L1HeightDeltas hdr ! j) = Inr e \<and> Int64 e + H (j - 1) = H j)
             \<and> 0 \<le> sint (H j)"
    using Cons.prems(1) by simp
  have "heightsLoop hdr (idx + 1) ts (H (idx + 1 - 1)) (acc @ [H idx])
          = Inr ((acc @ [H idx]) @ map H [idx + 1..<idx + 1 + length ts])"
    by (rule Cons.IH [OF rest]) simp
  moreover have "[idx..<idx + length (t # ts)] = idx # [idx + 1..<idx + 1 + length ts]"
    by (subst upt_rec) simp
  ultimately have "heightsLoop hdr (idx + 1) ts (H idx) (acc @ [H idx])
          = Inr (acc @ map H [idx..<idx + length (t # ts)])"
    by simp
  with here e Cons.prems(2) show ?case
    by (simp add: index_def Let_def)
qed

lemma calculate_heights:
  assumes len: "length pbs = length txs" "txs \<noteq> []"
    and d0: "0 < length (L1HeightDeltas hdr)"
            "GobDecode (L1HeightDeltas hdr ! 0) = Inr (BlockNumber (pbs ! 0))"
    and ds: "\<forall>i. 0 < i \<and> i < length txs \<longrightarrow>
               i < length (L1HeightDeltas hdr)
               \<and> (\<exists>e. GobDecode (L1HeightDeltas hdr ! i) = Inr e
                    \<and> Int64 e + Int64 (BlockNumber (pbs ! (i - 1))) = Int64 (BlockNumber (pbs ! i)))"
    and range: "\<forall>i<length txs. 0 \<le> BlockNumber (pbs ! i) \<and> BlockNumber (pbs ! i) < 2 ^ 63"
  shows "calculateL1HeightsFromDeltas hdr txs = Inr (map NumberU64 pbs)"
proof -
  let ?H = "\<lambda>j. NumberU64 (pbs ! j)"
  from len obtain t ts where txs: "txs = t # ts" by (cases txs) auto
  have H: "?H j = Int64 (BlockNumber (pbs ! j))" if "j < length txs" for j
    using range that by (simp add: NumberU64_def Uint64_nonneg)
  have cond: "\<forall>j. 1 \<le> j \<and> j < 1 + length ts \<longrightarrow>
             j < length (L1HeightDeltas hdr)
             \<and> (\<exists>e. GobDecode (L1HeightDeltas hdr ! j) = Inr e \<and> Int64 e + ?H (j - 1) = ?H j)
             \<and> 0 \<le> sint (?H j)"
  proof (intro allI impI)
    fix j assume j: "1 \<le> j \<and> j < 1 + length ts"
    then have j': "0 < j \<and> j < length txs" "j < length txs" "j - 1 < length txs"
      using txs by auto
    from ds j'(1) obtain e where
      e: "j < length (L1HeightDeltas hdr)" "GobDecode (L1HeightDeltas hdr ! j) = Inr e"
         "Int64 e + Int64 (BlockNumber (pbs ! (j - 1))) = Int64 (BlockNumber (pbs ! j))"
      by blast
    from range j'(2) have "0 \<le> sint (Int64 (BlockNumber (pbs ! j)))"
      by (simp add: sint_Int64_nonneg)
    with e H [OF j'(2)] H [OF j'(3)]
    show "j < length (L1HeightDeltas hdr)
             \<and> (\<exists>e. GobDecode (L1HeightDeltas hdr ! j) = Inr e \<and> Int64 e + ?H (j - 1) = ?H j)
             \<and> 0 \<le> sint (?H j)"
      by auto
  qed
  have "heightsLoop hdr 1 ts (?H (1 - 1)) [?H 0] = Inr ([?H 0] @ map ?H [1..<1 + length ts])"
    by (rule heightsLoop_telescope [OF cond]) simp
  moreover have "[0..<length txs] = 0 # [1..<1 + length ts]"
    using txs by (subst upt_rec) simp
  ultimately have loop: "heightsLoop hdr 1 ts (?H 0) [?H 0] = Inr (map ?H [0..<length txs])"
    by simp
  have "map ?H [0..<length pbs] = map NumberU64 (map (\<lambda>i. pbs ! i) [0..<length pbs])"
    by simp
  also have "\<dots> = map NumberU64 pbs"
    by (simp only: map_nth)
  finally have "map ?H [0..<length txs] = map NumberU64 pbs"
    using len(1) by simp
  with loop have loop': "heightsLoop hdr 1 ts (?H 0) [?H 0] = Inr (map NumberU64 pbs)" by simp
  have ref: "Uint64 (BlockNumber (pbs ! 0)) = ?H 0"
    by (simp add: NumberU64_def)
  show ?thesis
    using d0 loop' txs ref by (simp add: calculateL1HeightsFromDeltas_def index_def)
qed

lemma batchesLoop_succeeds:
  assumes "\<forall>j. idx \<le> j \<and> j < idx + length ts \<longrightarrow>
             j < length hs \<and> mp (hs ! j) \<noteq> None
             \<and> j < length (BatchTimeDeltas hdr)
             \<and> (\<exists>d. GobDecode (BatchTimeDeltas hdr ! j) = Inr d)
             \<and> (\<exists>rh. reorgHeaderAt rc hdr j = Inr rh)"
  shows "\<exists>bs. batchesLoop rc hdr hs mp idx ts ch ct = Inr bs"
  using assms
proof (induction ts arbitrary: idx ch ct)
  case Nil
  then show ?case by simp
next
  case (Cons t ts)
  have "idx \<le> idx \<and> idx < idx + length (t # ts)" by simp
  with Cons.prems have
    "idx < length hs \<and> mp (hs ! idx) \<noteq> None
       \<and> idx < length (BatchTimeDeltas hdr)
       \<and> (\<exists>d. GobDecode (BatchTimeDeltas hdr ! idx) = Inr d)
       \<and> (\<exists>rh. reorgHeaderAt rc hdr idx = Inr rh)"
    by blast
  then obtain blk d rh where
    here: "idx < length hs" "mp (hs ! idx) = Some blk" "idx < length (BatchTimeDeltas hdr)"
          "GobDecode (BatchTimeDeltas hdr ! idx) = Inr d" "reorgHeaderAt rc hdr idx = Inr rh"
    by auto
  then obtain b ch' ct' where
    step: "decompressBatch rc hdr hs mp idx t ch ct = Inr (b, ch', ct')"
    by (simp add: decompressBatch_def index_def Let_def)
  have rest: "\<forall>j. idx + 1 \<le> j \<and> j < idx + 1 + length ts \<longrightarrow>
             j < length hs \<and> mp (hs ! j) \<noteq> None
             \<and> j < length (BatchTimeDeltas hdr)
             \<and> (\<exists>d. GobDecode (BatchTimeDeltas hdr ! j) = Inr d)
             \<and> (\<exists>rh. reorgHeaderAt rc hdr j = Inr rh)"
    using Cons.prems by simp
  from Cons.IH [OF rest, of ch' ct'] obtain bs where
    "batchesLoop rc hdr hs mp (idx + 1) ts ch' ct' = Inr bs" by blast
  with step show ?case by simp
qed

lemma batchesLoop_times:
  assumes "batchesLoop rc hdr hs mp idx ts ch ct = Inr bs"
    and "\<forall>j<length ts. \<forall>d. GobDecode (BatchTimeDeltas hdr ! (idx + j)) = Inr d \<longrightarrow>
           (if j = 0 then ct else T (idx + j - 1)) + Int64 d = T (idx + j)"
  shows "\<forall>k<length ts. time (bs ! k) = T (idx + k)"
  using assms
proof (induction ts arbitrary: idx ch ct bs)
  case Nil
  then show ?case by simp
next
  case (Cons t ts)
  from Cons.prems(1) obtain b ch' ct' bs' where
    step: "decompressBatch rc hdr hs mp idx t ch ct = Inr (b, ch', ct')" and
    rest: "batchesLoop rc hdr hs mp (idx + 1) ts ch' ct' = Inr bs'" and
    bs: "bs = b # bs'"
    by (rule batchesLoop_Cons_Inr)
  from decompressBatch_Inr [OF step] obtain d where
    d: "GobDecode (BatchTimeDeltas hdr ! idx) = Inr d" "ct' = ct + Int64 d" "time b = ct'"
    by blast
  from Cons.prems(2) [rule_format, of 0 d] d(1) have t0: "ct + Int64 d = T idx"
    by simp
  with d have tb: "time b = T idx" "ct' = T idx" by simp_all
  have cond: "\<forall>j<length ts. \<forall>d. GobDecode (BatchTimeDeltas hdr ! (idx + 1 + j)) = Inr d \<longrightarrow>
           (if j = 0 then ct' else T (idx + 1 + j - 1)) + Int64 d = T (idx + 1 + j)"
  proof (intro allI impI)
    fix j d' assume j: "j < length ts" and g: "GobDecode (BatchTimeDeltas hdr ! (idx + 1 + j)) = Inr d'"
    from j have "Suc j < length (t # ts)" by simp
    from Cons.prems(2) [rule_format, of "Suc j" d'] this g
    have "T (idx + Suc j - 1) + Int64 d' = T (idx + Suc j)"
      by simp
    with tb show "(if j = 0 then ct' else T (idx + 1 + j - 1)) + Int64 d' = T (idx + 1 + j)"
      by auto
  qed
  note ih = Cons.IH [OF rest cond]
  show ?case
  proof (intro allI impI)
    fix k assume "k < length (t # ts)"
    then show "time (bs ! k) = T (idx + k)"
      using ih tb bs by (cases k) auto
  qed
qed

lemma reconstruct_batches:
  assumes hdr: "createRollupHeader rc ss r = Inr hdr"
    and rb: "FetchNonCanonicalBatchesBetween rc ss (Uint64 (SeqNo (Batches r ! 0)))
               (Uint64 (SeqNo (Batches r ! (length (Batches r) - 1)))) = Inr rb"
    and codec: "\<forall>i<length (Batches r). reorgMap rb (Uint64 (SeqNo (Batches r ! i))) \<longrightarrow>
                  (\<forall>enc. EncodeBatchHeader rc (Batch.Header (Batches r ! i)) = Inr enc \<longrightarrow>
                     enc \<noteq> [] \<and> DecodeBatchHeader rc enc = Inr (Batch.Header (Batches r ! i)))"
    and contiguous: "\<forall>i<length (Batches r). SeqNo (Batches r ! i) = SeqNo (Batches r ! 0) + int i"
    and seqrange: "0 \<le> SeqNo (Batches r ! 0)"
                  "SeqNo (Batches r ! 0) + int (length (Batches r)) \<le> 2 ^ 63"
    and len: "length pbs = length (Batches r)"
    and pbs: "\<forall>i<length (Batches r).
                Blocks r (L1Proof (Batch.Header (Batches r ! i))) = Some (pbs ! i)
                \<and> 0 \<le> BlockNumber (pbs ! i) \<and> BlockNumber (pbs ! i) < 2 ^ 63"
    and head: "FetchBlock rc s (CompressionL1Head (Rollup.Header r)) = Inr headBlk"
    and min: "slicesMin (map NumberU64 pbs) = Inr m"
    and walk: "calcL1AncestorsOfHeight rc s (NewInt m) headBlk Map.empty = Some (Inr mp)"
    and onchain: "\<forall>i<length (Batches r). \<exists>pb. mp (NumberU64 (pbs ! i)) = Some pb
                    \<and> (\<not> reorgMap rb (Uint64 (SeqNo (Batches r ! i)))
                         \<longrightarrow> BlockHash pb = L1Proof (Batch.Header (Batches r ! i)))"
  shows "\<exists>ibs. createIncompleteBatches rc s hdr (map Batch.Transactions (Batches r))
                  (CompressionL1Head (Rollup.Header r)) = Some (Inr ibs)
           \<and> length ibs = length (Batches r)
           \<and> (\<forall>i<length (Batches r).
                 seqNo (ibs ! i) = SeqNo (Batches r ! i)
                 \<and> time (ibs ! i) = Time (Batch.Header (Batches r ! i))
                 \<and> transactions (ibs ! i) = Batch.Transactions (Batches r ! i)
                 \<and> header (ibs ! i) =
                     (if reorgMap rb (Uint64 (SeqNo (Batches r ! i)))
                      then Some (Batch.Header (Batches r ! i)) else None)
                 \<and> (\<not> reorgMap rb (Uint64 (SeqNo (Batches r ! i)))
                      \<longrightarrow> l1Proof (ibs ! i) = L1Proof (Batch.Header (Batches r ! i)))
                 \<and> coinbase (ibs ! i) = BatchHeader.Coinbase (Batch.Header (Batches r ! 0))
                 \<and> baseFee (ibs ! i) = BatchHeader.BaseFee (Batch.Header (Batches r ! 0)))"
proof -
  let ?B = "Batches r"
  let ?txs = "map Batch.Transactions ?B"
  let ?hs = "map NumberU64 pbs"
  from hdr have ne: "?B \<noteq> []"
    and fbs: "FirstBatchSequence hdr = SeqNo (?B ! 0)"
    and cbf: "CalldataRollupHeader.Coinbase hdr = BatchHeader.Coinbase (Batch.Header (?B ! 0))"
             "CalldataRollupHeader.BaseFee hdr = BatchHeader.BaseFee (Batch.Header (?B ! 0))"
    by (auto elim: createRollupHeader_Inr)
  from pbs have blocks: "\<forall>i<length ?B. Blocks r (L1Proof (Batch.Header (?B ! i))) = Some (pbs ! i)"
    by simp
  note bd = builder_deltas [OF hdr len blocks]
  have tlen: "length ?txs = length ?B" "?txs \<noteq> []" "length pbs = length ?txs"
    using ne len by simp_all
  have heights: "calculateL1HeightsFromDeltas hdr ?txs = Inr ?hs"
  proof (rule calculate_heights [OF tlen(3) tlen(2)])
    show "0 < length (L1HeightDeltas hdr)" using bd(2) ne by simp
    show "GobDecode (L1HeightDeltas hdr ! 0) = Inr (BlockNumber (pbs ! 0))" by (rule bd(4))
    show "\<forall>i. 0 < i \<and> i < length ?txs \<longrightarrow>
               i < length (L1HeightDeltas hdr)
               \<and> (\<exists>e. GobDecode (L1HeightDeltas hdr ! i) = Inr e
                    \<and> Int64 e + Int64 (BlockNumber (pbs ! (i - 1))) = Int64 (BlockNumber (pbs ! i)))"
      using bd(2,5) by simp
    show "\<forall>i<length ?txs. 0 \<le> BlockNumber (pbs ! i) \<and> BlockNumber (pbs ! i) < 2 ^ 63"
      using pbs by simp
  qed
  have cond: "\<forall>j. 0 \<le> j \<and> j < 0 + length ?txs \<longrightarrow>
             j < length ?hs \<and> mp (?hs ! j) \<noteq> None
             \<and> j < length (BatchTimeDeltas hdr)
             \<and> (\<exists>d. GobDecode (BatchTimeDeltas hdr ! j) = Inr d)
             \<and> (\<exists>rh. reorgHeaderAt rc hdr j = Inr rh)"
  proof (intro allI impI)
    fix j assume "0 \<le> j \<and> j < 0 + length ?txs"
    then have j: "j < length ?B" by simp
    from onchain j obtain pb where "mp (NumberU64 (pbs ! j)) = Some pb" by blast
    moreover from bd(3) j obtain d where "GobDecode (BatchTimeDeltas hdr ! j) = Inr d" by blast
    moreover note builder_reorgs [OF hdr rb codec j]
    ultimately show "j < length ?hs \<and> mp (?hs ! j) \<noteq> None
             \<and> j < length (BatchTimeDeltas hdr)
             \<and> (\<exists>d. GobDecode (BatchTimeDeltas hdr ! j) = Inr d)
             \<and> (\<exists>rh. reorgHeaderAt rc hdr j = Inr rh)"
      using j len bd(1) by auto
  qed
  from batchesLoop_succeeds [OF cond] obtain ibs where
    loop: "batchesLoop rc hdr ?hs mp 0 ?txs (Int64 (FirstCanonBatchHeight hdr) - 1) (StartTime hdr)
             = Inr ibs"
    by blast
  have cib: "createIncompleteBatches rc s hdr ?txs (CompressionL1Head (Rollup.Header r)) = Some (Inr ibs)"
    using head heights min walk loop by (simp add: createIncompleteBatches_def)
  have ilen: "length ibs = length ?B"
    using batchesLoop_length [OF loop] by simp
  have tcond: "\<forall>j<length ?txs. \<forall>d. GobDecode (BatchTimeDeltas hdr ! (0 + j)) = Inr d \<longrightarrow>
           (if j = 0 then StartTime hdr else Time (Batch.Header (?B ! (0 + j - 1)))) + Int64 d
             = Time (Batch.Header (?B ! (0 + j)))"
  proof (intro allI impI)
    fix j d assume j: "j < length ?txs" and g: "GobDecode (BatchTimeDeltas hdr ! (0 + j)) = Inr d"
    from bd(3) j obtain d' where
      "GobDecode (BatchTimeDeltas hdr ! j) = Inr d'"
      "(if j = 0 then StartTime hdr else Time (Batch.Header (?B ! (j - 1)))) + Int64 d'
         = Time (Batch.Header (?B ! j))"
      by auto
    with g show "(if j = 0 then StartTime hdr else Time (Batch.Header (?B ! (0 + j - 1)))) + Int64 d
             = Time (Batch.Header (?B ! (0 + j)))"
      by (cases j) auto
  qed
  note times = batchesLoop_times [OF loop tcond, simplified]
  have fields: "seqNo (ibs ! i) = SeqNo (?B ! i)
                 \<and> time (ibs ! i) = Time (Batch.Header (?B ! i))
                 \<and> transactions (ibs ! i) = Batch.Transactions (?B ! i)
                 \<and> header (ibs ! i) =
                     (if reorgMap rb (Uint64 (SeqNo (?B ! i)))
                      then Some (Batch.Header (?B ! i)) else None)
                 \<and> (\<not> reorgMap rb (Uint64 (SeqNo (?B ! i)))
                      \<longrightarrow> l1Proof (ibs ! i) = L1Proof (Batch.Header (?B ! i)))
                 \<and> coinbase (ibs ! i) = BatchHeader.Coinbase (Batch.Header (?B ! 0))
                 \<and> baseFee (ibs ! i) = BatchHeader.BaseFee (Batch.Header (?B ! 0))"
    if i: "i < length ?B" for i
  proof -
    from i have it: "i < length ?txs" by simp
    from batchesLoop_nth [OF loop it] obtain ch0 ct0 ch1 ct1 where
      "decompressBatch rc hdr ?hs mp (0 + i) (?txs ! i) ch0 ct0 = Inr (ibs ! i, ch1, ct1)"
      by blast
    from decompressBatch_Inr [OF this] obtain blk where
      f: "mp (?hs ! i) = Some blk" "reorgHeaderAt rc hdr i = Inr (header (ibs ! i))"
         "transactions (ibs ! i) = ?txs ! i"
         "seqNo (ibs ! i) = NewInt (Int64 (FirstBatchSequence hdr) + of_nat i)"
         "l1Proof (ibs ! i) = BlockHash blk"
         "coinbase (ibs ! i) = CalldataRollupHeader.Coinbase hdr"
         "baseFee (ibs ! i) = CalldataRollupHeader.BaseFee hdr"
      by auto
    have "Int64 (FirstBatchSequence hdr) + of_nat i = Int64 (SeqNo (?B ! 0) + int i)"
      by (simp add: fbs Int64_def)
    moreover have "NewInt (Int64 (SeqNo (?B ! 0) + int i)) = SeqNo (?B ! 0) + int i"
      using seqrange i by (intro NewInt_Int64_range) auto
    ultimately have s: "seqNo (ibs ! i) = SeqNo (?B ! i)"
      using f(4) contiguous i by simp
    from times it have t: "time (ibs ! i) = Time (Batch.Header (?B ! i))" by simp
    from f(3) i have x: "transactions (ibs ! i) = Batch.Transactions (?B ! i)" by simp
    from f(2) builder_reorgs [OF hdr rb codec i] have
      h: "header (ibs ! i) = (if reorgMap rb (Uint64 (SeqNo (?B ! i)))
                              then Some (Batch.Header (?B ! i)) else None)"
      by simp
    from onchain i obtain pb where
      "mp (NumberU64 (pbs ! i)) = Some pb"
      "\<not> reorgMap rb (Uint64 (SeqNo (?B ! i))) \<longrightarrow> BlockHash pb = L1Proof (Batch.Header (?B ! i))"
      by blast
    with f(1,5) i len have
      l: "\<not> reorgMap rb (Uint64 (SeqNo (?B ! i))) \<longrightarrow> l1Proof (ibs ! i) = L1Proof (Batch.Header (?B ! i))"
      by simp
    from s t x h l f(6,7) cbf show ?thesis by simp
  qed
  from cib ilen fields show ?thesis by blast
qed

lemma save_step_fresh:
  assumes kv: "keyValueStore rc"
    and nf: "FetchBatchBySeqNo rc st (Uint64 (seqNo ib)) = Inl ErrNotFound"
    and seq: "seqNo ib = SequencerOrderNo bh"
    and how: "header ib = Some bh
              \<or> (header ib = None
                  \<and> (if Uint64 (seqNo ib) = L2GenesisSeqNo rc
                      then (\<forall>st. \<exists>g st'. CreateGenesisState rc st (l1Proof ib) (time ib)
                                (CalldataRollupHeader.Coinbase hdr) (CalldataRollupHeader.BaseFee hdr)
                                 = Inr (g, st')
                               \<and> Batch.Header g = bh)
                      else (\<forall>st. \<exists>cb. computeBatch rc st (l1Proof ib) p (transactions ib) (time ib)
                                (seqNo ib) (coinbase ib) (baseFee ib) = Inr cb
                               \<and> Batch.Header (Batch cb) = bh)))"
  shows "\<exists>st' p' b. saveIncompleteBatch rc hdr ib p st = (st', Inr p')
           \<and> FetchBatchBySeqNo rc st' (Uint64 (seqNo ib)) = Inr b \<and> Batch.Header b = bh
           \<and> (\<forall>q. q \<noteq> Uint64 (seqNo ib) \<longrightarrow> FetchBatchBySeqNo rc st' q = FetchBatchBySeqNo rc st q)
           \<and> p' = (if header ib = None then HeaderHash rc bh else p)"
proof -
  have sb: "\<exists>s'. StoreBatch rc s b = Inr s'" for s b
    using kv unfolding keyValueStore_def by auto
  have sb': "FetchBatchBySeqNo rc s' (Uint64 (SeqNo b)) = Inr b
             \<and> (\<forall>k. k \<noteq> Uint64 (SeqNo b) \<longrightarrow> FetchBatchBySeqNo rc s' k = FetchBatchBySeqNo rc s k)"
    if "StoreBatch rc s b = Inr s'" for s b s'
    using kv that unfolding keyValueStore_def by auto
  have se: "\<exists>s'. StoreExecutedBatch rc s b r = Inr s'" for s b r
    using kv unfolding keyValueStore_def by auto
  have se': "FetchBatchBySeqNo rc s' k = FetchBatchBySeqNo rc s k"
    if "StoreExecutedBatch rc s b r = Inr s'" for s b r s' k
    using kv that unfolding keyValueStore_def by auto
  have co: "\<exists>s'. Commit rc s cb True = Inr s'" for s cb
    using kv unfolding keyValueStore_def by auto
  have co': "FetchBatchBySeqNo rc s' k = FetchBatchBySeqNo rc s k"
    if "Commit rc s cb True = Inr s'" for s cb s' k
    using kv that unfolding keyValueStore_def by auto
  have ob: "FetchBatchBySeqNo rc (OnBatchExecuted rc s b) k = FetchBatchBySeqNo rc s k" for s b k
    using kv unfolding keyValueStore_def by auto
  have ge: "FetchBatchBySeqNo rc s' k = FetchBatchBySeqNo rc s k"
    if "CreateGenesisState rc s l t cb bf = Inr (g, s')" for s l t cb bf g s' k
    using kv that unfolding keyValueStore_def by auto
  have tail: "\<exists>st'. (case StoreBatch rc s1 b of
                       Inl e \<Rightarrow> (s1, Inl e)
                     | Inr s2 \<Rightarrow>
                         (case StoreExecutedBatch rc s2 b r of
                            Inl e \<Rightarrow> (s2, Inl e)
                          | Inr s3 \<Rightarrow> (OnBatchExecuted rc s3 b, Inr (Hash rc b))))
                    = (st', Inr (Hash rc b))
               \<and> FetchBatchBySeqNo rc st' (Uint64 (SeqNo b)) = Inr b
               \<and> (\<forall>q. q \<noteq> Uint64 (SeqNo b) \<longrightarrow> FetchBatchBySeqNo rc st' q = FetchBatchBySeqNo rc s1 q)"
    for s1 b r
  proof -
    from sb obtain s2 where s2: "StoreBatch rc s1 b = Inr s2" by blast
    from se obtain s3 where s3: "StoreExecutedBatch rc s2 b r = Inr s3" by blast
    from sb' [OF s2] se' [OF s3] ob [of s3 b] s2 s3 show ?thesis by simp
  qed
  from how show ?thesis
  proof
    assume h: "header ib = Some bh"
    from sb obtain s' where
      s': "StoreBatch rc st \<lparr>Batch.Header = bh, Batch.Transactions = transactions ib\<rparr> = Inr s'"
      by blast
    from sb' [OF s'] seq have
      "FetchBatchBySeqNo rc s' (Uint64 (seqNo ib))
         = Inr \<lparr>Batch.Header = bh, Batch.Transactions = transactions ib\<rparr>"
      "\<forall>q. q \<noteq> Uint64 (seqNo ib) \<longrightarrow> FetchBatchBySeqNo rc s' q = FetchBatchBySeqNo rc st q"
      by (simp_all add: SeqNo_def)
    moreover have "saveIncompleteBatch rc hdr ib p st = (s', Inr p)"
      using nf h s' by (simp add: saveIncompleteBatch_def)
    ultimately show ?thesis using h by auto
  next
    assume c: "header ib = None
                  \<and> (if Uint64 (seqNo ib) = L2GenesisSeqNo rc
                      then (\<forall>st. \<exists>g st'. CreateGenesisState rc st (l1Proof ib) (time ib)
                                (CalldataRollupHeader.Coinbase hdr) (CalldataRollupHeader.BaseFee hdr)
                                 = Inr (g, st')
                               \<and> Batch.Header g = bh)
                      else (\<forall>st. \<exists>cb. computeBatch rc st (l1Proof ib) p (transactions ib) (time ib)
                                (seqNo ib) (coinbase ib) (baseFee ib) = Inr cb
                               \<and> Batch.Header (Batch cb) = bh))"
    then have h: "header ib = None" by simp
    show ?thesis
    proof (cases "Uint64 (seqNo ib) = L2GenesisSeqNo rc")
      case True
      with c obtain g s1 where
        g: "CreateGenesisState rc st (l1Proof ib) (time ib)
              (CalldataRollupHeader.Coinbase hdr) (CalldataRollupHeader.BaseFee hdr) = Inr (g, s1)"
           "Batch.Header g = bh"
        by (metis (no_types, lifting))
      from g(2) seq have sq: "Uint64 (SeqNo g) = Uint64 (seqNo ib)" by (simp add: SeqNo_def)
      from tail [of s1 g "[]"] obtain st' where
        t: "(case StoreBatch rc s1 g of
               Inl e \<Rightarrow> (s1, Inl e)
             | Inr s2 \<Rightarrow>
                 (case StoreExecutedBatch rc s2 g [] of
                    Inl e \<Rightarrow> (s2, Inl e)
                  | Inr s3 \<Rightarrow> (OnBatchExecuted rc s3 g, Inr (Hash rc g))))
              = (st', Inr (Hash rc g))"
           "FetchBatchBySeqNo rc st' (Uint64 (SeqNo g)) = Inr g"
           "\<forall>q. q \<noteq> Uint64 (SeqNo g) \<longrightarrow> FetchBatchBySeqNo rc st' q = FetchBatchBySeqNo rc s1 q"
        by blast
      have "saveIncompleteBatch rc hdr ib p st = (st', Inr (Hash rc g))"
        using nf h True g(1) t(1) by (simp add: saveIncompleteBatch_def)
      moreover have "\<forall>q. q \<noteq> Uint64 (seqNo ib) \<longrightarrow> FetchBatchBySeqNo rc st' q = FetchBatchBySeqNo rc st q"
        using t(3) sq ge [OF g(1)] by simp
      ultimately show ?thesis
        using t(2) sq g(2) h by (auto simp: Hash_def)
    next
      case False
      with c obtain cb where
        cb: "computeBatch rc st (l1Proof ib) p (transactions ib) (time ib)
               (seqNo ib) (coinbase ib) (baseFee ib) = Inr cb"
            "Batch.Header (Batch cb) = bh"
        by (metis (no_types, lifting))
      from cb(2) seq have sq: "Uint64 (SeqNo (Batch cb)) = Uint64 (seqNo ib)" by (simp add: SeqNo_def)
      from co obtain s1 where s1: "Commit rc st cb True = Inr s1" by blast
      from tail [of s1 "Batch cb" "Receipts cb"] obtain st' where
        t: "(case StoreBatch rc s1 (Batch cb) of
               Inl e \<Rightarrow> (s1, Inl e)
             | Inr s2 \<Rightarrow>
                 (case StoreExecutedBatch rc s2 (Batch cb) (Receipts cb) of
                    Inl e \<Rightarrow> (s2, Inl e)
                  | Inr s3 \<Rightarrow> (OnBatchExecuted rc s3 (Batch cb), Inr (Hash rc (Batch cb)))))
              = (st', Inr (Hash rc (Batch cb)))"
           "FetchBatchBySeqNo rc st' (Uint64 (SeqNo (Batch cb))) = Inr (Batch cb)"
           "\<forall>q. q \<noteq> Uint64 (SeqNo (Batch cb)) \<longrightarrow>
                FetchBatchBySeqNo rc st' q = FetchBatchBySeqNo rc s1 q"
        by blast
      have "saveIncompleteBatch rc hdr ib p st = (st', Inr (Hash rc (Batch cb)))"
        using nf h False cb(1) s1 t(1) by (simp add: saveIncompleteBatch_def)
      moreover have "\<forall>q. q \<noteq> Uint64 (seqNo ib) \<longrightarrow> FetchBatchBySeqNo rc st' q = FetchBatchBySeqNo rc st q"
        using t(3) sq co' [OF s1] by simp
      ultimately show ?thesis
        using t(2) sq cb(2) h by (auto simp: Hash_def)
    qed
  qed
qed

lemma save_step:
  assumes kv: "keyValueStore rc"
    and stored: "FetchBatchBySeqNo rc st (Uint64 (seqNo ib)) = Inl ErrNotFound
                 \<or> (\<exists>b. FetchBatchBySeqNo rc st (Uint64 (seqNo ib)) = Inr b \<and> Batch.Header b = bh)"
    and seq: "seqNo ib = SequencerOrderNo bh"
    and how: "header ib = Some bh
              \<or> (header ib = None
                  \<and> (if Uint64 (seqNo ib) = L2GenesisSeqNo rc
                      then (\<forall>st. \<exists>g st'. CreateGenesisState rc st (l1Proof ib) (time ib)
                                (CalldataRollupHeader.Coinbase hdr) (CalldataRollupHeader.BaseFee hdr)
                                 = Inr (g, st')
                               \<and> Batch.Header g = bh)
                      else (\<forall>st. \<exists>cb. computeBatch rc st (l1Proof ib) p (transactions ib) (time ib)
                                (seqNo ib) (coinbase ib) (baseFee ib) = Inr cb
                               \<and> Batch.Header (Batch cb) = bh)))"
  shows "\<exists>st' p' b. saveIncompleteBatch rc hdr ib p st = (st', Inr p')
           \<and> FetchBatchBySeqNo rc st' (Uint64 (seqNo ib)) = Inr b \<and> Batch.Header b = bh
           \<and> (\<forall>q. q \<noteq> Uint64 (seqNo ib) \<longrightarrow> FetchBatchBySeqNo rc st' q = FetchBatchBySeqNo rc st q)
           \<and> p' = (if header ib = None then HeaderHash rc bh else p)"
proof (cases "FetchBatchBySeqNo rc st (Uint64 (seqNo ib)) = Inl ErrNotFound")
  case True
  from save_step_fresh [OF kv True seq how] show ?thesis .
next
  case False
  with stored obtain b where
    b: "FetchBatchBySeqNo rc st (Uint64 (seqNo ib)) = Inr b" "Batch.Header b = bh"
    by blast
  have "saveIncompleteBatch rc hdr ib p st
          = (st, Inr (if header ib = None then HeaderHash rc bh else p))"
    using b by (simp add: saveIncompleteBatch_def Hash_def)
  with b have
    "saveIncompleteBatch rc hdr ib p st
       = (st, Inr (if header ib = None then HeaderHash rc bh else p))
     \<and> FetchBatchBySeqNo rc st (Uint64 (seqNo ib)) = Inr b \<and> Batch.Header b = bh
     \<and> (\<forall>q. q \<noteq> Uint64 (seqNo ib) \<longrightarrow> FetchBatchBySeqNo rc st q = FetchBatchBySeqNo rc st q)
     \<and> (if header ib = None then HeaderHash rc bh else p)
         = (if header ib = None then HeaderHash rc bh else p)"
    by simp
  then show ?thesis
    by (intro exI)
qed

lemma last_unflagged:
  fixes k :: nat
  shows "\<not> (\<forall>j<k. fl j) \<Longrightarrow> \<exists>j<k. \<not> fl j \<and> (\<forall>l. j < l \<and> l < k \<longrightarrow> fl l)"
proof (induction k)
  case 0
  then show ?case by simp
next
  case (Suc k)
  show ?case
  proof (cases "fl k")
    case False
    then have "k < Suc k \<and> \<not> fl k \<and> (\<forall>l. k < l \<and> l < Suc k \<longrightarrow> fl l)" by auto
    then show ?thesis by blast
  next
    case True
    with Suc.prems have "\<not> (\<forall>j<k. fl j)" by (auto simp: less_Suc_eq)
    from Suc.IH [OF this] obtain j where j: "j < k" "\<not> fl j" "\<forall>l. j < l \<and> l < k \<longrightarrow> fl l"
      by blast
    with True have "j < Suc k \<and> \<not> fl j \<and> (\<forall>l. j < l \<and> l < Suc k \<longrightarrow> fl l)"
      by (auto simp: less_Suc_eq)
    then show ?thesis by blast
  qed
qed

lemma save_prefix:
  fixes B :: "Batch list" and fl :: "nat \<Rightarrow> bool"
  assumes kv: "keyValueStore rc"
    and len: "length ibs = length B"
    and fields: "\<forall>i<length B. seqNo (ibs ! i) = SeqNo (B ! i)
                   \<and> header (ibs ! i) = (if fl i then Some (Batch.Header (B ! i)) else None)"
    and distinct: "\<forall>i<length B. \<forall>j<length B. i \<noteq> j \<longrightarrow>
                     Uint64 (SeqNo (B ! i)) \<noteq> Uint64 (SeqNo (B ! j))"
    and stored: "\<forall>i<length B.
                   FetchBatchBySeqNo rc s (Uint64 (SeqNo (B ! i))) = Inl ErrNotFound
                   \<or> (\<exists>b. FetchBatchBySeqNo rc s (Uint64 (SeqNo (B ! i))) = Inr b
                          \<and> Batch.Header b = Batch.Header (B ! i))"
    and exec: "\<forall>i<length B. \<not> fl i \<longrightarrow>
                 (if Uint64 (SeqNo (B ! i)) = L2GenesisSeqNo rc
                  then (\<forall>st. \<exists>g st'. CreateGenesisState rc st (l1Proof (ibs ! i)) (time (ibs ! i))
                            (CalldataRollupHeader.Coinbase hdr) (CalldataRollupHeader.BaseFee hdr)
                             = Inr (g, st')
                           \<and> Batch.Header g = Batch.Header (B ! i))
                  else (\<forall>st. \<exists>cb. computeBatch rc st (l1Proof (ibs ! i))
                            (ParentHash (Batch.Header (B ! i))) (transactions (ibs ! i))
                            (time (ibs ! i)) (seqNo (ibs ! i)) (coinbase (ibs ! i))
                            (baseFee (ibs ! i)) = Inr cb
                           \<and> Batch.Header (Batch cb) = Batch.Header (B ! i)))"
    and first: "\<forall>i<length B. \<not> fl i \<and> (\<forall>j<i. fl j) \<longrightarrow> ParentHash (Batch.Header (B ! i)) = p0"
    and chain: "\<forall>i<length B. \<forall>j<i. \<not> fl i \<and> \<not> fl j \<and> (\<forall>l. j < l \<and> l < i \<longrightarrow> fl l)
                   \<and> Uint64 (SeqNo (B ! i)) \<noteq> L2GenesisSeqNo rc \<longrightarrow>
                  ParentHash (Batch.Header (B ! i)) = HeaderHash rc (Batch.Header (B ! j))"
    and k: "k \<le> length B"
  shows "\<exists>st p. saveLoop rc hdr (take k ibs) p0 s = (st, Inr p)
           \<and> (\<forall>i<k. \<exists>b. FetchBatchBySeqNo rc st (Uint64 (SeqNo (B ! i))) = Inr b
                      \<and> Batch.Header b = Batch.Header (B ! i))
           \<and> (\<forall>i. k \<le> i \<and> i < length B \<longrightarrow>
                  FetchBatchBySeqNo rc st (Uint64 (SeqNo (B ! i)))
                    = FetchBatchBySeqNo rc s (Uint64 (SeqNo (B ! i))))
           \<and> ((\<forall>j<k. fl j) \<longrightarrow> p = p0)
           \<and> (\<forall>j<k. \<not> fl j \<and> (\<forall>l. j < l \<and> l < k \<longrightarrow> fl l) \<longrightarrow>
                  p = HeaderHash rc (Batch.Header (B ! j)))"
  using k
proof (induction k)
  case 0
  then show ?case by simp
next
  case (Suc k)
  then have kl: "k < length B" and kle: "k \<le> length B" by simp_all
  from Suc.IH [OF kle] obtain st where
    "\<exists>p. saveLoop rc hdr (take k ibs) p0 s = (st, Inr p)
           \<and> (\<forall>i<k. \<exists>b. FetchBatchBySeqNo rc st (Uint64 (SeqNo (B ! i))) = Inr b
                      \<and> Batch.Header b = Batch.Header (B ! i))
           \<and> (\<forall>i. k \<le> i \<and> i < length B \<longrightarrow>
                  FetchBatchBySeqNo rc st (Uint64 (SeqNo (B ! i)))
                    = FetchBatchBySeqNo rc s (Uint64 (SeqNo (B ! i))))
           \<and> ((\<forall>j<k. fl j) \<longrightarrow> p = p0)
           \<and> (\<forall>j<k. \<not> fl j \<and> (\<forall>l. j < l \<and> l < k \<longrightarrow> fl l) \<longrightarrow>
                  p = HeaderHash rc (Batch.Header (B ! j)))"
    ..
  then obtain p where
    inv: "saveLoop rc hdr (take k ibs) p0 s = (st, Inr p)
           \<and> (\<forall>i<k. \<exists>b. FetchBatchBySeqNo rc st (Uint64 (SeqNo (B ! i))) = Inr b
                      \<and> Batch.Header b = Batch.Header (B ! i))
           \<and> (\<forall>i. k \<le> i \<and> i < length B \<longrightarrow>
                  FetchBatchBySeqNo rc st (Uint64 (SeqNo (B ! i)))
                    = FetchBatchBySeqNo rc s (Uint64 (SeqNo (B ! i))))
           \<and> ((\<forall>j<k. fl j) \<longrightarrow> p = p0)
           \<and> (\<forall>j<k. \<not> fl j \<and> (\<forall>l. j < l \<and> l < k \<longrightarrow> fl l) \<longrightarrow>
                  p = HeaderHash rc (Batch.Header (B ! j)))"
    ..
  from inv have run: "saveLoop rc hdr (take k ibs) p0 s = (st, Inr p)"
    by (rule conjunct1)
  from inv have i1: "\<forall>i<k. \<exists>b. FetchBatchBySeqNo rc st (Uint64 (SeqNo (B ! i))) = Inr b
                      \<and> Batch.Header b = Batch.Header (B ! i)"
    by (rule conjunct2 [THEN conjunct1])
  from inv have i2: "\<forall>i. k \<le> i \<and> i < length B \<longrightarrow>
                  FetchBatchBySeqNo rc st (Uint64 (SeqNo (B ! i)))
                    = FetchBatchBySeqNo rc s (Uint64 (SeqNo (B ! i)))"
    by (rule conjunct2 [THEN conjunct2, THEN conjunct1])
  from inv have i3: "(\<forall>j<k. fl j) \<longrightarrow> p = p0"
    by (rule conjunct2 [THEN conjunct2, THEN conjunct2, THEN conjunct1])
  from inv have i4: "\<forall>j<k. \<not> fl j \<and> (\<forall>l. j < l \<and> l < k \<longrightarrow> fl l) \<longrightarrow>
                  p = HeaderHash rc (Batch.Header (B ! j))"
    by (rule conjunct2 [THEN conjunct2, THEN conjunct2, THEN conjunct2])
  let ?ib = "ibs ! k"
  let ?bh = "Batch.Header (B ! k)"
  from fields kl have sq: "seqNo ?ib = SeqNo (B ! k)"
    and hd: "header ?ib = (if fl k then Some ?bh else None)"
    by simp_all
  have same: "FetchBatchBySeqNo rc st (Uint64 (SeqNo (B ! k)))
                = FetchBatchBySeqNo rc s (Uint64 (SeqNo (B ! k)))"
    using i2 kl by simp
  have nf: "FetchBatchBySeqNo rc st (Uint64 (seqNo ?ib)) = Inl ErrNotFound
            \<or> (\<exists>b. FetchBatchBySeqNo rc st (Uint64 (seqNo ?ib)) = Inr b \<and> Batch.Header b = ?bh)"
    using stored [rule_format, OF kl] unfolding sq same .
  have seq: "seqNo ?ib = SequencerOrderNo ?bh" using sq by (simp add: SeqNo_def)
  have parent: "p = ParentHash ?bh"
    if nfl: "\<not> fl k" and ng: "Uint64 (SeqNo (B ! k)) \<noteq> L2GenesisSeqNo rc"
  proof (cases "\<forall>j<k. fl j")
    case True
    with i3 first kl nfl show ?thesis by simp
  next
    case False
    from last_unflagged [OF False] obtain j where
      j: "j < k" "\<not> fl j" "\<forall>l. j < l \<and> l < k \<longrightarrow> fl l"
      by blast
    from i4 j have "p = HeaderHash rc (Batch.Header (B ! j))" by simp
    moreover from chain [rule_format, of k j] kl j nfl ng
    have "ParentHash ?bh = HeaderHash rc (Batch.Header (B ! j))" by simp
    ultimately show ?thesis by simp
  qed
  have how: "header ?ib = Some ?bh
              \<or> (header ?ib = None
                  \<and> (if Uint64 (seqNo ?ib) = L2GenesisSeqNo rc
                      then (\<forall>st. \<exists>g st'. CreateGenesisState rc st (l1Proof ?ib) (time ?ib)
                                (CalldataRollupHeader.Coinbase hdr) (CalldataRollupHeader.BaseFee hdr)
                                 = Inr (g, st')
                               \<and> Batch.Header g = ?bh)
                      else (\<forall>st. \<exists>cb. computeBatch rc st (l1Proof ?ib) p (transactions ?ib) (time ?ib)
                                (seqNo ?ib) (coinbase ?ib) (baseFee ?ib) = Inr cb
                               \<and> Batch.Header (Batch cb) = ?bh)))"
  proof (cases "fl k")
    case True
    with hd show ?thesis by simp
  next
    case False
    show ?thesis
    proof (cases "Uint64 (SeqNo (B ! k)) = L2GenesisSeqNo rc")
      case True
      with exec [rule_format, OF kl False] hd False sq show ?thesis by simp
    next
      case ng: False
      from parent [OF False ng] exec [rule_format, OF kl False] hd False sq ng
      show ?thesis by simp
    qed
  qed
  from save_step [OF kv nf seq how] obtain st' where
    "\<exists>p' b. saveIncompleteBatch rc hdr ?ib p st = (st', Inr p')
           \<and> FetchBatchBySeqNo rc st' (Uint64 (seqNo ?ib)) = Inr b \<and> Batch.Header b = ?bh
           \<and> (\<forall>q. q \<noteq> Uint64 (seqNo ?ib) \<longrightarrow>
                  FetchBatchBySeqNo rc st' q = FetchBatchBySeqNo rc st q)
           \<and> p' = (if header ?ib = None then HeaderHash rc ?bh else p)"
    ..
  then obtain p' where
    "\<exists>b. saveIncompleteBatch rc hdr ?ib p st = (st', Inr p')
           \<and> FetchBatchBySeqNo rc st' (Uint64 (seqNo ?ib)) = Inr b \<and> Batch.Header b = ?bh
           \<and> (\<forall>q. q \<noteq> Uint64 (seqNo ?ib) \<longrightarrow>
                  FetchBatchBySeqNo rc st' q = FetchBatchBySeqNo rc st q)
           \<and> p' = (if header ?ib = None then HeaderHash rc ?bh else p)"
    ..
  then obtain b where
    res: "saveIncompleteBatch rc hdr ?ib p st = (st', Inr p')
           \<and> FetchBatchBySeqNo rc st' (Uint64 (seqNo ?ib)) = Inr b \<and> Batch.Header b = ?bh
           \<and> (\<forall>q. q \<noteq> Uint64 (seqNo ?ib) \<longrightarrow>
                  FetchBatchBySeqNo rc st' q = FetchBatchBySeqNo rc st q)
           \<and> p' = (if header ?ib = None then HeaderHash rc ?bh else p)"
    ..
  from res have step: "saveIncompleteBatch rc hdr ?ib p st = (st', Inr p')"
    by (rule conjunct1)
  from res have fb: "FetchBatchBySeqNo rc st' (Uint64 (seqNo ?ib)) = Inr b" "Batch.Header b = ?bh"
    by (rule conjunct2 [THEN conjunct1], rule conjunct2 [THEN conjunct2, THEN conjunct1])
  from res have oth: "\<forall>q. q \<noteq> Uint64 (seqNo ?ib) \<longrightarrow>
                FetchBatchBySeqNo rc st' q = FetchBatchBySeqNo rc st q"
    by (rule conjunct2 [THEN conjunct2, THEN conjunct2, THEN conjunct1])
  from res have p': "p' = (if header ?ib = None then HeaderHash rc ?bh else p)"
    by (rule conjunct2 [THEN conjunct2, THEN conjunct2, THEN conjunct2])
  have tk: "take (Suc k) ibs = take k ibs @ [?ib]"
    using kl len by (simp add: take_Suc_conv_app_nth)
  have r: "saveLoop rc hdr (take (Suc k) ibs) p0 s = (st', Inr p')"
    unfolding tk saveLoop_append using run step by simp
  have n1: "\<forall>i<Suc k. \<exists>b. FetchBatchBySeqNo rc st' (Uint64 (SeqNo (B ! i))) = Inr b
                      \<and> Batch.Header b = Batch.Header (B ! i)"
  proof (intro allI impI)
    fix i assume "i < Suc k"
    then consider "i = k" | "i < k" by arith
    then show "\<exists>b. FetchBatchBySeqNo rc st' (Uint64 (SeqNo (B ! i))) = Inr b
                      \<and> Batch.Header b = Batch.Header (B ! i)"
    proof cases
      case 1
      with fb sq show ?thesis by simp
    next
      case 2
      with distinct kl have "Uint64 (SeqNo (B ! i)) \<noteq> Uint64 (SeqNo (B ! k))" by simp
      with oth sq have "FetchBatchBySeqNo rc st' (Uint64 (SeqNo (B ! i)))
                        = FetchBatchBySeqNo rc st (Uint64 (SeqNo (B ! i)))" by simp
      with i1 2 show ?thesis by simp
    qed
  qed
  have n2: "\<forall>i. Suc k \<le> i \<and> i < length B \<longrightarrow>
                  FetchBatchBySeqNo rc st' (Uint64 (SeqNo (B ! i)))
                    = FetchBatchBySeqNo rc s (Uint64 (SeqNo (B ! i)))"
  proof (intro allI impI)
    fix i assume a: "Suc k \<le> i \<and> i < length B"
    with distinct kl have "Uint64 (SeqNo (B ! i)) \<noteq> Uint64 (SeqNo (B ! k))" by simp
    with oth sq have "FetchBatchBySeqNo rc st' (Uint64 (SeqNo (B ! i)))
                        = FetchBatchBySeqNo rc st (Uint64 (SeqNo (B ! i)))" by simp
    with i2 a show "FetchBatchBySeqNo rc st' (Uint64 (SeqNo (B ! i)))
                      = FetchBatchBySeqNo rc s (Uint64 (SeqNo (B ! i)))" by simp
  qed
  have n3: "(\<forall>j<Suc k. fl j) \<longrightarrow> p' = p0"
    using i3 p' hd by (auto simp: less_Suc_eq)
  have n4: "\<forall>j<Suc k. \<not> fl j \<and> (\<forall>l. j < l \<and> l < Suc k \<longrightarrow> fl l) \<longrightarrow>
                  p' = HeaderHash rc (Batch.Header (B ! j))"
  proof (intro allI impI)
    fix j assume jl: "j < Suc k" and a: "\<not> fl j \<and> (\<forall>l. j < l \<and> l < Suc k \<longrightarrow> fl l)"
    show "p' = HeaderHash rc (Batch.Header (B ! j))"
    proof (cases "fl k")
      case True
      with a jl have jk: "j < k" by (cases "j = k") auto
      from a have "\<not> fl j \<and> (\<forall>l. j < l \<and> l < k \<longrightarrow> fl l)" by simp
      with i4 jk have "p = HeaderHash rc (Batch.Header (B ! j))" by simp
      with p' hd True show ?thesis by simp
    next
      case False
      have "j = k"
      proof (rule ccontr)
        assume "j \<noteq> k"
        with jl have "j < k \<and> k < Suc k" by simp
        with a have "fl k" by blast
        with False show False by simp
      qed
      with p' hd False show ?thesis by simp
    qed
  qed
  show ?case by (intro exI conjI) (rule r n1 n2 n3 n4)+
qed

lemma firstCanonIdx_first:
  "i < length rs \<Longrightarrow> rs ! i = None \<Longrightarrow> \<forall>j<i. rs ! j \<noteq> None \<Longrightarrow>
     firstCanonIdx rs k = Some (k + i)"
proof (induction rs arbitrary: i k)
  case Nil
  then show ?case by simp
next
  case (Cons x rs)
  show ?case
  proof (cases i)
    case 0
    with Cons.prems show ?thesis by simp
  next
    case (Suc i')
    from Cons.prems(3) Suc have x: "x \<noteq> None" by auto
    have "\<forall>j<i'. rs ! j \<noteq> None"
    proof (intro allI impI)
      fix j assume "j < i'"
      then have "Suc j < i" using Suc by simp
      with Cons.prems(3) have "(x # rs) ! Suc j \<noteq> None" by blast
      then show "rs ! j \<noteq> None" by simp
    qed
    with Cons.IH [of i' "k + 1"] Cons.prems(1,2) Suc
    have "firstCanonIdx rs (k + 1) = Some (k + 1 + i')" by simp
    with x Suc show ?thesis by simp
  qed
qed

lemma builder_first_canon:
  assumes hdr: "createRollupHeader rc ss r = Inr hdr"
    and rb: "FetchNonCanonicalBatchesBetween rc ss (Uint64 (SeqNo (Batches r ! 0)))
               (Uint64 (SeqNo (Batches r ! (length (Batches r) - 1)))) = Inr rb"
    and i: "i < length (Batches r)"
    and ci: "\<not> reorgMap rb (Uint64 (SeqNo (Batches r ! i)))"
    and before: "\<forall>j<i. reorgMap rb (Uint64 (SeqNo (Batches r ! j)))"
  shows "FirstCanonParentHash hdr = ParentHash (Batch.Header (Batches r ! i))"
proof -
  from hdr obtain rb' reorgs dts hds reorgsBA where
    rb': "FetchNonCanonicalBatchesBetween rc ss (Uint64 (SeqNo (Batches r ! 0)))
           (Uint64 (SeqNo (Batches r ! (length (Batches r) - 1)))) = Inr rb'" and
    cl: "compressLoop (reorgMap rb') (Blocks r) 0 (Batches r)
           (Time (Batch.Header (Batches r ! 0))) None = Inr (reorgs, dts, hds)" and
    fp: "FirstCanonParentHash hdr =
           ParentHash (Batch.Header (case firstCanonIdx reorgs 0 of None \<Rightarrow> Batches r ! 0
                                     | Some i \<Rightarrow> Batches r ! i))"
    by (rule createRollupHeader_Inr)
  from rb rb' have same: "rb' = rb" by simp
  note c = compressLoop_Inr [OF cl [unfolded same]]
  from c have rl: "length reorgs = length (Batches r)" by simp
  have at: "reorgs ! k =
      (if reorgMap rb (Uint64 (SeqNo (Batches r ! k)))
       then Some (Batch.Header (Batches r ! k)) else None)" if "k < length (Batches r)" for k
    using c that by simp
  have "reorgs ! i = None" using at [OF i] ci by simp
  moreover have "\<forall>j<i. reorgs ! j \<noteq> None"
  proof (intro allI impI)
    fix j assume j: "j < i"
    with i have "j < length (Batches r)" by simp
    from at [OF this] before j show "reorgs ! j \<noteq> None" by simp
  qed
  ultimately have "firstCanonIdx reorgs 0 = Some (0 + i)"
    using i rl by (intro firstCanonIdx_first) simp_all
  with fp show ?thesis by simp
qed

lemma Uint64_inj_range:
  assumes "0 \<le> x" "x < 2 ^ 63" "0 \<le> y" "y < 2 ^ 63" "Uint64 x = Uint64 y"
  shows "x = y"
proof -
  from assms have "Int64 x = Int64 y" by (simp add: Uint64_nonneg)
  then have "NewInt (Int64 x) = NewInt (Int64 y)" by simp
  with assms show ?thesis by (simp add: NewInt_Int64_range)
qed

lemma ancestor_number:
  assumes wf: "\<forall>h b p. FetchBlock rc s h = Inr b \<longrightarrow> FetchBlock rc s (BlockParentHash b) = Inr p
                 \<longrightarrow> unat (NumberU64 p) + 1 = unat (NumberU64 b)"
  shows "(\<exists>h. FetchBlock rc s h = Inr blk) \<Longrightarrow> ancestor rc s j blk = Inr b \<Longrightarrow>
           unat (NumberU64 b) + j = unat (NumberU64 blk)"
proof (induction j arbitrary: blk)
  case 0
  then show ?case by simp
next
  case (Suc j)
  from Suc.prems(2) obtain p where
    p: "FetchBlock rc s (BlockParentHash blk) = Inr p" and a: "ancestor rc s j p = Inr b"
    by (auto split: sum.splits)
  from p have st: "\<exists>h. FetchBlock rc s h = Inr p" by blast
  from Suc.IH [OF st a] have "unat (NumberU64 b) + j = unat (NumberU64 p)" .
  moreover from wf Suc.prems(1) p have "unat (NumberU64 p) + 1 = unat (NumberU64 blk)" by metis
  ultimately show ?case by simp
qed

lemma calc_ancestor:
  assumes wf: "\<forall>h b p. FetchBlock rc s h = Inr b \<longrightarrow> FetchBlock rc s (BlockParentHash b) = Inr p
                 \<longrightarrow> unat (NumberU64 p) + 1 = unat (NumberU64 b)"
  shows "(\<exists>h. FetchBlock rc s h = Inr blk) \<Longrightarrow> ancestor rc s k blk = Inr pb \<Longrightarrow>
         NumberU64 pb = Uint64 fromH \<Longrightarrow>
           \<exists>mp. calcL1AncestorsOfHeight rc s fromH blk path = Some (Inr mp)
              \<and> (\<forall>j\<le>k. \<forall>b. ancestor rc s j blk = Inr b \<longrightarrow> mp (NumberU64 b) = Some b)
              \<and> (\<forall>h. unat (NumberU64 blk) < unat h \<longrightarrow> mp h = path h)"
proof (induction k arbitrary: blk path)
  case 0
  then have "NumberU64 blk = Uint64 fromH" by simp
  then have "calcL1AncestorsOfHeight rc s fromH blk path
               = Some (Inr (path(NumberU64 blk \<mapsto> blk)))"
    by (subst calcL1AncestorsOfHeight.simps) simp
  then show ?case by auto
next
  case (Suc k)
  from Suc.prems(2) obtain p where
    p: "FetchBlock rc s (BlockParentHash blk) = Inr p" and a: "ancestor rc s k p = Inr pb"
    by (auto split: sum.splits)
  from p have st: "\<exists>h. FetchBlock rc s h = Inr p" by blast
  from wf Suc.prems(1) p have np: "unat (NumberU64 p) + 1 = unat (NumberU64 blk)" by metis
  from ancestor_number [OF wf Suc.prems(1) Suc.prems(2)]
  have "unat (NumberU64 pb) + Suc k = unat (NumberU64 blk)" .
  then have "NumberU64 pb \<noteq> NumberU64 blk" by auto
  with Suc.prems(3) have ne: "NumberU64 blk \<noteq> Uint64 fromH" by simp
  let ?path = "path(NumberU64 blk \<mapsto> blk)"
  from Suc.IH [OF st a Suc.prems(3), of ?path] obtain mp where
    c: "calcL1AncestorsOfHeight rc s fromH p ?path = Some (Inr mp)" and
    anc: "\<forall>j\<le>k. \<forall>b. ancestor rc s j p = Inr b \<longrightarrow> mp (NumberU64 b) = Some b" and
    oth: "\<forall>h. unat (NumberU64 p) < unat h \<longrightarrow> mp h = ?path h"
    by blast
  have call: "calcL1AncestorsOfHeight rc s fromH blk path = Some (Inr mp)"
    using ne p c by (subst calcL1AncestorsOfHeight.simps) simp
  have top: "mp (NumberU64 blk) = Some blk"
    using oth np by simp
  have anc': "\<forall>j\<le>Suc k. \<forall>b. ancestor rc s j blk = Inr b \<longrightarrow> mp (NumberU64 b) = Some b"
  proof (intro allI impI)
    fix j b assume j: "j \<le> Suc k" and b: "ancestor rc s j blk = Inr b"
    show "mp (NumberU64 b) = Some b"
    proof (cases j)
      case 0
      with b top show ?thesis by simp
    next
      case (Suc j')
      with b p have "ancestor rc s j' p = Inr b" by simp
      moreover from j Suc have "j' \<le> k" by simp
      ultimately show ?thesis using anc by blast
    qed
  qed
  have oth': "\<forall>h. unat (NumberU64 blk) < unat h \<longrightarrow> mp h = path h"
  proof (intro allI impI)
    fix h :: "64 word" assume h: "unat (NumberU64 blk) < unat h"
    with np have "unat (NumberU64 p) < unat h" by simp
    with oth have "mp h = ?path h" by blast
    moreover from h have "h \<noteq> NumberU64 blk" by auto
    ultimately show "mp h = path h" by simp
  qed
  from call anc' oth' show ?case by blast
qed

lemma NumberU64_range:
  assumes "0 \<le> BlockNumber b" "BlockNumber b < 2 ^ 63"
  shows "NumberU64 b < 2 ^ 63"
proof -
  from assms have "take_bit 64 (BlockNumber b) = BlockNumber b"
    by (simp add: take_bit_int_eq_self)
  with assms show ?thesis
    by (simp add: NumberU64_def Uint64_def word_less_def uint_word_of_int_eq)
qed

lemma slicesMin_Inr: "xs \<noteq> [] \<Longrightarrow> \<exists>m. slicesMin xs = Inr m"
  by (cases xs) (simp_all add: slicesMin_def)

text \<open>
  C1 (as amended). Let the collaborators of the node be a key-value store by sequence
  number (\<open>keyValueStore\<close>), let \<^verbatim>\<open>CreateExtRollup\<close> succeed on the rollup \<open>r\<close> with the header
  \<open>hdr\<close>, and let the encoders and decoders of the two blobs and of the reorg headers be
  inverse to each other on the values at hand. Let the batches of \<open>r\<close> be contiguous by
  sequence number within \<open>[0, 2^63)\<close> and every proof block be in the block map with a number
  within \<open>[0, 2^63)\<close>. Let the block store of the node number its blocks consistently (the
  parent of a stored block has the number of the block minus one), hold the L1 head, and
  hold among the ancestors of the head (\<open>ancestor\<close>) a block with the number of every proof
  block, which for a canonical batch is its proof block. Let the node hold under each
  sequence number of \<open>r\<close> either nothing or a batch with the header of \<open>r\<close> and, unless the
  first batch is the genesis batch, hold the batch with the hash \<^verbatim>\<open>FirstCanonParentHash\<close>. Let
  every canonical batch other than genesis name as its parent the canonical batch before
  it in \<open>r\<close>, and let the executor reproduce the header of every canonical batch from the
  context the reconstruction gives it. Then \<^verbatim>\<open>ProcessExtRollup\<close> on the result of
  \<^verbatim>\<open>CreateExtRollup\<close> returns (the walk over the L1 ancestors included) with \<open>hdr\<close>, and in
  the state it leaves every batch of \<open>r\<close> is found under its sequence number with a header
  equal to the one in \<open>r\<close>.
\<close>

theorem C1_round_trip:
  assumes kv: "keyValueStore rc"
    and hdr: "createRollupHeader rc ss r = Inr hdr"
    and build: "CreateExtRollup rc ss r = Inr x"
    and rb: "FetchNonCanonicalBatchesBetween rc ss (Uint64 (SeqNo (Batches r ! 0)))
               (Uint64 (SeqNo (Batches r ! (length (Batches r) - 1)))) = Inr rb"
    and txcodec: "\<forall>blob. serialiseCompressAndEncrypt rc (EncodeTransactions rc)
                            (map Batch.Transactions (Batches r)) = Inr blob \<longrightarrow>
                    decryptDecompressAndDeserialise rc (DecodeTransactions rc) blob
                      = Inr (map Batch.Transactions (Batches r))"
    and hdrcodec: "\<forall>blob. serialiseCompressAndEncrypt rc (EncodeCalldataHeader rc) hdr = Inr blob \<longrightarrow>
                    decryptDecompressAndDeserialise rc (DecodeCalldataHeader rc) blob = Inr hdr"
    and codec: "\<forall>i<length (Batches r). reorgMap rb (Uint64 (SeqNo (Batches r ! i))) \<longrightarrow>
                  (\<forall>enc. EncodeBatchHeader rc (Batch.Header (Batches r ! i)) = Inr enc \<longrightarrow>
                     enc \<noteq> [] \<and> DecodeBatchHeader rc enc = Inr (Batch.Header (Batches r ! i)))"
    and contiguous: "\<forall>i<length (Batches r). SeqNo (Batches r ! i) = SeqNo (Batches r ! 0) + int i"
    and seqrange: "0 \<le> SeqNo (Batches r ! 0)"
                  "SeqNo (Batches r ! 0) + int (length (Batches r)) \<le> 2 ^ 63"
    and len: "length pbs = length (Batches r)"
    and pbs: "\<forall>i<length (Batches r).
                Blocks r (L1Proof (Batch.Header (Batches r ! i))) = Some (pbs ! i)
                \<and> 0 \<le> BlockNumber (pbs ! i) \<and> BlockNumber (pbs ! i) < 2 ^ 63"
    and wf: "\<forall>h b p. FetchBlock rc s h = Inr b \<longrightarrow> FetchBlock rc s (BlockParentHash b) = Inr p
                 \<longrightarrow> unat (NumberU64 p) + 1 = unat (NumberU64 b)"
    and head: "FetchBlock rc s (CompressionL1Head (Rollup.Header r)) = Inr headBlk"
    and onchain: "\<forall>i<length (Batches r). \<exists>k pb. ancestor rc s k headBlk = Inr pb
                    \<and> NumberU64 pb = NumberU64 (pbs ! i)
                    \<and> (\<not> reorgMap rb (Uint64 (SeqNo (Batches r ! i)))
                         \<longrightarrow> BlockHash pb = L1Proof (Batch.Header (Batches r ! i)))"
    and stored: "\<forall>i<length (Batches r).
                   FetchBatchBySeqNo rc s (Uint64 (SeqNo (Batches r ! i))) = Inl ErrNotFound
                   \<or> (\<exists>b. FetchBatchBySeqNo rc s (Uint64 (SeqNo (Batches r ! i))) = Inr b
                          \<and> Batch.Header b = Batch.Header (Batches r ! i))"
    and parent: "Uint64 (SeqNo (Batches r ! 0)) \<noteq> L2GenesisSeqNo rc \<longrightarrow>
                   (\<exists>b. FetchBatch rc s (FirstCanonParentHash hdr) = Inr b)"
    and chain: "\<forall>i<length (Batches r). \<forall>j<i.
                  \<not> reorgMap rb (Uint64 (SeqNo (Batches r ! i)))
                  \<and> \<not> reorgMap rb (Uint64 (SeqNo (Batches r ! j)))
                  \<and> (\<forall>l. j < l \<and> l < i \<longrightarrow> reorgMap rb (Uint64 (SeqNo (Batches r ! l))))
                  \<and> Uint64 (SeqNo (Batches r ! i)) \<noteq> L2GenesisSeqNo rc \<longrightarrow>
                  ParentHash (Batch.Header (Batches r ! i))
                    = HeaderHash rc (Batch.Header (Batches r ! j))"
    and exec: "\<forall>i<length (Batches r). \<not> reorgMap rb (Uint64 (SeqNo (Batches r ! i))) \<longrightarrow>
                 (if Uint64 (SeqNo (Batches r ! i)) = L2GenesisSeqNo rc
                  then (\<forall>st. \<exists>g st'. CreateGenesisState rc st
                            (L1Proof (Batch.Header (Batches r ! i)))
                            (Time (Batch.Header (Batches r ! i)))
                            (BatchHeader.Coinbase (Batch.Header (Batches r ! 0)))
                            (BatchHeader.BaseFee (Batch.Header (Batches r ! 0))) = Inr (g, st')
                           \<and> Batch.Header g = Batch.Header (Batches r ! i))
                  else (\<forall>st. \<exists>cb. computeBatch rc st
                            (L1Proof (Batch.Header (Batches r ! i)))
                            (ParentHash (Batch.Header (Batches r ! i)))
                            (Batch.Transactions (Batches r ! i))
                            (Time (Batch.Header (Batches r ! i)))
                            (SeqNo (Batches r ! i))
                            (BatchHeader.Coinbase (Batch.Header (Batches r ! 0)))
                            (BatchHeader.BaseFee (Batch.Header (Batches r ! 0))) = Inr cb
                           \<and> Batch.Header (Batch cb) = Batch.Header (Batches r ! i)))"
  shows "\<exists>s'. ProcessExtRollup rc s x = Some (s', Inr hdr)
           \<and> (\<forall>i<length (Batches r).
                 \<exists>b. FetchBatchBySeqNo rc s' (Uint64 (SeqNo (Batches r ! i))) = Inr b
                    \<and> Batch.Header b = Batch.Header (Batches r ! i))"
proof -
  let ?B = "Batches r"
  let ?n = "length ?B"
  let ?fl = "\<lambda>i. reorgMap rb (Uint64 (SeqNo (?B ! i)))"
  let ?p0 = "FirstCanonParentHash hdr"
  from hdr have fbs: "FirstBatchSequence hdr = SeqNo (?B ! 0)"
    and cbf: "CalldataRollupHeader.Coinbase hdr = BatchHeader.Coinbase (Batch.Header (?B ! 0))"
             "CalldataRollupHeader.BaseFee hdr = BatchHeader.BaseFee (Batch.Header (?B ! 0))"
    by (auto elim: createRollupHeader_Inr)
  from build hdr obtain eh et where
    eh: "serialiseCompressAndEncrypt rc (EncodeCalldataHeader rc) hdr = Inr eh" and
    et: "serialiseCompressAndEncrypt rc (EncodeTransactions rc) (map Batch.Transactions ?B) = Inr et" and
    x: "x = \<lparr>ExtRollup.Header = Rollup.Header r, BatchPayloads = et,
              CalldataRollupHeader = eh\<rparr>"
    by (auto simp: CreateExtRollup_def split: sum.splits)
  from txcodec et have dt:
    "decryptDecompressAndDeserialise rc (DecodeTransactions rc) (BatchPayloads x)
       = Inr (map Batch.Transactions ?B)"
    by (simp add: x)
  from hdrcodec eh have dh:
    "decryptDecompressAndDeserialise rc (DecodeCalldataHeader rc)
       (ExtRollup.CalldataRollupHeader x) = Inr hdr"
    by (simp add: x)
  from hdr have ne: "?B \<noteq> []"
    by (auto elim: createRollupHeader_Inr)
  with len have pne: "map NumberU64 pbs \<noteq> []" by auto
  from slicesMin_Inr [OF pne] obtain m where min: "slicesMin (map NumberU64 pbs) = Inr m" ..
  from slicesMin_le [OF min] have mset: "m \<in> set (map NumberU64 pbs)"
    and mle: "\<forall>h\<in>set (map NumberU64 pbs). m \<le> h"
    by simp_all
  from mset obtain i0 where i0: "i0 < length pbs" "m = NumberU64 (pbs ! i0)"
    by (auto simp: in_set_conv_nth)
  with len have i0n: "i0 < ?n" by simp
  from pbs i0n have "0 \<le> BlockNumber (pbs ! i0)" "BlockNumber (pbs ! i0) < 2 ^ 63"
    by simp_all
  from NumberU64_range [OF this] i0 have mr: "m < 2 ^ 63" by simp
  have target: "Uint64 (NewInt m) = m"
    using mr by (rule Uint64_NewInt)
  from onchain i0n obtain k0 pb0 where
    a0: "ancestor rc s k0 headBlk = Inr pb0" "NumberU64 pb0 = NumberU64 (pbs ! i0)"
    by blast
  from head have st: "\<exists>h. FetchBlock rc s h = Inr headBlk" by blast
  have tg: "NumberU64 pb0 = Uint64 (NewInt m)"
    using a0(2) i0(2) target by simp
  from calc_ancestor [OF wf st a0(1) tg, of Map.empty] obtain mp where
    walk: "calcL1AncestorsOfHeight rc s (NewInt m) headBlk Map.empty = Some (Inr mp)" and
    anc: "\<forall>j\<le>k0. \<forall>b. ancestor rc s j headBlk = Inr b \<longrightarrow> mp (NumberU64 b) = Some b"
    by blast
  have onmap: "\<forall>i<?n. \<exists>pb. mp (NumberU64 (pbs ! i)) = Some pb
                    \<and> (\<not> ?fl i \<longrightarrow> BlockHash pb = L1Proof (Batch.Header (?B ! i)))"
  proof (intro allI impI)
    fix i assume i: "i < ?n"
    from onchain i obtain k pb where
      a: "ancestor rc s k headBlk = Inr pb" "NumberU64 pb = NumberU64 (pbs ! i)"
         "\<not> ?fl i \<longrightarrow> BlockHash pb = L1Proof (Batch.Header (?B ! i))"
      by blast
    from i len have "NumberU64 (pbs ! i) \<in> set (map NumberU64 pbs)" by simp
    with mle have "m \<le> NumberU64 (pbs ! i)" by blast
    then have "unat m \<le> unat (NumberU64 pb)"
      using a(2) by (simp add: word_le_nat_alt)
    moreover from ancestor_number [OF wf st a(1)]
    have "unat (NumberU64 pb) + k = unat (NumberU64 headBlk)" .
    moreover from ancestor_number [OF wf st a0(1)]
    have "unat (NumberU64 pb0) + k0 = unat (NumberU64 headBlk)" .
    moreover have "NumberU64 pb0 = m" using a0(2) i0(2) by simp
    ultimately have "k \<le> k0" by simp
    with anc a(1) have "mp (NumberU64 pb) = Some pb" by blast
    with a(2,3) show "\<exists>pb. mp (NumberU64 (pbs ! i)) = Some pb
                    \<and> (\<not> ?fl i \<longrightarrow> BlockHash pb = L1Proof (Batch.Header (?B ! i)))"
      by auto
  qed
  from reconstruct_batches [OF hdr rb codec contiguous seqrange len pbs head min walk onmap]
  obtain ibs where
    rec: "createIncompleteBatches rc s hdr (map Batch.Transactions ?B)
            (CompressionL1Head (Rollup.Header r)) = Some (Inr ibs)
           \<and> length ibs = ?n
           \<and> (\<forall>i<?n.
                 seqNo (ibs ! i) = SeqNo (?B ! i)
                 \<and> time (ibs ! i) = Time (Batch.Header (?B ! i))
                 \<and> transactions (ibs ! i) = Batch.Transactions (?B ! i)
                 \<and> header (ibs ! i) = (if ?fl i then Some (Batch.Header (?B ! i)) else None)
                 \<and> (\<not> ?fl i \<longrightarrow> l1Proof (ibs ! i) = L1Proof (Batch.Header (?B ! i)))
                 \<and> coinbase (ibs ! i) = BatchHeader.Coinbase (Batch.Header (?B ! 0))
                 \<and> baseFee (ibs ! i) = BatchHeader.BaseFee (Batch.Header (?B ! 0)))"
    ..
  from rec have cib: "createIncompleteBatches rc s hdr (map Batch.Transactions ?B)
            (CompressionL1Head (Rollup.Header r)) = Some (Inr ibs)"
    by (rule conjunct1)
  from rec have ilen: "length ibs = ?n"
    by (rule conjunct2 [THEN conjunct1])
  from rec have fld: "\<forall>i<?n.
                 seqNo (ibs ! i) = SeqNo (?B ! i)
                 \<and> time (ibs ! i) = Time (Batch.Header (?B ! i))
                 \<and> transactions (ibs ! i) = Batch.Transactions (?B ! i)
                 \<and> header (ibs ! i) = (if ?fl i then Some (Batch.Header (?B ! i)) else None)
                 \<and> (\<not> ?fl i \<longrightarrow> l1Proof (ibs ! i) = L1Proof (Batch.Header (?B ! i)))
                 \<and> coinbase (ibs ! i) = BatchHeader.Coinbase (Batch.Header (?B ! 0))
                 \<and> baseFee (ibs ! i) = BatchHeader.BaseFee (Batch.Header (?B ! 0))"
    by (rule conjunct2 [THEN conjunct2])
  have fields: "\<forall>i<?n. seqNo (ibs ! i) = SeqNo (?B ! i)
                   \<and> header (ibs ! i) = (if ?fl i then Some (Batch.Header (?B ! i)) else None)"
    using fld by simp
  have distinct: "\<forall>i<?n. \<forall>j<?n. i \<noteq> j \<longrightarrow> Uint64 (SeqNo (?B ! i)) \<noteq> Uint64 (SeqNo (?B ! j))"
  proof (intro allI impI notI)
    fix i j assume i: "i < ?n" and j: "j < ?n" and ne: "i \<noteq> j"
      and eq: "Uint64 (SeqNo (?B ! i)) = Uint64 (SeqNo (?B ! j))"
    from contiguous i j have si: "SeqNo (?B ! i) = SeqNo (?B ! 0) + int i"
      and sj: "SeqNo (?B ! j) = SeqNo (?B ! 0) + int j" by simp_all
    from seqrange i j have
      "0 \<le> SeqNo (?B ! 0) + int i" "SeqNo (?B ! 0) + int i < 2 ^ 63"
      "0 \<le> SeqNo (?B ! 0) + int j" "SeqNo (?B ! 0) + int j < 2 ^ 63"
      by simp_all
    from Uint64_inj_range [OF this eq [unfolded si sj]] ne show False by simp
  qed
  have exec': "\<forall>i<?n. \<not> ?fl i \<longrightarrow>
                 (if Uint64 (SeqNo (?B ! i)) = L2GenesisSeqNo rc
                  then (\<forall>st. \<exists>g st'. CreateGenesisState rc st (l1Proof (ibs ! i)) (time (ibs ! i))
                            (CalldataRollupHeader.Coinbase hdr) (CalldataRollupHeader.BaseFee hdr)
                             = Inr (g, st')
                           \<and> Batch.Header g = Batch.Header (?B ! i))
                  else (\<forall>st. \<exists>cb. computeBatch rc st (l1Proof (ibs ! i))
                            (ParentHash (Batch.Header (?B ! i))) (transactions (ibs ! i))
                            (time (ibs ! i)) (seqNo (ibs ! i)) (coinbase (ibs ! i))
                            (baseFee (ibs ! i)) = Inr cb
                           \<and> Batch.Header (Batch cb) = Batch.Header (?B ! i)))"
  proof (intro allI impI)
    fix i assume i: "i < ?n" and c: "\<not> ?fl i"
    from fld i c have f:
      "seqNo (ibs ! i) = SeqNo (?B ! i)" "time (ibs ! i) = Time (Batch.Header (?B ! i))"
      "transactions (ibs ! i) = Batch.Transactions (?B ! i)"
      "l1Proof (ibs ! i) = L1Proof (Batch.Header (?B ! i))"
      "coinbase (ibs ! i) = BatchHeader.Coinbase (Batch.Header (?B ! 0))"
      "baseFee (ibs ! i) = BatchHeader.BaseFee (Batch.Header (?B ! 0))"
      by simp_all
    from exec [rule_format, OF i c]
    show "if Uint64 (SeqNo (?B ! i)) = L2GenesisSeqNo rc
                  then (\<forall>st. \<exists>g st'. CreateGenesisState rc st (l1Proof (ibs ! i)) (time (ibs ! i))
                            (CalldataRollupHeader.Coinbase hdr) (CalldataRollupHeader.BaseFee hdr)
                             = Inr (g, st')
                           \<and> Batch.Header g = Batch.Header (?B ! i))
                  else (\<forall>st. \<exists>cb. computeBatch rc st (l1Proof (ibs ! i))
                            (ParentHash (Batch.Header (?B ! i))) (transactions (ibs ! i))
                            (time (ibs ! i)) (seqNo (ibs ! i)) (coinbase (ibs ! i))
                            (baseFee (ibs ! i)) = Inr cb
                           \<and> Batch.Header (Batch cb) = Batch.Header (?B ! i))"
      unfolding f cbf .
  qed
  have first: "\<forall>i<?n. \<not> ?fl i \<and> (\<forall>j<i. ?fl j) \<longrightarrow> ParentHash (Batch.Header (?B ! i)) = ?p0"
  proof (intro allI impI)
    fix i assume i: "i < ?n" and a: "\<not> ?fl i \<and> (\<forall>j<i. ?fl j)"
    from a have a1: "\<not> ?fl i" and a2: "\<forall>j<i. ?fl j" by simp_all
    from builder_first_canon [OF hdr rb i a1 a2]
    show "ParentHash (Batch.Header (?B ! i)) = ?p0" by simp
  qed
  from save_prefix [OF kv ilen fields distinct stored exec' first chain order_refl]
  obtain st where
    "\<exists>p. saveLoop rc hdr (take ?n ibs) ?p0 s = (st, Inr p)
           \<and> (\<forall>i<?n. \<exists>b. FetchBatchBySeqNo rc st (Uint64 (SeqNo (?B ! i))) = Inr b
                      \<and> Batch.Header b = Batch.Header (?B ! i))
           \<and> (\<forall>i. ?n \<le> i \<and> i < ?n \<longrightarrow>
                  FetchBatchBySeqNo rc st (Uint64 (SeqNo (?B ! i)))
                    = FetchBatchBySeqNo rc s (Uint64 (SeqNo (?B ! i))))
           \<and> ((\<forall>j<?n. ?fl j) \<longrightarrow> p = ?p0)
           \<and> (\<forall>j<?n. \<not> ?fl j \<and> (\<forall>l. j < l \<and> l < ?n \<longrightarrow> ?fl l) \<longrightarrow>
                  p = HeaderHash rc (Batch.Header (?B ! j)))"
    ..
  then obtain p where
    sv: "saveLoop rc hdr (take ?n ibs) ?p0 s = (st, Inr p)
           \<and> (\<forall>i<?n. \<exists>b. FetchBatchBySeqNo rc st (Uint64 (SeqNo (?B ! i))) = Inr b
                      \<and> Batch.Header b = Batch.Header (?B ! i))
           \<and> (\<forall>i. ?n \<le> i \<and> i < ?n \<longrightarrow>
                  FetchBatchBySeqNo rc st (Uint64 (SeqNo (?B ! i)))
                    = FetchBatchBySeqNo rc s (Uint64 (SeqNo (?B ! i))))
           \<and> ((\<forall>j<?n. ?fl j) \<longrightarrow> p = ?p0)
           \<and> (\<forall>j<?n. \<not> ?fl j \<and> (\<forall>l. j < l \<and> l < ?n \<longrightarrow> ?fl l) \<longrightarrow>
                  p = HeaderHash rc (Batch.Header (?B ! j)))"
    ..
  from sv ilen have run: "saveLoop rc hdr ibs ?p0 s = (st, Inr p)" by simp
  from sv have found: "\<forall>i<?n. \<exists>b. FetchBatchBySeqNo rc st (Uint64 (SeqNo (?B ! i))) = Inr b
                      \<and> Batch.Header b = Batch.Header (?B ! i)"
    by (rule conjunct2 [THEN conjunct1])
  have ex: "executeAndSaveIncompleteBatches rc hdr ibs s = (st, None)"
  proof (cases "Uint64 (SeqNo (?B ! 0)) = L2GenesisSeqNo rc")
    case True
    with run fbs show ?thesis by (simp add: executeAndSaveIncompleteBatches_def)
  next
    case False
    with parent obtain b where "FetchBatch rc s ?p0 = Inr b" by blast
    with False run fbs show ?thesis by (simp add: executeAndSaveIncompleteBatches_def)
  qed
  have "ProcessExtRollup rc s x = Some (st, Inr hdr)"
    using dt dh cib ex by (simp add: ProcessExtRollup_def x)
  with found show ?thesis by blast
qed

lemma memNode_keyValueStore: "keyValueStore (memNode hdr0 txs0 reorg0)"
  unfolding keyValueStore_def
  by (auto simp: memNode_def lookup_def memComputeBatch_def memCreateGenesisState_def
        SeqNo_def Uint64_def split: option.splits)

lemma all_less_3: "(\<forall>i<3::nat. P i) \<longleftrightarrow> P 0 \<and> P 1 \<and> P 2"
proof
  assume "\<forall>i<3::nat. P i"
  then show "P 0 \<and> P 1 \<and> P 2" by simp
next
  assume a: "P 0 \<and> P 1 \<and> P 2"
  show "\<forall>i<3::nat. P i"
  proof (intro allI impI)
    fix i :: nat assume "i < 3"
    then consider "i = 0" | "i = 1" | "i = 2" by arith
    then show "P i" using a by cases simp_all
  qed
qed

lemma create_rc2_sequencer1: "createRollupHeader rc2 sequencer1 rollup2 = Inr header2"
  by (simp add: concrete_build rollup2_def rc2_def header2_def)

lemma build_rc2_sequencer1: "CreateExtRollup rc2 sequencer1 rollup2 = Inr ext2"
proof -
  have "serialiseCompressAndEncrypt rc2 (EncodeCalldataHeader rc2) header2 = Inr [1]"
       "serialiseCompressAndEncrypt rc2 (EncodeTransactions rc2)
          (map Batch.Transactions (Batches rollup2)) = Inr [2]"
    by (simp_all add: serialiseCompressAndEncrypt_def rc2_def memNode_def)
  moreover have "Rollup.Header rollup2 = \<lparr>CompressionL1Head = 107, OtherRollupFields = 0\<rparr>"
    by (simp add: rollup2_def)
  ultimately show ?thesis
    by (simp add: CreateExtRollup_def create_rc2_sequencer1 ext2_def)
qed


theorem C1_witness:
  "CreateExtRollup rc2 sequencer1 rollup2 = Inr ext2
   \<and> FetchBatchBySeqNo rc2 node5 5 = Inr batch5
   \<and> FetchBatchBySeqNo rc2 node5 6 = Inl ErrNotFound
   \<and> (\<exists>s'. ProcessExtRollup rc2 node5 ext2 = Some (s', Inr header2)
         \<and> (\<exists>b. FetchBatchBySeqNo rc2 s' 5 = Inr b \<and> Batch.Header b = Batch.Header batch5)
         \<and> (\<exists>b. FetchBatchBySeqNo rc2 s' 6 = Inr b \<and> Batch.Header b = Batch.Header batch6)
         \<and> (\<exists>b. FetchBatchBySeqNo rc2 s' 7 = Inr b \<and> Batch.Header b = Batch.Header batch7))"
proof -
  have bs: "Batches rollup2 ! 0 = batch5" "Batches rollup2 ! 1 = batch6"
      "Batches rollup2 ! 2 = batch7" "Batches rollup2 ! (3 - 1) = batch7"
    by (simp_all add: rollup2_def)
  have bl: "length (Batches rollup2) = 3"
    by (simp add: rollup2_def)
  have bs1: "Batches rollup2 ! Suc 0 = batch6"
    by (simp add: rollup2_def)
  have sq: "SeqNo batch5 = 5" "SeqNo batch6 = 6" "SeqNo batch7 = 7"
    by (simp_all add: SeqNo_def batch5_def batch6_def batch7_def reorgHeader6_def)
  have us: "Uint64 5 = 5" "Uint64 6 = 6" "Uint64 7 = 7"
    by (simp_all add: Uint64_def)
  have gen: "L2GenesisSeqNo rc2 = 1"
    by (simp add: rc2_def memNode_def)
  have hp: "L1Proof (Batch.Header batch5) = 106" "L1Proof (Batch.Header batch6) = 106"
      "L1Proof (Batch.Header batch7) = 107"
      "ParentHash (Batch.Header batch5) = 1040" "ParentHash (Batch.Header batch7) = 1050"
      "Time (Batch.Header batch5) = 1000" "Time (Batch.Header batch7) = 1002"
      "BatchHeader.Coinbase (Batch.Header batch5) = 9"
      "BatchHeader.BaseFee (Batch.Header batch5) = 1"
      "Batch.Transactions batch5 = []" "Batch.Transactions batch6 = [8]"
      "Batch.Transactions batch7 = [4]"
    by (simp_all add: batch5_def batch6_def batch7_def reorgHeader6_def)
  have hb6: "Batch.Header batch6 = reorgHeader6"
    by (simp add: batch6_def)
  have bk: "BlockHash block6 = 106" "BlockHash block7 = 107"
      "BlockNumber block6 = 6" "BlockNumber block7 = 7"
      "NumberU64 block6 = 6" "NumberU64 block7 = 7"
    by (simp_all add: NumberU64_def block6_def block7_def Uint64_def)
  have mb: "Blocks rollup2 106 = Some block6" "Blocks rollup2 107 = Some block7"
    by (simp_all add: rollup2_def blocks1_def block6_def block7_def)
  have nf: "FetchBatchBySeqNo rc2 node5 5 = Inr batch5"
      "FetchBatchBySeqNo rc2 node5 6 = Inl ErrNotFound"
      "FetchBatchBySeqNo rc2 node5 7 = Inl ErrNotFound"
    by (simp_all add: rc2_def memNode_def node5_def node1_def lookup_def batch4_def batch5_def
          SeqNo_def Uint64_def)
  have hh: "HeaderHash rc2 (Batch.Header batch5) = 1050"
    by (simp add: rc2_def memNode_def memHash_def batch5_def)
  have cb: "\<forall>st. \<exists>cb. computeBatch rc2 st 106 1040 [] 1000 5 9 1 = Inr cb
                    \<and> Batch.Header (Batch cb) = Batch.Header batch5"
      "\<forall>st. \<exists>cb. computeBatch rc2 st 107 1050 [4] 1002 7 9 1 = Inr cb
                    \<and> Batch.Header (Batch cb) = Batch.Header batch7"
    by (simp_all add: computeBatch_def rc2_def memNode_def memComputeBatch_def batch5_def batch7_def)
  have kv: "keyValueStore rc2"
    unfolding rc2_def by (rule memNode_keyValueStore)
  have rb: "FetchNonCanonicalBatchesBetween rc2 sequencer1 (Uint64 (SeqNo (Batches rollup2 ! 0)))
               (Uint64 (SeqNo (Batches rollup2 ! (length (Batches rollup2) - 1)))) = Inr [batch6]"
    unfolding bl bs sq us
    by (simp add: rc2_def memNode_def sequencer1_def sq us)
  have fl: "\<not> reorgMap [batch6] 5" "reorgMap [batch6] 6" "\<not> reorgMap [batch6] 7"
    by (simp_all add: reorgMap_def sq us)
  have txcodec: "\<forall>blob. serialiseCompressAndEncrypt rc2 (EncodeTransactions rc2)
                            (map Batch.Transactions (Batches rollup2)) = Inr blob \<longrightarrow>
                    decryptDecompressAndDeserialise rc2 (DecodeTransactions rc2) blob
                      = Inr (map Batch.Transactions (Batches rollup2))"
    by (simp add: decryptDecompressAndDeserialise_def rc2_def memNode_def rollup2_def txs2_def hp)
  have hdrcodec: "\<forall>blob. serialiseCompressAndEncrypt rc2 (EncodeCalldataHeader rc2) header2
                      = Inr blob \<longrightarrow>
                    decryptDecompressAndDeserialise rc2 (DecodeCalldataHeader rc2) blob = Inr header2"
    by (simp add: decryptDecompressAndDeserialise_def rc2_def memNode_def)
  have codec: "\<forall>i<length (Batches rollup2).
                  reorgMap [batch6] (Uint64 (SeqNo (Batches rollup2 ! i))) \<longrightarrow>
                  (\<forall>enc. EncodeBatchHeader rc2 (Batch.Header (Batches rollup2 ! i)) = Inr enc \<longrightarrow>
                     enc \<noteq> [] \<and> DecodeBatchHeader rc2 enc = Inr (Batch.Header (Batches rollup2 ! i)))"
    unfolding bl all_less_3 bs sq us
    by (simp add: fl hb6 rc2_def memNode_def)
  have contiguous: "\<forall>i<length (Batches rollup2).
                      SeqNo (Batches rollup2 ! i) = SeqNo (Batches rollup2 ! 0) + int i"
    unfolding bl all_less_3 bs sq by simp
  have seqrange: "0 \<le> SeqNo (Batches rollup2 ! 0)"
                 "SeqNo (Batches rollup2 ! 0) + int (length (Batches rollup2)) \<le> 2 ^ 63"
    unfolding bl bs sq by simp_all
  have len: "length [block6, block6, block7] = length (Batches rollup2)"
    by (simp add: bl)
  have pbs: "\<forall>i<length (Batches rollup2).
                Blocks rollup2 (L1Proof (Batch.Header (Batches rollup2 ! i)))
                  = Some ([block6, block6, block7] ! i)
                \<and> 0 \<le> BlockNumber ([block6, block6, block7] ! i)
                \<and> BlockNumber ([block6, block6, block7] ! i) < 2 ^ 63"
    unfolding bl all_less_3 bs hp
    by (simp add: mb bk)
  have wf: "\<forall>h b p. FetchBlock rc2 node5 h = Inr b \<longrightarrow>
              FetchBlock rc2 node5 (BlockParentHash b) = Inr p
                 \<longrightarrow> unat (NumberU64 p) + 1 = unat (NumberU64 b)"
    by (auto simp: rc2_def memNode_def node5_def node1_def lookup_def NumberU64_def Uint64_def
             split: if_splits)
  have head: "FetchBlock rc2 node5 (CompressionL1Head (Rollup.Header rollup2)) = Inr block7"
    by (simp add: rc2_def memNode_def node5_def node1_def lookup_def block7_def rollup2_def)
  have an: "ancestor rc2 node5 0 block7 = Inr block7" "ancestor rc2 node5 (Suc 0) block7 = Inr block6"
    by (simp_all add: rc2_def memNode_def node5_def node1_def lookup_def block7_def block6_def)
  have oc0: "\<exists>k pb. ancestor rc2 node5 k block7 = Inr pb
               \<and> NumberU64 pb = NumberU64 ([block6, block6, block7] ! 0)
               \<and> (\<not> reorgMap [batch6] (Uint64 (SeqNo (Batches rollup2 ! 0)))
                    \<longrightarrow> BlockHash pb = L1Proof (Batch.Header (Batches rollup2 ! 0)))"
    by (rule exI [of _ "Suc 0"], rule exI [of _ block6]) (simp add: an bs bs1 hp bk del: ancestor.simps)
  have oc1: "\<exists>k pb. ancestor rc2 node5 k block7 = Inr pb
               \<and> NumberU64 pb = NumberU64 ([block6, block6, block7] ! 1)
               \<and> (\<not> reorgMap [batch6] (Uint64 (SeqNo (Batches rollup2 ! 1)))
                    \<longrightarrow> BlockHash pb = L1Proof (Batch.Header (Batches rollup2 ! 1)))"
    by (rule exI [of _ "Suc 0"], rule exI [of _ block6]) (simp add: an bs bs1 hp bk del: ancestor.simps)
  have oc2: "\<exists>k pb. ancestor rc2 node5 k block7 = Inr pb
               \<and> NumberU64 pb = NumberU64 ([block6, block6, block7] ! 2)
               \<and> (\<not> reorgMap [batch6] (Uint64 (SeqNo (Batches rollup2 ! 2)))
                    \<longrightarrow> BlockHash pb = L1Proof (Batch.Header (Batches rollup2 ! 2)))"
    by (rule exI [of _ 0], rule exI [of _ block7]) (simp add: an bs bs1 hp bk del: ancestor.simps)
  have onchain: "\<forall>i<length (Batches rollup2). \<exists>k pb. ancestor rc2 node5 k block7 = Inr pb
                    \<and> NumberU64 pb = NumberU64 ([block6, block6, block7] ! i)
                    \<and> (\<not> reorgMap [batch6] (Uint64 (SeqNo (Batches rollup2 ! i)))
                         \<longrightarrow> BlockHash pb = L1Proof (Batch.Header (Batches rollup2 ! i)))"
    unfolding bl all_less_3 by (intro conjI) (rule oc0 oc1 oc2)+
  have stored: "\<forall>i<length (Batches rollup2).
                   FetchBatchBySeqNo rc2 node5 (Uint64 (SeqNo (Batches rollup2 ! i))) = Inl ErrNotFound
                   \<or> (\<exists>b. FetchBatchBySeqNo rc2 node5 (Uint64 (SeqNo (Batches rollup2 ! i))) = Inr b
                          \<and> Batch.Header b = Batch.Header (Batches rollup2 ! i))"
    unfolding bl all_less_3 bs sq us
    by (simp add: nf)
  have parent: "Uint64 (SeqNo (Batches rollup2 ! 0)) \<noteq> L2GenesisSeqNo rc2 \<longrightarrow>
                   (\<exists>b. FetchBatch rc2 node5 (FirstCanonParentHash header2) = Inr b)"
    by (simp add: rc2_def memNode_def node5_def node1_def lookup_def batch4_def batch5_def
          memHash_def header2_def)
  have chain: "\<forall>i<length (Batches rollup2). \<forall>j<i.
                  \<not> reorgMap [batch6] (Uint64 (SeqNo (Batches rollup2 ! i)))
                  \<and> \<not> reorgMap [batch6] (Uint64 (SeqNo (Batches rollup2 ! j)))
                  \<and> (\<forall>l. j < l \<and> l < i \<longrightarrow> reorgMap [batch6] (Uint64 (SeqNo (Batches rollup2 ! l))))
                  \<and> Uint64 (SeqNo (Batches rollup2 ! i)) \<noteq> L2GenesisSeqNo rc2 \<longrightarrow>
                  ParentHash (Batch.Header (Batches rollup2 ! i))
                    = HeaderHash rc2 (Batch.Header (Batches rollup2 ! j))"
  proof (intro allI impI)
    fix i j
    assume i: "i < length (Batches rollup2)" and j: "j < i"
      and a: "\<not> reorgMap [batch6] (Uint64 (SeqNo (Batches rollup2 ! i)))
                  \<and> \<not> reorgMap [batch6] (Uint64 (SeqNo (Batches rollup2 ! j)))
                  \<and> (\<forall>l. j < l \<and> l < i \<longrightarrow> reorgMap [batch6] (Uint64 (SeqNo (Batches rollup2 ! l))))
                  \<and> Uint64 (SeqNo (Batches rollup2 ! i)) \<noteq> L2GenesisSeqNo rc2"
    from i j have "(i = 1 \<and> j = 0) \<or> (i = 2 \<and> j = 0) \<or> (i = 2 \<and> j = 1)"
      unfolding bl by arith
    moreover have "Batches rollup2 ! Suc 0 = batch6"
      by (simp add: rollup2_def)
    with a have "i \<noteq> 1" "j \<noteq> 1"
      using fl by (auto simp: sq us)
    ultimately have "i = 2 \<and> j = 0" by simp
    then show "ParentHash (Batch.Header (Batches rollup2 ! i))
                    = HeaderHash rc2 (Batch.Header (Batches rollup2 ! j))"
      by (simp add: bs hp hh)
  qed
  have exec: "\<forall>i<length (Batches rollup2).
                 \<not> reorgMap [batch6] (Uint64 (SeqNo (Batches rollup2 ! i))) \<longrightarrow>
                 (if Uint64 (SeqNo (Batches rollup2 ! i)) = L2GenesisSeqNo rc2
                  then (\<forall>st. \<exists>g st'. CreateGenesisState rc2 st
                            (L1Proof (Batch.Header (Batches rollup2 ! i)))
                            (Time (Batch.Header (Batches rollup2 ! i)))
                            (BatchHeader.Coinbase (Batch.Header (Batches rollup2 ! 0)))
                            (BatchHeader.BaseFee (Batch.Header (Batches rollup2 ! 0))) = Inr (g, st')
                           \<and> Batch.Header g = Batch.Header (Batches rollup2 ! i))
                  else (\<forall>st. \<exists>cb. computeBatch rc2 st
                            (L1Proof (Batch.Header (Batches rollup2 ! i)))
                            (ParentHash (Batch.Header (Batches rollup2 ! i)))
                            (Batch.Transactions (Batches rollup2 ! i))
                            (Time (Batch.Header (Batches rollup2 ! i)))
                            (SeqNo (Batches rollup2 ! i))
                            (BatchHeader.Coinbase (Batch.Header (Batches rollup2 ! 0)))
                            (BatchHeader.BaseFee (Batch.Header (Batches rollup2 ! 0))) = Inr cb
                           \<and> Batch.Header (Batch cb) = Batch.Header (Batches rollup2 ! i)))"
    unfolding bl all_less_3 bs sq us gen
    using cb by (simp add: fl hp)
  from C1_round_trip [OF kv create_rc2_sequencer1 build_rc2_sequencer1 rb txcodec hdrcodec codec
         contiguous seqrange len pbs wf head onchain stored parent chain exec]
  obtain s' where
    p: "ProcessExtRollup rc2 node5 ext2 = Some (s', Inr header2)" and
    f: "\<forall>i<length (Batches rollup2).
          \<exists>b. FetchBatchBySeqNo rc2 s' (Uint64 (SeqNo (Batches rollup2 ! i))) = Inr b
             \<and> Batch.Header b = Batch.Header (Batches rollup2 ! i)"
    by blast
  from f [unfolded bl all_less_3 bs sq us] have
    "(\<exists>b. FetchBatchBySeqNo rc2 s' 5 = Inr b \<and> Batch.Header b = Batch.Header batch5)
     \<and> (\<exists>b. FetchBatchBySeqNo rc2 s' 6 = Inr b \<and> Batch.Header b = Batch.Header batch6)
     \<and> (\<exists>b. FetchBatchBySeqNo rc2 s' 7 = Inr b \<and> Batch.Header b = Batch.Header batch7)" .
  with p build_rc2_sequencer1 nf(1,2) show ?thesis by blast
qed

text \<open>
  C1 as stated fails on a node that holds the L1 blocks of the proofs and not the parent
  of the first batch: for the rollup of the contiguous batches 5, 6, 7, whose proof blocks
  are in the block map of the rollup and in the store of the node, \<^verbatim>\<open>ProcessExtRollup\<close>
  returns the error of the lookup of the parent batch and stores none of the batches.
\<close>

theorem C1_counterexample:
  "CreateExtRollup rc2 sequencer1 rollup2 = Inr ext2
   \<and> Batches rollup2 = [batch5, batch6, batch7]
   \<and> SeqNo batch5 = 5 \<and> SeqNo batch6 = 6 \<and> SeqNo batch7 = 7
   \<and> Blocks rollup2 (L1Proof (Batch.Header batch5)) = Some block6
   \<and> Blocks rollup2 (L1Proof (Batch.Header batch6)) = Some block6
   \<and> Blocks rollup2 (L1Proof (Batch.Header batch7)) = Some block7
   \<and> FetchBlock rc2 nodeL1 (L1Proof (Batch.Header batch5)) = Inr block6
   \<and> FetchBlock rc2 nodeL1 (L1Proof (Batch.Header batch6)) = Inr block6
   \<and> FetchBlock rc2 nodeL1 (L1Proof (Batch.Header batch7)) = Inr block7
   \<and> ProcessExtRollup rc2 nodeL1 ext2 = Some (nodeL1, Inl ErrNotFound)
   \<and> FetchBatchBySeqNo rc2 nodeL1 5 = Inl ErrNotFound
   \<and> FetchBatchBySeqNo rc2 nodeL1 6 = Inl ErrNotFound
   \<and> FetchBatchBySeqNo rc2 nodeL1 7 = Inl ErrNotFound"
proof -
  have b: "Batches rollup2 = [batch5, batch6, batch7]"
    by (simp add: rollup2_def)
  have sq: "SeqNo batch5 = 5" "SeqNo batch6 = 6" "SeqNo batch7 = 7"
    by (simp_all add: SeqNo_def batch5_def batch6_def batch7_def reorgHeader6_def)
  have m: "Blocks rollup2 (L1Proof (Batch.Header batch5)) = Some block6"
      "Blocks rollup2 (L1Proof (Batch.Header batch6)) = Some block6"
      "Blocks rollup2 (L1Proof (Batch.Header batch7)) = Some block7"
    by (simp_all add: rollup2_def blocks1_def batch5_def batch6_def batch7_def reorgHeader6_def
          block6_def block7_def)
  have st: "FetchBlock rc2 nodeL1 (L1Proof (Batch.Header batch5)) = Inr block6"
      "FetchBlock rc2 nodeL1 (L1Proof (Batch.Header batch6)) = Inr block6"
      "FetchBlock rc2 nodeL1 (L1Proof (Batch.Header batch7)) = Inr block7"
    by (simp_all add: rc2_def memNode_def nodeL1_def node1_def lookup_def batch5_def batch6_def
          batch7_def reorgHeader6_def block6_def block7_def)
  have d: "decryptDecompressAndDeserialise rc2 (DecodeTransactions rc2) (BatchPayloads ext2) = Inr txs2"
      "decryptDecompressAndDeserialise rc2 (DecodeCalldataHeader rc2)
         (ExtRollup.CalldataRollupHeader ext2) = Inr header2"
      "CompressionL1Head (ExtRollup.Header ext2) = 107"
    by (simp_all add: decryptDecompressAndDeserialise_def rc2_def memNode_def ext2_def)
  have c: "createIncompleteBatches rc2 nodeL1 header2 txs2 107 = Some (Inr [ib5, ib6, ib7])"
    by (simp add: concrete_eval rc2_def nodeL1_def node1_def header2_def txs2_def
          ib5_def ib6_def ib7_def)
  have e: "executeAndSaveIncompleteBatches rc2 header2 [ib5, ib6, ib7] nodeL1
             = (nodeL1, Some ErrNotFound)"
    by (simp add: executeAndSaveIncompleteBatches_def rc2_def memNode_def lookup_def header2_def
          nodeL1_def Uint64_def del: saveLoop.simps)
  have p: "ProcessExtRollup rc2 nodeL1 ext2 = Some (nodeL1, Inl ErrNotFound)"
    by (simp add: ProcessExtRollup_def d c e)
  have nf: "FetchBatchBySeqNo rc2 nodeL1 5 = Inl ErrNotFound"
      "FetchBatchBySeqNo rc2 nodeL1 6 = Inl ErrNotFound"
      "FetchBatchBySeqNo rc2 nodeL1 7 = Inl ErrNotFound"
    by (simp_all add: rc2_def memNode_def lookup_def nodeL1_def)
  from build_rc2_sequencer1 b sq m st p nf show ?thesis by simp
qed

end
